theory Spec2Isabelle
  imports Main "HOL-Library.Char_ord" "HOL-Library.List_Lexorder" "HOL-Library.Multiset"
begin

section \<open>The world the migrator runs in\<close>

text \<open>
  The migrator is effectful Go code: it talks to a PostgreSQL server through
  \<^verbatim>\<open>database/sql\<close>, lists and reads files, and reads environment variables.
  None of that is code of the repository, so it is modelled as an explicit world that
  every function takes and returns:
  \<^item> the server is a catalogue of databases by name; a database holds the rows of the
    tracking table \<^verbatim>\<open>_go_migrations\<close> in insertion order (\<open>None\<close>: the table
    does not exist) and everything else as an abstract value \<open>'s\<close>;
  \<^item> \<open>template1\<close> is the database that \<^verbatim>\<open>CREATE DATABASE\<close> copies;
  \<^item> what a script does to a database is a parameter \<open>sql\<close> of the world
    (\<open>None\<close>: the script fails); scripts are taken not to touch the tracking table;
  \<^item> \<^verbatim>\<open>sql.Open\<close> is a parameter \<open>driver\<close>: the database a connection string
    connects to (\<open>None\<close>: the driver rejects the string);
  \<^item> a directory is the list of its entry names in the order the operating system
    gives them, a file is found by directory and entry name;
  \<^item> any call to the server or the file system can fail for reasons outside the
    state (connectivity, cancellation, timeout): the list \<open>faults\<close> says, call by call,
    whether the next call fails; an empty list means no further fault;
  \<^item> every external call is appended to \<open>trace\<close>, as are the warnings the code prints
    (progress messages are left out).
  The model is sequential: one caller at a time.
\<close>

type_synonym conn = string
  \<comment> \<open>a \<^verbatim>\<open>*sql.DB\<close>: the name of the database the pool is bound to\<close>

datatype cause =
    Fault | NoSuchDatabase | NoSuchTable | UniqueViolation | ValueTooLong
  | ScriptFailed | DatabaseExists | DatabaseInUse | NotExist | TxDone | BadDSN

datatype error =
    Driver cause
  | Errorf string error
  | ErrorNew string
  | MissingFromFilesystem nat "string list"

text \<open>
  \<open>Driver c\<close> is an error returned by the driver or the operating system,
  \<open>Errorf msg err\<close> is \<^verbatim>\<open>fmt.Errorf("msg: %w", err)\<close>, \<open>ErrorNew msg\<close> an error
  with no wrapped cause, and \<open>MissingFromFilesystem n names\<close> is the validator's
  \<^verbatim>\<open>"critical: %d applied migrations are missing from filesystem: %v"\<close>.
\<close>

datatype IsolationLevel =
    LevelDefault | LevelReadUncommitted | LevelReadCommitted | LevelWriteCommitted
  | LevelRepeatableRead | LevelSnapshot | LevelSerializable | LevelLinearizable

record TxOptions =
  Isolation :: IsolationLevel
  ReadOnly :: bool

datatype event =
    EvGetenv string
  | EvReadDir string
  | EvReadFile string string
  | EvOpen string
  | EvClose conn
  | EvCurrentDatabase conn
  | EvTerminate conn string
  | EvDropDatabase conn string
  | EvCreateDatabase conn string
  | EvDatabaseExists conn string
  | EvCreateTable conn
  | EvCount conn string
  | EvSelectNames conn
  | EvScan conn
  | EvRowsErr conn
  | EvInsert conn string
  | EvBegin conn TxOptions
  | EvTxExec conn string
  | EvTxInsert conn string
  | EvCommit conn
  | EvRollback conn
  | EvWarning string "error option"

record 's database =
  migrations_table :: "string list option"
  objects :: 's

record 's world =
  dbs :: "string \<Rightarrow> 's database option"
  template1 :: "'s database"
  sql :: "string \<Rightarrow> 's \<Rightarrow> 's option"
  driver :: "string \<Rightarrow> conn option"
  dirs :: "string \<Rightarrow> string list option"
  files :: "string \<Rightarrow> string \<Rightarrow> string option"
  env :: "string \<Rightarrow> string"
  faults :: "bool list"
  trace :: "event list"

definition emit :: "event \<Rightarrow> 's world \<Rightarrow> 's world" where
  "emit ev w = w\<lparr>trace := trace w @ [ev]\<rparr>"

definition call :: "event \<Rightarrow> 's world \<Rightarrow> bool \<times> 's world" where
  "call ev w =
     (case faults w of
        [] \<Rightarrow> (False, emit ev w)
      | b # bs \<Rightarrow> (b, emit ev (w\<lparr>faults := bs\<rparr>)))"

subsection \<open>Calls on a connection\<close>

definition db_CurrentDatabase :: "conn \<Rightarrow> 's world \<Rightarrow> (error + string) \<times> 's world" where
  "db_CurrentDatabase c w =
     (case call (EvCurrentDatabase c) w of
        (True, w1) \<Rightarrow> (Inl (Driver Fault), w1)
      | (False, w1) \<Rightarrow>
          (case dbs w1 c of
             None \<Rightarrow> (Inl (Driver NoSuchDatabase), w1)
           | Some d \<Rightarrow> (Inr c, w1)))"

definition db_CreateTable :: "conn \<Rightarrow> 's world \<Rightarrow> (error + unit) \<times> 's world" where
  "db_CreateTable c w =
     (case call (EvCreateTable c) w of
        (True, w1) \<Rightarrow> (Inl (Driver Fault), w1)
      | (False, w1) \<Rightarrow>
          (case dbs w1 c of
             None \<Rightarrow> (Inl (Driver NoSuchDatabase), w1)
           | Some d \<Rightarrow>
               (case migrations_table d of
                  Some rows \<Rightarrow> (Inr (), w1)
                | None \<Rightarrow>
                    (Inr (), w1\<lparr>dbs := (dbs w1)(c \<mapsto> d\<lparr>migrations_table := Some []\<rparr>)\<rparr>))))"

definition db_Count :: "conn \<Rightarrow> string \<Rightarrow> 's world \<Rightarrow> (error + nat) \<times> 's world" where
  "db_Count c name w =
     (case call (EvCount c name) w of
        (True, w1) \<Rightarrow> (Inl (Driver Fault), w1)
      | (False, w1) \<Rightarrow>
          (case dbs w1 c of
             None \<Rightarrow> (Inl (Driver NoSuchDatabase), w1)
           | Some d \<Rightarrow>
               (case migrations_table d of
                  None \<Rightarrow> (Inl (Driver NoSuchTable), w1)
                | Some rows \<Rightarrow> (Inr (length (filter (\<lambda>r. r = name) rows)), w1))))"

definition insert_row :: "string \<Rightarrow> 's database \<Rightarrow> error + 's database" where
  "insert_row name d =
     (case migrations_table d of
        None \<Rightarrow> Inl (Driver NoSuchTable)
      | Some rows \<Rightarrow>
          if name \<in> set rows then Inl (Driver UniqueViolation)
          else if 255 < length name then Inl (Driver ValueTooLong)
          else Inr (d\<lparr>migrations_table := Some (rows @ [name])\<rparr>))"

definition db_Insert :: "conn \<Rightarrow> string \<Rightarrow> 's world \<Rightarrow> (error + unit) \<times> 's world" where
  "db_Insert c name w =
     (case call (EvInsert c name) w of
        (True, w1) \<Rightarrow> (Inl (Driver Fault), w1)
      | (False, w1) \<Rightarrow>
          (case dbs w1 c of
             None \<Rightarrow> (Inl (Driver NoSuchDatabase), w1)
           | Some d \<Rightarrow>
               (case insert_row name d of
                  Inl err \<Rightarrow> (Inl err, w1)
                | Inr d' \<Rightarrow> (Inr (), w1\<lparr>dbs := (dbs w1)(c \<mapsto> d')\<rparr>))))"

definition db_SelectNames :: "conn \<Rightarrow> 's world \<Rightarrow> (error + string list) \<times> 's world" where
  "db_SelectNames c w =
     (case call (EvSelectNames c) w of
        (True, w1) \<Rightarrow> (Inl (Driver Fault), w1)
      | (False, w1) \<Rightarrow>
          (case dbs w1 c of
             None \<Rightarrow> (Inl (Driver NoSuchDatabase), w1)
           | Some d \<Rightarrow>
               (case migrations_table d of
                  None \<Rightarrow> (Inl (Driver NoSuchTable), w1)
                | Some rows \<Rightarrow> (Inr rows, w1))))"

definition rows_Scan :: "conn \<Rightarrow> 's world \<Rightarrow> (error + unit) \<times> 's world" where
  "rows_Scan c w =
     (case call (EvScan c) w of
        (True, w1) \<Rightarrow> (Inl (Driver Fault), w1)
      | (False, w1) \<Rightarrow> (Inr (), w1))"

definition rows_Err :: "conn \<Rightarrow> 's world \<Rightarrow> (error + unit) \<times> 's world" where
  "rows_Err c w =
     (case call (EvRowsErr c) w of
        (True, w1) \<Rightarrow> (Inl (Driver Fault), w1)
      | (False, w1) \<Rightarrow> (Inr (), w1))"

subsection \<open>Transactions\<close>

text \<open>
  A transaction works on a private copy of the database taken at \<^verbatim>\<open>BeginTx\<close>;
  the isolation level has no further meaning in a sequential model.
  \<^verbatim>\<open>Commit\<close> installs the copy, \<^verbatim>\<open>Rollback\<close> discards it. A commit that fails
  installs nothing. After \<^verbatim>\<open>Commit\<close> or \<^verbatim>\<open>Rollback\<close> the transaction is done,
  and a further \<^verbatim>\<open>Rollback\<close> returns \<^verbatim>\<open>sql.ErrTxDone\<close> without a call to the
  server.
\<close>

record 's Tx =
  tx_conn :: conn
  tx_work :: "'s database"
  tx_done :: bool

definition db_BeginTx ::
  "conn \<Rightarrow> TxOptions \<Rightarrow> 's world \<Rightarrow> (error + 's Tx) \<times> 's world" where
  "db_BeginTx c opts w =
     (case call (EvBegin c opts) w of
        (True, w1) \<Rightarrow> (Inl (Driver Fault), w1)
      | (False, w1) \<Rightarrow>
          (case dbs w1 c of
             None \<Rightarrow> (Inl (Driver NoSuchDatabase), w1)
           | Some d \<Rightarrow> (Inr \<lparr>tx_conn = c, tx_work = d, tx_done = False\<rparr>, w1)))"

definition tx_Exec :: "'s Tx \<Rightarrow> string \<Rightarrow> 's world \<Rightarrow> (error + 's Tx) \<times> 's world" where
  "tx_Exec tx content w =
     (case call (EvTxExec (tx_conn tx) content) w of
        (True, w1) \<Rightarrow> (Inl (Driver Fault), w1)
      | (False, w1) \<Rightarrow>
          (case sql w1 content (objects (tx_work tx)) of
             None \<Rightarrow> (Inl (Driver ScriptFailed), w1)
           | Some s \<Rightarrow> (Inr (tx\<lparr>tx_work := (tx_work tx)\<lparr>objects := s\<rparr>\<rparr>), w1)))"

definition tx_Insert :: "'s Tx \<Rightarrow> string \<Rightarrow> 's world \<Rightarrow> (error + 's Tx) \<times> 's world" where
  "tx_Insert tx name w =
     (case call (EvTxInsert (tx_conn tx) name) w of
        (True, w1) \<Rightarrow> (Inl (Driver Fault), w1)
      | (False, w1) \<Rightarrow>
          (case insert_row name (tx_work tx) of
             Inl err \<Rightarrow> (Inl err, w1)
           | Inr d \<Rightarrow> (Inr (tx\<lparr>tx_work := d\<rparr>), w1)))"

definition tx_Commit :: "'s Tx \<Rightarrow> 's world \<Rightarrow> error option \<times> 's Tx \<times> 's world" where
  "tx_Commit tx w =
     (if tx_done tx then (Some (Driver TxDone), tx, w)
      else
        (case call (EvCommit (tx_conn tx)) w of
           (True, w1) \<Rightarrow> (Some (Driver Fault), tx\<lparr>tx_done := True\<rparr>, w1)
         | (False, w1) \<Rightarrow>
             (case dbs w1 (tx_conn tx) of
                None \<Rightarrow> (Some (Driver NoSuchDatabase), tx\<lparr>tx_done := True\<rparr>, w1)
              | Some d \<Rightarrow>
                  (None, tx\<lparr>tx_done := True\<rparr>,
                   w1\<lparr>dbs := (dbs w1)(tx_conn tx \<mapsto> tx_work tx)\<rparr>))))"

definition tx_Rollback :: "'s Tx \<Rightarrow> 's world \<Rightarrow> error option \<times> 's world" where
  "tx_Rollback tx w =
     (if tx_done tx then (Some (Driver TxDone), w)
      else
        (case call (EvRollback (tx_conn tx)) w of
           (True, w1) \<Rightarrow> (Some (Driver Fault), w1)
         | (False, w1) \<Rightarrow> (None, w1)))"

section \<open>Package tracker\<close>

record Tracker =
  tracker_db :: conn

definition tracker_New :: "conn \<Rightarrow> Tracker" where
  "tracker_New c = \<lparr>tracker_db = c\<rparr>"

definition EnsureMigrationsTable :: "Tracker \<Rightarrow> 's world \<Rightarrow> error option \<times> 's world" where
  "EnsureMigrationsTable t w =
     (case db_CreateTable (tracker_db t) w of
        (Inl err, w1) \<Rightarrow> (Some (Errorf ''failed to create migrations table'' err), w1)
      | (Inr u, w1) \<Rightarrow> (None, w1))"

definition IsApplied :: "Tracker \<Rightarrow> string \<Rightarrow> 's world \<Rightarrow> (error + bool) \<times> 's world" where
  "IsApplied t migrationName w =
     (case db_Count (tracker_db t) migrationName w of
        (Inl err, w1) \<Rightarrow> (Inl (Errorf ''failed to check migration status'' err), w1)
      | (Inr cnt, w1) \<Rightarrow> (Inr (0 < cnt), w1))"

definition Record :: "Tracker \<Rightarrow> string \<Rightarrow> 's world \<Rightarrow> error option \<times> 's world" where
  "Record t migrationName w =
     (case db_Insert (tracker_db t) migrationName w of
        (Inl err, w1) \<Rightarrow> (Some (Errorf ''failed to record migration'' err), w1)
      | (Inr u, w1) \<Rightarrow> (None, w1))"

text \<open>The loop \<^verbatim>\<open>for rows.Next() { rows.Scan(&name); append }\<close> of GetAppliedMigrations.\<close>

fun scan_rows ::
  "conn \<Rightarrow> string list \<Rightarrow> string list \<Rightarrow> 's world \<Rightarrow> (error + string list) \<times> 's world" where
  "scan_rows c [] migrations w = (Inr migrations, w)"
| "scan_rows c (name # rest) migrations w =
     (case rows_Scan c w of
        (Inl err, w1) \<Rightarrow> (Inl (Errorf ''failed to scan migration name'' err), w1)
      | (Inr u, w1) \<Rightarrow> scan_rows c rest (migrations @ [name]) w1)"

definition GetAppliedMigrations ::
  "Tracker \<Rightarrow> 's world \<Rightarrow> (error + string list) \<times> 's world" where
  "GetAppliedMigrations t w =
     (case db_SelectNames (tracker_db t) w of
        (Inl err, w1) \<Rightarrow> (Inl (Errorf ''failed to get applied migrations'' err), w1)
      | (Inr rows, w1) \<Rightarrow>
          (case scan_rows (tracker_db t) rows [] w1 of
             (Inl err, w2) \<Rightarrow> (Inl err, w2)
           | (Inr migrations, w2) \<Rightarrow>
               (case rows_Err (tracker_db t) w2 of
                  (Inl err, w3) \<Rightarrow> (Inl (Errorf ''error iterating migrations'' err), w3)
                | (Inr u, w3) \<Rightarrow> (Inr migrations, w3))))"

text \<open>
  ApplyMigration: the body up to its \<^verbatim>\<open>return\<close>, giving the returned error, the
  value of \<^verbatim>\<open>shouldRollback\<close> at that point and the transaction; then the deferred
  function, which rolls back when \<^verbatim>\<open>shouldRollback\<close> is still set and only warns
  when the rollback fails.
\<close>

definition ApplyMigration_body ::
  "'s Tx \<Rightarrow> string \<Rightarrow> string \<Rightarrow> 's world \<Rightarrow> error option \<times> bool \<times> 's Tx \<times> 's world" where
  "ApplyMigration_body tx migrationName content w =
     (case tx_Exec tx content w of
        (Inl err, w1) \<Rightarrow> (Some (Errorf ''failed to execute migration'' err), True, tx, w1)
      | (Inr tx1, w1) \<Rightarrow>
          (case tx_Insert tx1 migrationName w1 of
             (Inl err, w2) \<Rightarrow> (Some (Errorf ''failed to record migration'' err), True, tx1, w2)
           | (Inr tx2, w2) \<Rightarrow>
               (case tx_Commit tx2 w2 of
                  (Some err, tx3, w3) \<Rightarrow>
                    (Some (Errorf ''failed to commit migration'' err), True, tx3, w3)
                | (None, tx3, w3) \<Rightarrow> (None, False, tx3, w3))))"

definition ApplyMigration_deferred ::
  "bool \<Rightarrow> 's Tx \<Rightarrow> string \<Rightarrow> 's world \<Rightarrow> 's world" where
  "ApplyMigration_deferred shouldRollback tx migrationName w =
     (if shouldRollback then
        (case tx_Rollback tx w of
           (Some rbErr, w1) \<Rightarrow>
             emit (EvWarning (''Failed to rollback transaction for '' @ migrationName) (Some rbErr)) w1
         | (None, w1) \<Rightarrow> w1)
      else w)"

definition ApplyMigration ::
  "Tracker \<Rightarrow> string \<Rightarrow> string \<Rightarrow> 's world \<Rightarrow> error option \<times> 's world" where
  "ApplyMigration t migrationName content w =
     (case db_BeginTx (tracker_db t) \<lparr>Isolation = LevelReadCommitted, ReadOnly = False\<rparr> w of
        (Inl err, w1) \<Rightarrow> (Some (Errorf ''failed to begin transaction'' err), w1)
      | (Inr tx, w1) \<Rightarrow>
          (case ApplyMigration_body tx migrationName content w1 of
             (r, shouldRollback, tx', w2) \<Rightarrow>
               (r, ApplyMigration_deferred shouldRollback tx' migrationName w2)))"

section \<open>Strings, files and the environment\<close>

definition HasSuffix :: "string \<Rightarrow> string \<Rightarrow> bool" where
  "HasSuffix s suffix =
     (length suffix \<le> length s \<and> drop (length s - length suffix) s = suffix)"

definition HasPrefix :: "string \<Rightarrow> string \<Rightarrow> bool" where
  "HasPrefix s pre = (length pre \<le> length s \<and> take (length pre) s = pre)"

text \<open>\<^verbatim>\<open>strings.Split(s, "/")\<close>: never empty, one more part than separators.\<close>

fun Split :: "string \<Rightarrow> char \<Rightarrow> string list" where
  "Split [] sep = [[]]"
| "Split (c # cs) sep =
     (if c = sep then [] # Split cs sep
      else (case Split cs sep of
              [] \<Rightarrow> [[c]]
            | p # ps \<Rightarrow> (c # p) # ps))"

text \<open>\<^verbatim>\<open>strings.Index(s, "?")\<close>, with \<open>None\<close> for Go's \<open>-1\<close>.\<close>

fun Index :: "string \<Rightarrow> char \<Rightarrow> nat option" where
  "Index [] ch = None"
| "Index (c # cs) ch =
     (if c = ch then Some 0 else map_option Suc (Index cs ch))"

text \<open>\<^verbatim>\<open>strings.Replace(s, old, new, 1)\<close>: the first occurrence only.\<close>

fun Replace1 :: "string \<Rightarrow> string \<Rightarrow> string \<Rightarrow> string" where
  "Replace1 [] old new = (if old = [] then new else [])"
| "Replace1 (c # cs) old new =
     (if HasPrefix (c # cs) old then new @ drop (length old) (c # cs)
      else c # Replace1 cs old new)"

text \<open>
  \<^verbatim>\<open>os.ReadDir\<close> returns the entries of a directory sorted by file name, whatever
  order the file system lists them in. Strings compare byte by byte.
\<close>

definition os_ReadDir :: "string \<Rightarrow> 's world \<Rightarrow> (error + string list) \<times> 's world" where
  "os_ReadDir path w =
     (case call (EvReadDir path) w of
        (True, w1) \<Rightarrow> (Inl (Driver Fault), w1)
      | (False, w1) \<Rightarrow>
          (case dirs w1 path of
             None \<Rightarrow> (Inl (Driver NotExist), w1)
           | Some names \<Rightarrow> (Inr (sort names), w1)))"

text \<open>
  \<^verbatim>\<open>os.ReadFile\<close> of the entry \<open>name\<close> of directory \<open>dir\<close>; the source builds the
  path with \<^verbatim>\<open>filepath.Join(dir, name)\<close> in the validator and with
  \<^verbatim>\<open>dir + "/" + name\<close> in the shadow manager.
\<close>

definition os_ReadFile :: "string \<Rightarrow> string \<Rightarrow> 's world \<Rightarrow> (error + string) \<times> 's world" where
  "os_ReadFile dir name w =
     (case call (EvReadFile dir name) w of
        (True, w1) \<Rightarrow> (Inl (Driver Fault), w1)
      | (False, w1) \<Rightarrow>
          (case files w1 dir name of
             None \<Rightarrow> (Inl (Driver NotExist), w1)
           | Some content \<Rightarrow> (Inr content, w1)))"

definition os_Getenv :: "string \<Rightarrow> 's world \<Rightarrow> string \<times> 's world" where
  "os_Getenv key w = (env w key, emit (EvGetenv key) w)"

section \<open>Package validator\<close>

record Validator =
  v_tracker :: Tracker
  v_migrationsPath :: string

record MigrationFile =
  Name :: string
  Content :: string
  mf_tracker :: Tracker

definition validator_New :: "Tracker \<Rightarrow> string \<Rightarrow> Validator" where
  "validator_New t path = \<lparr>v_tracker = t, v_migrationsPath = path\<rparr>"

definition ValidateExistingMigrations ::
  "Validator \<Rightarrow> 's world \<Rightarrow> error option \<times> 's world" where
  "ValidateExistingMigrations v w =
     (case GetAppliedMigrations (v_tracker v) w of
        (Inl err, w1) \<Rightarrow> (Some (Errorf ''failed to get applied migrations'' err), w1)
      | (Inr appliedMigrations, w1) \<Rightarrow>
          (case os_ReadDir (v_migrationsPath v) w1 of
             (Inl err, w2) \<Rightarrow> (Some (Errorf ''failed to read migrations directory'' err), w2)
           | (Inr entries, w2) \<Rightarrow>
               (let fsFiles = filter (\<lambda>file. HasSuffix file ''.sql'') entries;
                    missingMigrations = filter (\<lambda>a. a \<notin> set fsFiles) appliedMigrations
                in if 0 < length missingMigrations
                   then (Some (MissingFromFilesystem (length missingMigrations) missingMigrations), w2)
                   else (None, w2))))"

definition createMigrationFile ::
  "Validator \<Rightarrow> string \<Rightarrow> 's world \<Rightarrow> (error + MigrationFile) \<times> 's world" where
  "createMigrationFile v file w =
     (case os_ReadFile (v_migrationsPath v) file w of
        (Inl err, w1) \<Rightarrow> (Inl (Errorf ''failed to read file'' err), w1)
      | (Inr content, w1) \<Rightarrow>
          (Inr \<lparr>Name = file, Content = content, mf_tracker = v_tracker v\<rparr>, w1))"

text \<open>The loop of GetMigrationFiles over the directory entries.\<close>

fun load_entries ::
  "Validator \<Rightarrow> string list \<Rightarrow> MigrationFile list \<Rightarrow> 's world \<Rightarrow>
   (error + MigrationFile list) \<times> 's world" where
  "load_entries v [] migrationFiles w = (Inr migrationFiles, w)"
| "load_entries v (file # rest) migrationFiles w =
     (if \<not> HasSuffix file ''.sql'' then load_entries v rest migrationFiles w
      else
        (case createMigrationFile v file w of
           (Inl err, w1) \<Rightarrow>
             (Inl (Errorf (''failed to create migration file for '' @ file) err), w1)
         | (Inr migrationFile, w1) \<Rightarrow>
             load_entries v rest (migrationFiles @ [migrationFile]) w1))"

definition GetMigrationFiles ::
  "Validator \<Rightarrow> 's world \<Rightarrow> (error + MigrationFile list) \<times> 's world" where
  "GetMigrationFiles v w =
     (case os_ReadDir (v_migrationsPath v) w of
        (Inl err, w1) \<Rightarrow> (Inl (Errorf ''failed to read migrations directory'' err), w1)
      | (Inr entries, w1) \<Rightarrow> load_entries v entries [] w1)"

definition MigrationFile_IsApplied ::
  "MigrationFile \<Rightarrow> 's world \<Rightarrow> (error + bool) \<times> 's world" where
  "MigrationFile_IsApplied m w = IsApplied (mf_tracker m) (Name m) w"

definition MigrationFile_Apply ::
  "MigrationFile \<Rightarrow> 's world \<Rightarrow> error option \<times> 's world" where
  "MigrationFile_Apply m w = ApplyMigration (mf_tracker m) (Name m) (Content m) w"

fun find_new ::
  "MigrationFile list \<Rightarrow> MigrationFile list \<Rightarrow> 's world \<Rightarrow>
   (error + MigrationFile list) \<times> 's world" where
  "find_new [] newMigrations w = (Inr newMigrations, w)"
| "find_new (migration # rest) newMigrations w =
     (case MigrationFile_IsApplied migration w of
        (Inl err, w1) \<Rightarrow>
          (Inl (Errorf (''failed to check migration '' @ Name migration) err), w1)
      | (Inr isApplied, w1) \<Rightarrow>
          (if \<not> isApplied then find_new rest (newMigrations @ [migration]) w1
           else find_new rest newMigrations w1))"

definition FindNewMigrations ::
  "MigrationFile list \<Rightarrow> 's world \<Rightarrow> (error + MigrationFile list) \<times> 's world" where
  "FindNewMigrations allMigrations w = find_new allMigrations [] w"

section \<open>Package shadowdb\<close>

subsection \<open>Calls on the administrative connection\<close>

definition sql_Open :: "string \<Rightarrow> 's world \<Rightarrow> (error + conn) \<times> 's world" where
  "sql_Open dsn w =
     (case driver w dsn of
        None \<Rightarrow> (Inl (Driver BadDSN), emit (EvOpen dsn) w)
      | Some c \<Rightarrow> (Inr c, emit (EvOpen dsn) w))"

definition db_Close :: "conn \<Rightarrow> 's world \<Rightarrow> 's world" where
  "db_Close c w = emit (EvClose c) w"

definition db_Terminate :: "conn \<Rightarrow> string \<Rightarrow> 's world \<Rightarrow> (error + unit) \<times> 's world" where
  "db_Terminate c dbName w =
     (case call (EvTerminate c dbName) w of
        (True, w1) \<Rightarrow> (Inl (Driver Fault), w1)
      | (False, w1) \<Rightarrow>
          (case dbs w1 c of
             None \<Rightarrow> (Inl (Driver NoSuchDatabase), w1)
           | Some d \<Rightarrow> (Inr (), w1)))"

text \<open>
  \<^verbatim>\<open>DROP DATABASE IF EXISTS name\<close>: succeeds when there is no such database, and
  cannot drop the database the connection itself is bound to.
\<close>

definition db_DropDatabase :: "conn \<Rightarrow> string \<Rightarrow> 's world \<Rightarrow> (error + unit) \<times> 's world" where
  "db_DropDatabase c dbName w =
     (case call (EvDropDatabase c dbName) w of
        (True, w1) \<Rightarrow> (Inl (Driver Fault), w1)
      | (False, w1) \<Rightarrow>
          (case dbs w1 c of
             None \<Rightarrow> (Inl (Driver NoSuchDatabase), w1)
           | Some d \<Rightarrow>
               if dbName = c then (Inl (Driver DatabaseInUse), w1)
               else (Inr (), w1\<lparr>dbs := (dbs w1)(dbName := None)\<rparr>)))"

definition db_CreateDatabase :: "conn \<Rightarrow> string \<Rightarrow> 's world \<Rightarrow> (error + unit) \<times> 's world" where
  "db_CreateDatabase c dbName w =
     (case call (EvCreateDatabase c dbName) w of
        (True, w1) \<Rightarrow> (Inl (Driver Fault), w1)
      | (False, w1) \<Rightarrow>
          (case dbs w1 c of
             None \<Rightarrow> (Inl (Driver NoSuchDatabase), w1)
           | Some d \<Rightarrow>
               (case dbs w1 dbName of
                  Some d' \<Rightarrow> (Inl (Driver DatabaseExists), w1)
                | None \<Rightarrow> (Inr (), w1\<lparr>dbs := (dbs w1)(dbName \<mapsto> template1 w1)\<rparr>))))"

definition db_DatabaseExists :: "conn \<Rightarrow> string \<Rightarrow> 's world \<Rightarrow> (error + bool) \<times> 's world" where
  "db_DatabaseExists c dbName w =
     (case call (EvDatabaseExists c dbName) w of
        (True, w1) \<Rightarrow> (Inl (Driver Fault), w1)
      | (False, w1) \<Rightarrow>
          (case dbs w1 c of
             None \<Rightarrow> (Inl (Driver NoSuchDatabase), w1)
           | Some d \<Rightarrow> (Inr (dbs w1 dbName \<noteq> None), w1)))"

subsection \<open>The manager\<close>

record Manager =
  mainDB :: conn
  currentDBName :: string
  shadowDBName :: string
  databaseURL :: string

definition NewWithURL :: "conn \<Rightarrow> string \<Rightarrow> error + Manager" where
  "NewWithURL db url =
     (if url = [] then Inl (ErrorNew ''database URL is required for shadow database operations'')
      else Inr \<lparr>mainDB = db, currentDBName = [], shadowDBName = [], databaseURL = url\<rparr>)"

definition shadowdb_New :: "conn \<Rightarrow> 's world \<Rightarrow> (error + Manager) \<times> 's world" where
  "shadowdb_New db w =
     (case os_Getenv ''DATABASE_URL'' w of
        (url, w1) \<Rightarrow>
          (if url = [] then (Inl (ErrorNew ''DATABASE_URL environment variable not set''), w1)
           else (NewWithURL db url, w1)))"

definition getCurrentDatabaseName :: "conn \<Rightarrow> 's world \<Rightarrow> (error + string) \<times> 's world" where
  "getCurrentDatabaseName db w = db_CurrentDatabase db w"

definition extractDBNameFromDSN :: "string \<Rightarrow> string" where
  "extractDBNameFromDSN dsn =
     (let parts = Split dsn (CHR ''/'') in
      if 0 < length parts then
        (let lastPart = last parts in
         case Index lastPart (CHR ''?'') of
           Some idx \<Rightarrow> take idx lastPart
         | None \<Rightarrow> lastPart)
      else ''postgres'')"

definition connectToPostgresDatabase :: "Manager \<Rightarrow> 's world \<Rightarrow> (error + conn) \<times> 's world" where
  "connectToPostgresDatabase m w =
     (let currentDB = extractDBNameFromDSN (databaseURL m);
          dsn = Replace1 (databaseURL m) (''/'' @ currentDB) ''/postgres''
      in sql_Open dsn w)"

definition connectToDatabase :: "Manager \<Rightarrow> string \<Rightarrow> 's world \<Rightarrow> (error + conn) \<times> 's world" where
  "connectToDatabase m dbName w =
     (let currentDB = extractDBNameFromDSN (databaseURL m);
          dsn = Replace1 (databaseURL m) (''/'' @ currentDB) (''/'' @ dbName)
      in sql_Open dsn w)"

definition dropDatabaseIfExists :: "conn \<Rightarrow> string \<Rightarrow> 's world \<Rightarrow> error option \<times> 's world" where
  "dropDatabaseIfExists db dbName w =
     (let w2 =
        (case db_Terminate db dbName w of
           (Inl err, w1) \<Rightarrow>
             emit (EvWarning (''Failed to terminate connections for '' @ dbName) (Some err)) w1
         | (Inr u, w1) \<Rightarrow> w1)
      in case db_DropDatabase db dbName w2 of
           (Inl err, w3) \<Rightarrow> (Some (Errorf (''failed to drop database '' @ dbName) err), w3)
         | (Inr u, w3) \<Rightarrow> (None, w3))"

definition createDatabase :: "conn \<Rightarrow> string \<Rightarrow> 's world \<Rightarrow> error option \<times> 's world" where
  "createDatabase db dbName w =
     (case db_CreateDatabase db dbName w of
        (Inl err, w1) \<Rightarrow> (Some (Errorf (''failed to create database '' @ dbName) err), w1)
      | (Inr u, w1) \<Rightarrow> (None, w1))"

text \<open>
  setupShadowDatabase returns the shadow connection and a cleanup closure over the
  shadow connection, the administrative connection and the manager; the model returns
  the two connections, and \<open>cleanup\<close> is the closure's body.
\<close>

definition setupShadowDatabase ::
  "Manager \<Rightarrow> 's world \<Rightarrow> (error + conn \<times> conn) \<times> 's world" where
  "setupShadowDatabase m w =
     (case connectToPostgresDatabase m w of
        (Inl err, w1) \<Rightarrow> (Inl (Errorf ''failed to connect to postgres database'' err), w1)
      | (Inr postgresDB, w1) \<Rightarrow>
          (case dropDatabaseIfExists postgresDB (shadowDBName m) w1 of
             (Some err, w2) \<Rightarrow>
               (Inl (Errorf ''failed to drop existing shadow database'' err), db_Close postgresDB w2)
           | (None, w2) \<Rightarrow>
               (case createDatabase postgresDB (shadowDBName m) w2 of
                  (Some err, w3) \<Rightarrow>
                    (Inl (Errorf ''failed to create shadow database'' err), db_Close postgresDB w3)
                | (None, w3) \<Rightarrow>
                    (case connectToDatabase m (shadowDBName m) w3 of
                       (Inl err, w4) \<Rightarrow>
                         (Inl (Errorf ''failed to connect to shadow database'' err),
                          db_Close postgresDB w4)
                     | (Inr shadowDB, w4) \<Rightarrow> (Inr (shadowDB, postgresDB), w4)))))"

definition cleanup :: "Manager \<Rightarrow> conn \<Rightarrow> conn \<Rightarrow> 's world \<Rightarrow> 's world" where
  "cleanup m shadowDB postgresDB w =
     (case dropDatabaseIfExists postgresDB (shadowDBName m) (db_Close shadowDB w) of
        (Some err, w1) \<Rightarrow>
          db_Close postgresDB
            (emit (EvWarning (''Failed to clean up shadow database '' @ shadowDBName m) (Some err)) w1)
      | (None, w1) \<Rightarrow> db_Close postgresDB w1)"

text \<open>The loop of applyExistingMigrationsToShadow over the applied names.\<close>

fun replay_applied ::
  "Tracker \<Rightarrow> string \<Rightarrow> string list \<Rightarrow> 's world \<Rightarrow> error option \<times> 's world" where
  "replay_applied shadowTracker path [] w = (None, w)"
| "replay_applied shadowTracker path (migrationName # rest) w =
     (case os_ReadFile path migrationName w of
        (Inl err, w1) \<Rightarrow>
          (Some (Errorf (''failed to read migration '' @ migrationName) err), w1)
      | (Inr content, w1) \<Rightarrow>
          (case ApplyMigration shadowTracker migrationName content w1 of
             (Some err, w2) \<Rightarrow>
               (Some (Errorf (''failed to apply existing migration '' @ migrationName @ '' to shadow'') err),
                w2)
           | (None, w2) \<Rightarrow> replay_applied shadowTracker path rest w2))"

definition applyExistingMigrationsToShadow ::
  "Manager \<Rightarrow> Tracker \<Rightarrow> Tracker \<Rightarrow> 's world \<Rightarrow> error option \<times> 's world" where
  "applyExistingMigrationsToShadow m mainTracker shadowTracker w =
     (case GetAppliedMigrations mainTracker w of
        (Inl err, w1) \<Rightarrow> (Some (Errorf ''failed to get applied migrations'' err), w1)
      | (Inr appliedMigrations, w1) \<Rightarrow>
          (case os_Getenv ''MIGRATIONS_PATH'' w1 of
             (p, w2) \<Rightarrow>
               replay_applied shadowTracker (if p = [] then ''./migrations'' else p)
                 appliedMigrations w2))"

fun test_each :: "Tracker \<Rightarrow> MigrationFile list \<Rightarrow> 's world \<Rightarrow> error option \<times> 's world" where
  "test_each shadowTracker [] w = (None, w)"
| "test_each shadowTracker (migration # rest) w =
     (case ApplyMigration shadowTracker (Name migration) (Content migration) w of
        (Some err, w1) \<Rightarrow>
          (Some (Errorf (''migration '' @ Name migration @ '' failed on shadow database'') err), w1)
      | (None, w1) \<Rightarrow> test_each shadowTracker rest w1)"

definition testMigrationsOnShadow ::
  "Manager \<Rightarrow> conn \<Rightarrow> MigrationFile list \<Rightarrow> 's world \<Rightarrow> error option \<times> 's world" where
  "testMigrationsOnShadow m shadowDB migrations w =
     test_each (tracker_New shadowDB) migrations w"

text \<open>
  TestNewMigrations after the setup: the part that runs under
  \<^verbatim>\<open>defer cleanup()\<close>.
\<close>

definition TestNewMigrations_body ::
  "Manager \<Rightarrow> Tracker \<Rightarrow> conn \<Rightarrow> MigrationFile list \<Rightarrow> 's world \<Rightarrow> error option \<times> 's world" where
  "TestNewMigrations_body m mainTracker shadowDB newMigrations w =
     (case EnsureMigrationsTable (tracker_New shadowDB) w of
        (Some err, w1) \<Rightarrow> (Some (Errorf ''failed to create migrations table in shadow'' err), w1)
      | (None, w1) \<Rightarrow>
          (case applyExistingMigrationsToShadow m mainTracker (tracker_New shadowDB) w1 of
             (Some err, w2) \<Rightarrow>
               (Some (Errorf ''failed to apply existing migrations to shadow'' err), w2)
           | (None, w2) \<Rightarrow>
               (case testMigrationsOnShadow m shadowDB newMigrations w2 of
                  (Some err, w3) \<Rightarrow> (Some (Errorf ''failed to test migrations on shadow'' err), w3)
                | (None, w3) \<Rightarrow> (None, w3))))"

definition set_names :: "Manager \<Rightarrow> string \<Rightarrow> Manager" where
  "set_names m name = m\<lparr>currentDBName := name, shadowDBName := name @ ''_gi_mig_shadow_db''\<rparr>"

definition TestNewMigrations ::
  "Manager \<Rightarrow> Tracker \<Rightarrow> MigrationFile list \<Rightarrow> 's world \<Rightarrow> error option \<times> Manager \<times> 's world" where
  "TestNewMigrations m mainTracker newMigrations w =
     (if length newMigrations = 0 then (None, m, w)
      else
        (case getCurrentDatabaseName (mainDB m) w of
           (Inl err, w1) \<Rightarrow> (Some (Errorf ''failed to get current database name'' err), m, w1)
         | (Inr name, w1) \<Rightarrow>
             (case setupShadowDatabase (set_names m name) w1 of
                (Inl err, w2) \<Rightarrow>
                  (Some (Errorf ''failed to setup shadow database'' err), set_names m name, w2)
              | (Inr (shadowDB, postgresDB), w2) \<Rightarrow>
                  (case TestNewMigrations_body (set_names m name) mainTracker shadowDB newMigrations w2 of
                     (r, w3) \<Rightarrow>
                       (r, set_names m name, cleanup (set_names m name) shadowDB postgresDB w3)))))"

text \<open>EnsureCleanup once the names are known, under \<^verbatim>\<open>defer postgresDB.Close()\<close>.\<close>

definition EnsureCleanup_named :: "Manager \<Rightarrow> 's world \<Rightarrow> error option \<times> 's world" where
  "EnsureCleanup_named m w =
     (case connectToPostgresDatabase m w of
        (Inl err, w1) \<Rightarrow> (Some (Errorf ''failed to connect to postgres database'' err), w1)
      | (Inr postgresDB, w1) \<Rightarrow>
          (case db_DatabaseExists postgresDB (shadowDBName m) w1 of
             (Inl err, w2) \<Rightarrow>
               (Some (Errorf ''failed to check if shadow database exists'' err),
                db_Close postgresDB w2)
           | (Inr exists, w2) \<Rightarrow>
               (if exists then
                  (case dropDatabaseIfExists postgresDB (shadowDBName m) w2 of
                     (Some err, w3) \<Rightarrow>
                       (Some (Errorf ''failed to drop shadow database'' err), db_Close postgresDB w3)
                   | (None, w3) \<Rightarrow> (None, db_Close postgresDB w3))
                else (None, db_Close postgresDB w2))))"

definition EnsureCleanup :: "Manager \<Rightarrow> 's world \<Rightarrow> error option \<times> Manager \<times> 's world" where
  "EnsureCleanup m w =
     (if currentDBName m = [] then
        (case getCurrentDatabaseName (mainDB m) w of
           (Inl err, w1) \<Rightarrow> (Some (Errorf ''failed to get current database name'' err), m, w1)
         | (Inr name, w1) \<Rightarrow>
             (case EnsureCleanup_named (set_names m name) w1 of
                (r, w2) \<Rightarrow> (r, set_names m name, w2)))
      else (case EnsureCleanup_named m w of (r, w2) \<Rightarrow> (r, m, w2)))"

section \<open>Package migrator\<close>

record Migrator =
  m_db :: conn
  m_tracker :: Tracker
  m_validator :: Validator
  shadowManager :: "Manager option"
  migrationsPath :: string

record Options =
  MigrationsPath :: string
  DatabaseURL :: string
  SkipShadowDB :: bool

definition NewWithOptions :: "conn \<Rightarrow> Options \<Rightarrow> 's world \<Rightarrow> Migrator \<times> 's world" where
  "NewWithOptions db opts w =
     (case (if MigrationsPath opts = [] then
              (case os_Getenv ''MIGRATIONS_PATH'' w of
                 (p, w1) \<Rightarrow> (if p = [] then (''./migrations'', w1) else (p, w1)))
            else (MigrationsPath opts, w)) of
        (path, w1) \<Rightarrow>
          (case (if DatabaseURL opts = [] then os_Getenv ''DATABASE_URL'' w1
                 else (DatabaseURL opts, w1)) of
             (url, w2) \<Rightarrow>
               (\<lparr>m_db = db,
                 m_tracker = tracker_New db,
                 m_validator = validator_New (tracker_New db) path,
                 shadowManager =
                   (if url \<noteq> [] then
                      (case NewWithURL db url of Inl err \<Rightarrow> None | Inr mgr \<Rightarrow> Some mgr)
                    else None),
                 migrationsPath = path\<rparr>, w2)))"

definition migrator_New :: "conn \<Rightarrow> 's world \<Rightarrow> Migrator \<times> 's world" where
  "migrator_New db w =
     NewWithOptions db \<lparr>MigrationsPath = [], DatabaseURL = [], SkipShadowDB = False\<rparr> w"

definition applyMigrationWithTimeout ::
  "Migrator \<Rightarrow> MigrationFile \<Rightarrow> 's world \<Rightarrow> error option \<times> 's world" where
  "applyMigrationWithTimeout m migration w = MigrationFile_Apply migration w"

fun apply_each ::
  "Migrator \<Rightarrow> MigrationFile list \<Rightarrow> nat \<Rightarrow> 's world \<Rightarrow> (error + nat) \<times> 's world" where
  "apply_each m [] appliedCount w = (Inr appliedCount, w)"
| "apply_each m (migration # rest) appliedCount w =
     (case MigrationFile_IsApplied migration w of
        (Inl err, w1) \<Rightarrow>
          (Inl (Errorf (''failed to check migration '' @ Name migration) err), w1)
      | (Inr isApplied, w1) \<Rightarrow>
          (if isApplied then apply_each m rest appliedCount w1
           else
             (case applyMigrationWithTimeout m migration w1 of
                (Some err, w2) \<Rightarrow>
                  (Inl (Errorf (''failed to apply migration '' @ Name migration) err), w2)
              | (None, w2) \<Rightarrow> apply_each m rest (appliedCount + 1) w2)))"

definition applyPendingMigrations ::
  "Migrator \<Rightarrow> MigrationFile list \<Rightarrow> 's world \<Rightarrow> error option \<times> 's world" where
  "applyPendingMigrations m migrations w =
     (case apply_each m migrations 0 w of
        (Inl err, w1) \<Rightarrow> (Some err, w1)
      | (Inr appliedCount, w1) \<Rightarrow> (None, w1))"

text \<open>
  Step 5 of Migrate, first half: the lazy construction of the shadow manager from
  \<^verbatim>\<open>DATABASE_URL\<close> when the migrator has none.
\<close>

definition Migrate_lazy_manager ::
  "Migrator \<Rightarrow> 's world \<Rightarrow> error option \<times> Migrator \<times> 's world" where
  "Migrate_lazy_manager m w =
     (if shadowManager m = None then
        (case os_Getenv ''DATABASE_URL'' w of
           (url, w1) \<Rightarrow>
             (if url \<noteq> [] then
                (case NewWithURL (m_db m) url of
                   Inl err \<Rightarrow>
                     (Some (Errorf ''failed to initialize shadow database manager'' err), m, w1)
                 | Inr shadowMgr \<Rightarrow> (None, m\<lparr>shadowManager := Some shadowMgr\<rparr>, w1))
              else
                (None, m,
                 emit (EvWarning ''DATABASE_URL not provided, skipping shadow database test'' None) w1)))
      else (None, m, w))"

text \<open>Step 5 of Migrate: the shadow test of the new migrations.\<close>

definition Migrate_shadow ::
  "Migrator \<Rightarrow> MigrationFile list \<Rightarrow> 's world \<Rightarrow> error option \<times> Migrator \<times> 's world" where
  "Migrate_shadow m newMigrations w =
     (if 0 < length newMigrations then
        (case Migrate_lazy_manager m w of
           (Some err, m1, w1) \<Rightarrow> (Some err, m1, w1)
         | (None, m1, w1) \<Rightarrow>
             (case shadowManager m1 of
                None \<Rightarrow> (None, m1, w1)
              | Some mgr \<Rightarrow>
                  (case TestNewMigrations mgr (m_tracker m1) newMigrations w1 of
                     (Some err, mgr', w2) \<Rightarrow>
                       (Some (Errorf ''shadow database test failed'' err),
                        m1\<lparr>shadowManager := Some mgr'\<rparr>, w2)
                   | (None, mgr', w2) \<Rightarrow> (None, m1\<lparr>shadowManager := Some mgr'\<rparr>, w2))))
      else (None, m, w))"

text \<open>Step 7 of Migrate: the final cleanup, whose failure is only a warning.\<close>

definition Migrate_cleanup :: "Migrator \<Rightarrow> 's world \<Rightarrow> Migrator \<times> 's world" where
  "Migrate_cleanup m w =
     (case shadowManager m of
        None \<Rightarrow> (m, w)
      | Some mgr \<Rightarrow>
          (case EnsureCleanup mgr w of
             (Some err, mgr', w1) \<Rightarrow>
               (m\<lparr>shadowManager := Some mgr'\<rparr>,
                emit (EvWarning ''Final shadow database cleanup failed'' (Some err)) w1)
           | (None, mgr', w1) \<Rightarrow> (m\<lparr>shadowManager := Some mgr'\<rparr>, w1)))"

definition Migrate :: "Migrator \<Rightarrow> 's world \<Rightarrow> error option \<times> Migrator \<times> 's world" where
  "Migrate m w =
     (case EnsureMigrationsTable (m_tracker m) w of
        (Some err, w1) \<Rightarrow> (Some (Errorf ''failed to ensure migrations table'' err), m, w1)
      | (None, w1) \<Rightarrow>
     (case ValidateExistingMigrations (m_validator m) w1 of
        (Some err, w2) \<Rightarrow> (Some (Errorf ''migration validation failed'' err), m, w2)
      | (None, w2) \<Rightarrow>
     (case GetMigrationFiles (m_validator m) w2 of
        (Inl err, w3) \<Rightarrow> (Some (Errorf ''failed to get migration files'' err), m, w3)
      | (Inr migrationFiles, w3) \<Rightarrow>
     (case FindNewMigrations migrationFiles w3 of
        (Inl err, w4) \<Rightarrow> (Some (Errorf ''failed to find new migrations'' err), m, w4)
      | (Inr newMigrations, w4) \<Rightarrow>
     (case Migrate_shadow m newMigrations w4 of
        (Some err, m5, w5) \<Rightarrow> (Some err, m5, w5)
      | (None, m5, w5) \<Rightarrow>
     (case applyPendingMigrations m5 migrationFiles w5 of
        (Some err, w6) \<Rightarrow> (Some (Errorf ''failed to apply migrations'' err), m5, w6)
      | (None, w6) \<Rightarrow>
     (case Migrate_cleanup m5 w6 of
        (m7, w7) \<Rightarrow> (None, m7, w7))))))))"

section \<open>Auxiliary notions for the statements\<close>

subsection \<open>Events, tables and directory entries\<close>

fun is_warning :: "event \<Rightarrow> bool" where
  "is_warning (EvWarning msg err) = True"
| "is_warning ev = False"

text \<open>The transaction options that ApplyMigration passes to \<^verbatim>\<open>BeginTx\<close>.\<close>

definition read_committed :: TxOptions where
  "read_committed = \<lparr>Isolation = LevelReadCommitted, ReadOnly = False\<rparr>"

text \<open>Whether the next external call fails.\<close>

definition next_fault :: "'s world \<Rightarrow> bool" where
  "next_fault w = (case faults w of [] \<Rightarrow> False | b # bs \<Rightarrow> b)"

text \<open>The entries that the validator takes for migration scripts.\<close>

definition is_sql :: "string \<Rightarrow> bool" where
  "is_sql file = HasSuffix file ''.sql''"

text \<open>The migration file of a readable entry of the validator's directory.\<close>

definition load :: "Validator \<Rightarrow> 's world \<Rightarrow> string \<Rightarrow> MigrationFile" where
  "load v w file =
     \<lparr>Name = file, Content = the (files w (v_migrationsPath v) file), mf_tracker = v_tracker v\<rparr>"

text \<open>The \<^verbatim>\<open>.sql\<close> entries of a directory in the order of \<^verbatim>\<open>os.ReadDir\<close>.\<close>

definition sql_entries :: "'s world \<Rightarrow> string \<Rightarrow> string list" where
  "sql_entries w path =
     (case dirs w path of None \<Rightarrow> [] | Some names \<Rightarrow> sort (filter is_sql names))"

text \<open>
  The scripts' meaning, the driver, the file system, the environment and the template
  database are inputs: no call changes them.
\<close>

definition same_params :: "'s world \<Rightarrow> 's world \<Rightarrow> bool" where
  "same_params w w' \<longleftrightarrow>
     sql w' = sql w \<and> driver w' = driver w \<and> dirs w' = dirs w \<and> files w' = files w \<and>
     env w' = env w \<and> template1 w' = template1 w"

text \<open>The applied names that have no \<^verbatim>\<open>.sql\<close> entry among the names of the directory.\<close>

definition missing_from :: "string list \<Rightarrow> string list \<Rightarrow> string list" where
  "missing_from names applied = filter (\<lambda>a. \<not> (is_sql a \<and> a \<in> set names)) applied"

text \<open>The tracking table of a database of the server, and its rows (none without a table).\<close>

definition table_of :: "'s world \<Rightarrow> string \<Rightarrow> string list option" where
  "table_of w c = (case dbs w c of None \<Rightarrow> None | Some d \<Rightarrow> migrations_table d)"

definition tab :: "'s world \<Rightarrow> string \<Rightarrow> string list" where
  "tab w p = (case table_of w p of None \<Rightarrow> [] | Some rows \<Rightarrow> rows)"

subsection \<open>Runs of applyPendingMigrations\<close>

text \<open>
  The migrations that a run over \<open>ms\<close> applies when the tracking table holds \<open>rows\<close>:
  those whose name is not in the table at the moment their turn comes, the table
  growing by each name applied. \<open>run_events\<close> is the sequence of calls of a run in
  which no call fails: for each migration the query of the tracking table, followed for
  a migration not yet recorded by the four calls of its transaction. \<open>run_event_ok\<close>
  holds of the calls that any run, failing or not, can make.
\<close>

fun pending :: "string list \<Rightarrow> MigrationFile list \<Rightarrow> MigrationFile list" where
  "pending rows [] = []"
| "pending rows (m # ms) =
     (if Name m \<in> set rows then pending rows ms else m # pending (rows @ [Name m]) ms)"

definition apply_events :: "conn \<Rightarrow> MigrationFile \<Rightarrow> event list" where
  "apply_events c m =
     [EvBegin c read_committed, EvTxExec c (Content m), EvTxInsert c (Name m), EvCommit c]"

fun run_events :: "conn \<Rightarrow> string list \<Rightarrow> MigrationFile list \<Rightarrow> event list" where
  "run_events c rows [] = []"
| "run_events c rows (m # ms) =
     EvCount c (Name m) #
       (if Name m \<in> set rows then run_events c rows ms
        else apply_events c m @ run_events c (rows @ [Name m]) ms)"

definition run_event_ok :: "conn \<Rightarrow> string list \<Rightarrow> MigrationFile list \<Rightarrow> event \<Rightarrow> bool" where
  "run_event_ok c rows ms ev \<longleftrightarrow>
     (\<exists>m\<in>set ms. ev = EvCount c (Name m)) \<or>
     (\<exists>m\<in>set (pending rows ms). ev = EvTxExec c (Content m) \<or> ev = EvTxInsert c (Name m)) \<or>
     ev = EvBegin c read_committed \<or> ev = EvCommit c \<or> ev = EvRollback c \<or> is_warning ev"

text \<open>
  The objects of a database after the scripts of the migrations \<open>ms\<close> have run on it one
  after the other, \<open>f\<close> being the meaning of the scripts; \<open>None\<close> when one of them fails.
\<close>

fun run_scripts ::
  "(string \<Rightarrow> 's \<Rightarrow> 's option) \<Rightarrow> 's \<Rightarrow> MigrationFile list \<Rightarrow> 's option" where
  "run_scripts f s [] = Some s"
| "run_scripts f s (m # ms) =
     (case f (Content m) s of None \<Rightarrow> None | Some s' \<Rightarrow> run_scripts f s' ms)"

subsection \<open>What a stretch of a run does to the server\<close>

text \<open>
  The calls of the provisioning: the query of the current database name, the opening and
  closing of connections, and the terminate, drop and create statements on the
  administrative connection (and warnings). No such call reads a file, touches a tracking
  table or begins a transaction. \<open>provisions n w w'\<close>: from \<open>w\<close> to \<open>w'\<close> only such
  calls were made and no database other than \<open>n\<close> has changed.
\<close>

fun is_provisioning :: "event \<Rightarrow> bool" where
  "is_provisioning (EvCurrentDatabase c) = True"
| "is_provisioning (EvOpen dsn) = True"
| "is_provisioning (EvClose c) = True"
| "is_provisioning (EvTerminate c dbName) = True"
| "is_provisioning (EvDropDatabase c dbName) = True"
| "is_provisioning (EvCreateDatabase c dbName) = True"
| "is_provisioning (EvWarning msg err) = True"
| "is_provisioning ev = False"

definition shadow_suffix :: string where
  "shadow_suffix = ''_gi_mig_shadow_db''"

definition provisions :: "string \<Rightarrow> 's world \<Rightarrow> 's world \<Rightarrow> bool" where
  "provisions n wa wb \<longleftrightarrow>
     (\<forall>p. p \<noteq> n \<longrightarrow> dbs wb p = dbs wa p) \<and>
     (\<exists>evs. trace wb = trace wa @ evs \<and> list_all is_provisioning evs)"

text \<open>
  \<open>quiet p w w'\<close>: from \<open>w\<close> to \<open>w'\<close> the database \<open>p\<close> is unchanged and no call
  of a transaction was made.
\<close>

fun is_apply :: "event \<Rightarrow> bool" where
  "is_apply (EvBegin c opts) = True"
| "is_apply (EvTxExec c content) = True"
| "is_apply (EvTxInsert c name) = True"
| "is_apply (EvCommit c) = True"
| "is_apply (EvRollback c) = True"
| "is_apply ev = False"

definition quiet :: "string \<Rightarrow> 's world \<Rightarrow> 's world \<Rightarrow> bool" where
  "quiet p w w' \<longleftrightarrow>
     dbs w' p = dbs w p \<and> (\<exists>evs. trace w' = trace w @ evs \<and> list_all (\<lambda>ev. \<not> is_apply ev) evs)"

text \<open>
  \<open>grows S p w w'\<close>: from \<open>w\<close> to \<open>w'\<close> the tracking table of database \<open>p\<close>, once
  there, stays, and its rows are the old rows followed by new names, which are among
  \<open>S\<close>, pairwise different and different from the old rows.
\<close>

definition grows :: "string set \<Rightarrow> string \<Rightarrow> 's world \<Rightarrow> 's world \<Rightarrow> bool" where
  "grows S p w w' \<longleftrightarrow>
     (table_of w p \<noteq> None \<longrightarrow> table_of w' p \<noteq> None) \<and>
     (\<exists>xs. tab w' p = tab w p @ xs \<and> distinct xs \<and> set xs \<subseteq> S \<and> set xs \<inter> set (tab w p) = {})"

text \<open>
  \<open>keeps p w w'\<close>: from \<open>w\<close> to \<open>w'\<close> database \<open>p\<close> has gained no applied name and its
  objects are the same; the tracking table may have been created, empty.
\<close>

definition keeps :: "string \<Rightarrow> 's world \<Rightarrow> 's world \<Rightarrow> bool" where
  "keeps p w w' \<longleftrightarrow>
     tab w' p = tab w p \<and> map_option objects (dbs w' p) = map_option objects (dbs w p)"

subsection \<open>The manager and the migrator\<close>

text \<open>
  The manager of production database \<open>p\<close>: once it has stored names, its shadow name
  is \<open>p\<close> with the suffix. The migrator built by NewWithOptions for \<open>p\<close>: its tracker
  and its validator's tracker are on \<open>p\<close>, and so is its manager, if it has one.
\<close>

definition mgr_inv :: "string \<Rightarrow> Manager \<Rightarrow> bool" where
  "mgr_inv p mgr \<longleftrightarrow>
     mainDB mgr = p \<and> (currentDBName mgr \<noteq> [] \<longrightarrow> shadowDBName mgr = p @ shadow_suffix)"

definition mig_inv :: "Migrator \<Rightarrow> bool" where
  "mig_inv mg \<longleftrightarrow>
     m_tracker mg = tracker_New (m_db mg) \<and>
     v_tracker (m_validator mg) = tracker_New (m_db mg) \<and>
     (case shadowManager mg of None \<Rightarrow> True | Some mgr \<Rightarrow> mgr_inv (m_db mg) mgr)"

text \<open>
  The connection string that connectToDatabase builds for database \<open>dbName\<close> out of the
  manager's connection string.
\<close>

definition shadow_dsn :: "Manager \<Rightarrow> string \<Rightarrow> string" where
  "shadow_dsn m dbName =
     Replace1 (databaseURL m) (''/'' @ extractDBNameFromDSN (databaseURL m)) (''/'' @ dbName)"

text \<open>The usual use: construct the migrator, then call Migrate on it.\<close>

definition migrate_with :: "conn \<Rightarrow> Options \<Rightarrow> 's world \<Rightarrow> error option \<times> Migrator \<times> 's world" where
  "migrate_with db opts w = (case NewWithOptions db opts w of (m, w1) \<Rightarrow> Migrate m w1)"

subsection \<open>Sample worlds\<close>

text \<open>
  A small concrete world for the examples: databases hold the list of scripts run on
  them, and a script fails when its text starts with \<^verbatim>\<open>bad\<close>. The server has the
  production database \<^verbatim>\<open>prod\<close> and the administrative database \<^verbatim>\<open>postgres\<close>, and the
  driver knows the connection strings of these two and of the shadow database.
\<close>

definition sample_sql :: "string \<Rightarrow> string list \<Rightarrow> string list option" where
  "sample_sql script s = (if HasPrefix script ''bad'' then None else Some (s @ [script]))"

definition empty_db :: "string list database" where
  "empty_db = \<lparr>migrations_table = None, objects = []\<rparr>"

definition tracked_db :: "string list \<Rightarrow> string list \<Rightarrow> string list database" where
  "tracked_db rows s = \<lparr>migrations_table = Some rows, objects = s\<rparr>"

definition sample_world :: "string list database \<Rightarrow> string list world" where
  "sample_world d0 =
     \<lparr>dbs = [''prod'' \<mapsto> d0, ''postgres'' \<mapsto> empty_db],
      template1 = empty_db,
      sql = sample_sql,
      driver = [''postgres://u:p@h/prod'' \<mapsto> ''prod'',
                ''postgres://u:p@h/postgres'' \<mapsto> ''postgres'',
                ''postgres://u:p@h/prod_gi_mig_shadow_db'' \<mapsto> ''prod_gi_mig_shadow_db''],
      dirs = Map.empty,
      files = (\<lambda>d. Map.empty),
      env = (\<lambda>k. []),
      faults = [],
      trace = []\<rparr>"

text \<open>A sample directory: two scripts and a file that is no script, listed out of order.\<close>

definition sample_fs :: "'s world \<Rightarrow> 's world" where
  "sample_fs w =
     w\<lparr>dirs := [''/m'' \<mapsto> [''002_b.sql'', ''README'', ''001_a.sql''], ''/empty'' \<mapsto> []],
       files := (\<lambda>d. if d = ''/m''
                      then [''001_a.sql'' \<mapsto> ''create a'', ''002_b.sql'' \<mapsto> ''create b'',
                            ''README'' \<mapsto> ''notes'']
                      else Map.empty)\<rparr>"

text \<open>A directory whose second script fails.\<close>

definition broken_fs :: "'s world \<Rightarrow> 's world" where
  "broken_fs w =
     w\<lparr>dirs := [''/m'' \<mapsto> [''001_a.sql'', ''002_b.sql'']],
       files := (\<lambda>d. if d = ''/m''
                      then [''001_a.sql'' \<mapsto> ''create a'', ''002_b.sql'' \<mapsto> ''bad sql'']
                      else Map.empty)\<rparr>"

text \<open>The same world with other failures to come, another driver, another environment.\<close>

definition with_faults :: "bool list \<Rightarrow> 's world \<Rightarrow> 's world" where
  "with_faults fs w = w\<lparr>faults := fs\<rparr>"

definition with_driver :: "(string \<Rightarrow> conn option) \<Rightarrow> 's world \<Rightarrow> 's world" where
  "with_driver drv w = w\<lparr>driver := drv\<rparr>"

definition with_env :: "string \<Rightarrow> string \<Rightarrow> 's world \<Rightarrow> 's world" where
  "with_env key val w = w\<lparr>env := (env w)(key := val)\<rparr>"

text \<open>Options, migration files, a migrator and a manager for the sample worlds.\<close>

definition sample_options :: "string \<Rightarrow> Options" where
  "sample_options url = \<lparr>MigrationsPath = ''/m'', DatabaseURL = url, SkipShadowDB = False\<rparr>"

definition sample_files :: "MigrationFile list" where
  "sample_files =
     [\<lparr>Name = ''001_a.sql'', Content = ''create a'', mf_tracker = tracker_New ''prod''\<rparr>,
      \<lparr>Name = ''002_b.sql'', Content = ''create b'', mf_tracker = tracker_New ''prod''\<rparr>]"

definition sample_migrator :: "string \<Rightarrow> Migrator" where
  "sample_migrator url =
     fst (NewWithOptions ''prod'' (sample_options url) (sample_world empty_db))"

definition sample_manager :: "string \<Rightarrow> Manager" where
  "sample_manager url =
     \<lparr>mainDB = ''prod'', currentDBName = [], shadowDBName = [], databaseURL = url\<rparr>"

text \<open>
  A driver that accepts every connection string, as \<^verbatim>\<open>sql.Open\<close> does, and migration files
  of which the second fails.
\<close>

definition total_driver :: "string \<Rightarrow> conn option" where
  "total_driver dsn =
     Some (if dsn = ''postgres://u:p@h/postgres'' then ''postgres''
           else if dsn = ''postgres://u:p@h/prod_gi_mig_shadow_db'' then ''prod_gi_mig_shadow_db''
           else ''prod'')"

definition broken_files :: "MigrationFile list" where
  "broken_files =
     [\<lparr>Name = ''001_a.sql'', Content = ''create a'', mf_tracker = tracker_New ''prod''\<rparr>,
      \<lparr>Name = ''002_b.sql'', Content = ''bad sql'', mf_tracker = tracker_New ''prod''\<rparr>]"

text \<open>Two runs of Migrate in succession on the sample directory, starting with an empty table.\<close>

definition sample_first_run :: "error option \<times> Migrator \<times> string list world" where
  "sample_first_run =
     migrate_with ''prod'' (sample_options ''postgres://u:p@h/prod'')
       (sample_fs (sample_world (tracked_db [] [])))"

definition sample_second_run :: "error option \<times> Migrator \<times> string list world" where
  "sample_second_run =
     (case sample_first_run of (r, m1, w1) \<Rightarrow> Migrate m1 (with_faults [] w1))"

section \<open>The calls: what they return and what they leave alone\<close>

lemma call_result:
  "call ev w = (b, w1) \<Longrightarrow>
     dbs w1 = dbs w \<and> sql w1 = sql w \<and> trace w1 = trace w @ [ev] \<and> template1 w1 = template1 w
     \<and> driver w1 = driver w \<and> dirs w1 = dirs w \<and> files w1 = files w \<and> env w1 = env w
     \<and> (faults w = [] \<longrightarrow> \<not> b \<and> faults w1 = [])"
  by (auto simp: call_def emit_def split: list.splits)

lemma db_BeginTx_result:
  assumes "db_BeginTx c opts w = (r, w1)"
  shows "dbs w1 = dbs w \<and> sql w1 = sql w \<and> trace w1 = trace w @ [EvBegin c opts] \<and>
         (case r of Inl e \<Rightarrow> True
          | Inr tx \<Rightarrow> tx_conn tx = c \<and> dbs w c = Some (tx_work tx) \<and> \<not> tx_done tx)"
  using assms
  by (auto simp: db_BeginTx_def split: prod.splits bool.splits option.splits dest!: call_result)

lemma tx_Exec_result:
  assumes "tx_Exec tx content w = (r, w1)"
  shows "dbs w1 = dbs w \<and> sql w1 = sql w \<and> trace w1 = trace w @ [EvTxExec (tx_conn tx) content] \<and>
         (case r of Inl e \<Rightarrow> True
          | Inr tx' \<Rightarrow> tx_conn tx' = tx_conn tx \<and> tx_done tx' = tx_done tx \<and>
              (\<exists>s. sql w content (objects (tx_work tx)) = Some s \<and>
                   tx_work tx' = (tx_work tx)\<lparr>objects := s\<rparr>))"
  using assms
  by (auto simp: tx_Exec_def split: prod.splits bool.splits option.splits dest!: call_result)

lemma insert_row_Inr:
  "insert_row name d = Inr d' \<Longrightarrow>
     \<exists>rows. migrations_table d = Some rows \<and> name \<notin> set rows \<and>
       d' = d\<lparr>migrations_table := Some (rows @ [name])\<rparr>"
  by (auto simp: insert_row_def split: option.splits if_splits)

lemma tx_Insert_result:
  assumes "tx_Insert tx name w = (r, w1)"
  shows "dbs w1 = dbs w \<and> sql w1 = sql w \<and> trace w1 = trace w @ [EvTxInsert (tx_conn tx) name] \<and>
         (case r of Inl e \<Rightarrow> True
          | Inr tx' \<Rightarrow> tx_conn tx' = tx_conn tx \<and> tx_done tx' = tx_done tx \<and>
              insert_row name (tx_work tx) = Inr (tx_work tx'))"
  using assms
  by (auto simp: tx_Insert_def split: prod.splits bool.splits sum.splits dest!: call_result)

lemma tx_Commit_result:
  assumes "tx_Commit tx w = (r, tx', w1)" and "\<not> tx_done tx"
  shows "sql w1 = sql w \<and> trace w1 = trace w @ [EvCommit (tx_conn tx)] \<and> tx_done tx' \<and>
         tx_conn tx' = tx_conn tx \<and>
         (case r of Some e \<Rightarrow> dbs w1 = dbs w
          | None \<Rightarrow> dbs w1 = (dbs w)(tx_conn tx \<mapsto> tx_work tx))"
  using assms
  by (auto simp: tx_Commit_def split: prod.splits bool.splits option.splits dest!: call_result)

lemma ApplyMigration_deferred_result:
  assumes "ApplyMigration_deferred shouldRollback tx name w = w1"
  shows "dbs w1 = dbs w \<and> sql w1 = sql w \<and>
         (\<exists>ws. list_all is_warning ws \<and>
            trace w1 = trace w @ (if shouldRollback \<and> \<not> tx_done tx then [EvRollback (tx_conn tx)] else []) @ ws)"
  using assms
  by (auto simp: ApplyMigration_deferred_def tx_Rollback_def emit_def
           split: prod.splits bool.splits option.splits if_splits dest!: call_result)

section \<open>ApplyMigration is atomic\<close>

text \<open>
  The three ways ApplyMigration gets past \<^verbatim>\<open>BeginTx\<close>, each with what the caller
  sees afterwards.
\<close>

lemma ApplyMigration_exec_fails:
  assumes run: "ApplyMigration t name content w = (r, w')"
    and b: "db_BeginTx (tracker_db t) read_committed w = (Inr tx, w1)"
    and e: "tx_Exec tx content w1 = (Inl err, w2)"
  shows "r = Some (Errorf ''failed to execute migration'' err) \<and> dbs w' = dbs w \<and>
         (\<exists>ws. list_all is_warning ws \<and>
            trace w' = trace w @ [EvBegin (tracker_db t) read_committed,
                                  EvTxExec (tracker_db t) content,
                                  EvRollback (tracker_db t)] @ ws)"
proof -
  from db_BeginTx_result[OF b] have tx: "tx_conn tx = tracker_db t" "\<not> tx_done tx"
    and w1: "dbs w1 = dbs w" "trace w1 = trace w @ [EvBegin (tracker_db t) read_committed]"
    by auto
  from tx_Exec_result[OF e] tx w1 have w2: "dbs w2 = dbs w"
    "trace w2 = trace w @ [EvBegin (tracker_db t) read_committed, EvTxExec (tracker_db t) content]"
    by auto
  from run b e have r: "r = Some (Errorf ''failed to execute migration'' err)"
    and w': "w' = ApplyMigration_deferred True tx name w2"
    by (auto simp: ApplyMigration_def ApplyMigration_body_def read_committed_def)
  from ApplyMigration_deferred_result[OF w'[symmetric]] tx w2 r show ?thesis by auto
qed

lemma ApplyMigration_insert_fails:
  assumes run: "ApplyMigration t name content w = (r, w')"
    and b: "db_BeginTx (tracker_db t) read_committed w = (Inr tx, w1)"
    and e: "tx_Exec tx content w1 = (Inr tx1, w2)"
    and i: "tx_Insert tx1 name w2 = (Inl err, w3)"
  shows "r = Some (Errorf ''failed to record migration'' err) \<and> dbs w' = dbs w \<and>
         (\<exists>ws. list_all is_warning ws \<and>
            trace w' = trace w @ [EvBegin (tracker_db t) read_committed,
                                  EvTxExec (tracker_db t) content,
                                  EvTxInsert (tracker_db t) name,
                                  EvRollback (tracker_db t)] @ ws)"
proof -
  from db_BeginTx_result[OF b] have tx: "tx_conn tx = tracker_db t" "\<not> tx_done tx"
    and w1: "dbs w1 = dbs w" "trace w1 = trace w @ [EvBegin (tracker_db t) read_committed]"
    by auto
  from tx_Exec_result[OF e] tx w1 have tx1: "tx_conn tx1 = tracker_db t" "\<not> tx_done tx1"
    and w2: "dbs w2 = dbs w"
    "trace w2 = trace w @ [EvBegin (tracker_db t) read_committed, EvTxExec (tracker_db t) content]"
    by auto
  from tx_Insert_result[OF i] tx1 w2 have w3: "dbs w3 = dbs w"
    "trace w3 = trace w @ [EvBegin (tracker_db t) read_committed, EvTxExec (tracker_db t) content,
                           EvTxInsert (tracker_db t) name]"
    by auto
  from run b e i have r: "r = Some (Errorf ''failed to record migration'' err)"
    and w': "w' = ApplyMigration_deferred True tx1 name w3"
    by (auto simp: ApplyMigration_def ApplyMigration_body_def read_committed_def)
  from ApplyMigration_deferred_result[OF w'[symmetric]] tx1 w3 r show ?thesis by auto
qed

lemma ApplyMigration_outcome:
  assumes run: "ApplyMigration t name content w = (r, w')"
  shows "(r = None \<and>
          (\<exists>d rows s. dbs w (tracker_db t) = Some d \<and> migrations_table d = Some rows \<and>
             name \<notin> set rows \<and> sql w content (objects d) = Some s \<and>
             dbs w' = (dbs w)(tracker_db t \<mapsto> d\<lparr>objects := s, migrations_table := Some (rows @ [name])\<rparr>)) \<and>
          trace w' = trace w @ [EvBegin (tracker_db t) read_committed,
                                EvTxExec (tracker_db t) content,
                                EvTxInsert (tracker_db t) name,
                                EvCommit (tracker_db t)])
       \<or> (\<exists>err. r = Some err \<and> dbs w' = dbs w)"
proof (cases "db_BeginTx (tracker_db t) read_committed w")
  case (Pair rb w1)
  note b = db_BeginTx_result[OF Pair]
  show ?thesis
  proof (cases rb)
    case (Inl err)
    with run Pair b show ?thesis
      by (auto simp: ApplyMigration_def read_committed_def)
  next
    case (Inr tx)
    with b have tx: "tx_conn tx = tracker_db t" "\<not> tx_done tx" "dbs w (tracker_db t) = Some (tx_work tx)"
      and w1: "dbs w1 = dbs w" "sql w1 = sql w" "trace w1 = trace w @ [EvBegin (tracker_db t) read_committed]"
      by auto
    obtain re w2 where e: "tx_Exec tx content w1 = (re, w2)" by (cases "tx_Exec tx content w1")
    show ?thesis
    proof (cases re)
      case (Inl err)
      with ApplyMigration_exec_fails[OF run] Pair Inr e show ?thesis by auto
    next
      case tx1: (Inr tx1)
      obtain ri w3 where i: "tx_Insert tx1 name w2 = (ri, w3)" by (cases "tx_Insert tx1 name w2")
      show ?thesis
      proof (cases ri)
        case (Inl err)
        with ApplyMigration_insert_fails[OF run] Pair Inr e tx1 i show ?thesis by auto
      next
        case tx2: (Inr tx2)
        from tx_Exec_result[OF e] tx1 tx w1 obtain s where
          tx1': "tx_conn tx1 = tracker_db t" "\<not> tx_done tx1"
            "sql w content (objects (tx_work tx)) = Some s" "tx_work tx1 = (tx_work tx)\<lparr>objects := s\<rparr>"
          and w2: "dbs w2 = dbs w"
            "trace w2 = trace w @ [EvBegin (tracker_db t) read_committed, EvTxExec (tracker_db t) content]"
          by auto
        from tx_Insert_result[OF i] tx2 tx1' w2 have
          tx2': "tx_conn tx2 = tracker_db t" "\<not> tx_done tx2"
            "insert_row name (tx_work tx1) = Inr (tx_work tx2)"
          and w3: "dbs w3 = dbs w"
            "trace w3 = trace w @ [EvBegin (tracker_db t) read_committed, EvTxExec (tracker_db t) content,
                                   EvTxInsert (tracker_db t) name]"
          by auto
        from insert_row_Inr[OF tx2'(3)] tx1' obtain rows where
          rows: "migrations_table (tx_work tx) = Some rows" "name \<notin> set rows"
            "tx_work tx2 = (tx_work tx)\<lparr>objects := s, migrations_table := Some (rows @ [name])\<rparr>"
          by auto
        obtain rc tx3 w4 where c: "tx_Commit tx2 w3 = (rc, tx3, w4)" by (cases "tx_Commit tx2 w3")
        note cr = tx_Commit_result[OF c tx2'(2)]
        show ?thesis
        proof (cases rc)
          case None
          with run Pair Inr e tx1 i tx2 c have "r = None" "w' = w4"
            by (auto simp: ApplyMigration_def ApplyMigration_body_def ApplyMigration_deferred_def
                  read_committed_def)
          with cr None tx tx1' tx2' w3 rows show ?thesis by auto
        next
          case (Some err)
          with run Pair Inr e tx1 i tx2 c have "r = Some (Errorf ''failed to commit migration'' err)"
            "w' = ApplyMigration_deferred True tx3 name w4"
            by (auto simp: ApplyMigration_def ApplyMigration_body_def read_committed_def)
          with cr Some w3 ApplyMigration_deferred_result[of True tx3 name w4 w'] show ?thesis by auto
        qed
      qed
    qed
  qed
qed

lemma ApplyMigration_begin_fails:
  assumes run: "ApplyMigration t name content w = (r, w')"
    and b: "db_BeginTx (tracker_db t) read_committed w = (Inl err, w1)"
  shows "r = Some (Errorf ''failed to begin transaction'' err) \<and> dbs w' = dbs w \<and>
         trace w' = trace w @ [EvBegin (tracker_db t) read_committed]"
  using run b db_BeginTx_result[OF b]
  by (auto simp: ApplyMigration_def read_committed_def)

lemma ApplyMigration_commits:
  assumes run: "ApplyMigration t name content w = (r, w')"
    and b: "db_BeginTx (tracker_db t) read_committed w = (Inr tx, w1)"
    and e: "tx_Exec tx content w1 = (Inr tx1, w2)"
    and i: "tx_Insert tx1 name w2 = (Inr tx2, w3)"
    and c: "tx_Commit tx2 w3 = (None, tx3, w4)"
  shows "r = None \<and> w' = w4"
  using run b e i c
  by (auto simp: ApplyMigration_def ApplyMigration_body_def ApplyMigration_deferred_def
        read_committed_def)

lemma ApplyMigration_commit_fails:
  assumes run: "ApplyMigration t name content w = (r, w')"
    and b: "db_BeginTx (tracker_db t) read_committed w = (Inr tx, w1)"
    and e: "tx_Exec tx content w1 = (Inr tx1, w2)"
    and i: "tx_Insert tx1 name w2 = (Inr tx2, w3)"
    and c: "tx_Commit tx2 w3 = (Some err, tx3, w4)"
  shows "r = Some (Errorf ''failed to commit migration'' err) \<and> dbs w' = dbs w \<and>
         (\<exists>ws. list_all is_warning ws \<and>
            trace w' = trace w @ [EvBegin (tracker_db t) read_committed,
                                  EvTxExec (tracker_db t) content,
                                  EvTxInsert (tracker_db t) name,
                                  EvCommit (tracker_db t)] @ ws)"
proof -
  from db_BeginTx_result[OF b] have tx: "tx_conn tx = tracker_db t" "\<not> tx_done tx"
    and w1: "dbs w1 = dbs w" "trace w1 = trace w @ [EvBegin (tracker_db t) read_committed]"
    by auto
  from tx_Exec_result[OF e] tx w1 have tx1: "tx_conn tx1 = tracker_db t" "\<not> tx_done tx1"
    and w2: "dbs w2 = dbs w"
    "trace w2 = trace w @ [EvBegin (tracker_db t) read_committed, EvTxExec (tracker_db t) content]"
    by auto
  from tx_Insert_result[OF i] tx1 w2 have tx2: "tx_conn tx2 = tracker_db t" "\<not> tx_done tx2"
    and w3: "dbs w3 = dbs w"
    "trace w3 = trace w @ [EvBegin (tracker_db t) read_committed, EvTxExec (tracker_db t) content,
                           EvTxInsert (tracker_db t) name]"
    by auto
  from tx_Commit_result[OF c tx2(2)] tx2 w3 have tx3: "tx_done tx3"
    and w4: "dbs w4 = dbs w"
    "trace w4 = trace w @ [EvBegin (tracker_db t) read_committed, EvTxExec (tracker_db t) content,
                           EvTxInsert (tracker_db t) name, EvCommit (tracker_db t)]"
    by auto
  from run b e i c have r: "r = Some (Errorf ''failed to commit migration'' err)"
    and w': "w' = ApplyMigration_deferred True tx3 name w4"
    by (auto simp: ApplyMigration_def ApplyMigration_body_def read_committed_def)
  from ApplyMigration_deferred_result[OF w'[symmetric]] tx3 w4 r show ?thesis by auto
qed

lemma ApplyMigration_succeeds:
  assumes nf: "faults w = []"
    and d: "dbs w (tracker_db t) = Some d" "migrations_table d = Some rows"
    and new: "name \<notin> set rows" and len: "length name \<le> 255"
    and ok: "sql w content (objects d) = Some s"
  shows "\<exists>w'. ApplyMigration t name content w = (None, w') \<and> faults w' = [] \<and> sql w' = sql w \<and>
           dbs w' = (dbs w)(tracker_db t \<mapsto>
                      d\<lparr>objects := s, migrations_table := Some (rows @ [name])\<rparr>)"
  using assms
  by (simp add: ApplyMigration_def ApplyMigration_body_def ApplyMigration_deferred_def
        db_BeginTx_def tx_Exec_def tx_Insert_def tx_Commit_def insert_row_def call_def emit_def)

text \<open>
  C1. ApplyMigration is atomic. It opens a read-committed transaction, executes the body,
  inserts the tracking row and commits: when the four calls succeed it returns no error
  and the world is the one the commit left, and they do succeed when no call fails for
  an outside reason, the database and its tracking table exist, the name is not yet
  recorded and fits the column, and the script runs on the database's objects. After the
  call exactly one of two states is observable: either the call returned no error, and
  the database is the old one with the script's effect and the new tracking row, or it
  returned an error and every database is as before. When the transaction cannot be
  begun, the error of \<^verbatim>\<open>BeginTx\<close> is returned wrapped and nothing else is called. When
  the script's execution fails, or the insert fails, the transaction is rolled back (the
  rollback follows the failed call, and nothing but warnings follows the rollback) and
  the error returned wraps the error of the failed call. When the commit fails, its error
  is returned wrapped and the database is as before.
\<close>

theorem ApplyMigration_atomic:
  assumes run: "ApplyMigration t name content w = (r, w')"
  shows
    "((r = None \<and>
        (\<exists>d rows s. dbs w (tracker_db t) = Some d \<and> migrations_table d = Some rows \<and>
           name \<notin> set rows \<and> sql w content (objects d) = Some s \<and>
           dbs w' = (dbs w)(tracker_db t \<mapsto>
                      d\<lparr>objects := s, migrations_table := Some (rows @ [name])\<rparr>)) \<and>
        trace w' = trace w @ [EvBegin (tracker_db t) read_committed,
                              EvTxExec (tracker_db t) content,
                              EvTxInsert (tracker_db t) name,
                              EvCommit (tracker_db t)])
      \<or> (\<exists>err. r = Some err \<and> dbs w' = dbs w))
     \<and> (\<forall>tx w1 err w2.
           db_BeginTx (tracker_db t) read_committed w = (Inr tx, w1) \<and>
           tx_Exec tx content w1 = (Inl err, w2) \<longrightarrow>
             r = Some (Errorf ''failed to execute migration'' err) \<and> dbs w' = dbs w \<and>
             (\<exists>ws. list_all is_warning ws \<and>
                trace w' = trace w @ [EvBegin (tracker_db t) read_committed,
                                      EvTxExec (tracker_db t) content,
                                      EvRollback (tracker_db t)] @ ws))
     \<and> (\<forall>tx w1 tx1 w2 err w3.
           db_BeginTx (tracker_db t) read_committed w = (Inr tx, w1) \<and>
           tx_Exec tx content w1 = (Inr tx1, w2) \<and>
           tx_Insert tx1 name w2 = (Inl err, w3) \<longrightarrow>
             r = Some (Errorf ''failed to record migration'' err) \<and> dbs w' = dbs w \<and>
             (\<exists>ws. list_all is_warning ws \<and>
                trace w' = trace w @ [EvBegin (tracker_db t) read_committed,
                                      EvTxExec (tracker_db t) content,
                                      EvTxInsert (tracker_db t) name,
                                      EvRollback (tracker_db t)] @ ws))
     \<and> (\<forall>tx w1 tx1 w2 tx2 w3 tx3 w4.
           db_BeginTx (tracker_db t) read_committed w = (Inr tx, w1) \<and>
           tx_Exec tx content w1 = (Inr tx1, w2) \<and>
           tx_Insert tx1 name w2 = (Inr tx2, w3) \<and>
           tx_Commit tx2 w3 = (None, tx3, w4) \<longrightarrow>
             r = None \<and> w' = w4)
     \<and> (\<forall>tx w1 tx1 w2 tx2 w3 err tx3 w4.
           db_BeginTx (tracker_db t) read_committed w = (Inr tx, w1) \<and>
           tx_Exec tx content w1 = (Inr tx1, w2) \<and>
           tx_Insert tx1 name w2 = (Inr tx2, w3) \<and>
           tx_Commit tx2 w3 = (Some err, tx3, w4) \<longrightarrow>
             r = Some (Errorf ''failed to commit migration'' err) \<and> dbs w' = dbs w \<and>
             (\<exists>ws. list_all is_warning ws \<and>
                trace w' = trace w @ [EvBegin (tracker_db t) read_committed,
                                      EvTxExec (tracker_db t) content,
                                      EvTxInsert (tracker_db t) name,
                                      EvCommit (tracker_db t)] @ ws))
     \<and> (\<forall>err w1.
           db_BeginTx (tracker_db t) read_committed w = (Inl err, w1) \<longrightarrow>
             r = Some (Errorf ''failed to begin transaction'' err) \<and> dbs w' = dbs w \<and>
             trace w' = trace w @ [EvBegin (tracker_db t) read_committed])
     \<and> (\<forall>d rows s.
           faults w = [] \<and> dbs w (tracker_db t) = Some d \<and> migrations_table d = Some rows \<and>
           name \<notin> set rows \<and> length name \<le> 255 \<and> sql w content (objects d) = Some s \<longrightarrow>
             r = None \<and>
             dbs w' = (dbs w)(tracker_db t \<mapsto>
                        d\<lparr>objects := s, migrations_table := Some (rows @ [name])\<rparr>))"
proof -
  note A = ApplyMigration_outcome[OF run]
  have B: "r = Some (Errorf ''failed to execute migration'' err) \<and> dbs w' = dbs w \<and>
             (\<exists>ws. list_all is_warning ws \<and>
                trace w' = trace w @ [EvBegin (tracker_db t) read_committed,
                                      EvTxExec (tracker_db t) content,
                                      EvRollback (tracker_db t)] @ ws)"
    if "db_BeginTx (tracker_db t) read_committed w = (Inr tx, w1) \<and>
        tx_Exec tx content w1 = (Inl err, w2)" for tx w1 err w2
    using that ApplyMigration_exec_fails[OF run] by blast
  have C: "r = Some (Errorf ''failed to record migration'' err) \<and> dbs w' = dbs w \<and>
             (\<exists>ws. list_all is_warning ws \<and>
                trace w' = trace w @ [EvBegin (tracker_db t) read_committed,
                                      EvTxExec (tracker_db t) content,
                                      EvTxInsert (tracker_db t) name,
                                      EvRollback (tracker_db t)] @ ws)"
    if "db_BeginTx (tracker_db t) read_committed w = (Inr tx, w1) \<and>
        tx_Exec tx content w1 = (Inr tx1, w2) \<and>
        tx_Insert tx1 name w2 = (Inl err, w3)" for tx w1 tx1 w2 err w3
    using that ApplyMigration_insert_fails[OF run] by blast
  have D: "r = None \<and> w' = w4"
    if "db_BeginTx (tracker_db t) read_committed w = (Inr tx, w1) \<and>
        tx_Exec tx content w1 = (Inr tx1, w2) \<and>
        tx_Insert tx1 name w2 = (Inr tx2, w3) \<and>
        tx_Commit tx2 w3 = (None, tx3, w4)" for tx w1 tx1 w2 tx2 w3 tx3 w4
    using that ApplyMigration_commits[OF run] by blast
  have E: "r = Some (Errorf ''failed to commit migration'' err) \<and> dbs w' = dbs w \<and>
             (\<exists>ws. list_all is_warning ws \<and>
                trace w' = trace w @ [EvBegin (tracker_db t) read_committed,
                                      EvTxExec (tracker_db t) content,
                                      EvTxInsert (tracker_db t) name,
                                      EvCommit (tracker_db t)] @ ws)"
    if "db_BeginTx (tracker_db t) read_committed w = (Inr tx, w1) \<and>
        tx_Exec tx content w1 = (Inr tx1, w2) \<and>
        tx_Insert tx1 name w2 = (Inr tx2, w3) \<and>
        tx_Commit tx2 w3 = (Some err, tx3, w4)" for tx w1 tx1 w2 tx2 w3 err tx3 w4
    using that ApplyMigration_commit_fails[OF run] by blast
  have F: "r = Some (Errorf ''failed to begin transaction'' err) \<and> dbs w' = dbs w \<and>
             trace w' = trace w @ [EvBegin (tracker_db t) read_committed]"
    if "db_BeginTx (tracker_db t) read_committed w = (Inl err, w1)" for err w1
    using that ApplyMigration_begin_fails[OF run] by blast
  have G: "r = None \<and>
           dbs w' = (dbs w)(tracker_db t \<mapsto>
                      d\<lparr>objects := s, migrations_table := Some (rows @ [name])\<rparr>)"
    if "faults w = [] \<and> dbs w (tracker_db t) = Some d \<and> migrations_table d = Some rows \<and>
        name \<notin> set rows \<and> length name \<le> 255 \<and> sql w content (objects d) = Some s"
    for d rows s
  proof -
    from that ApplyMigration_succeeds[of w t d rows name content s] obtain w'' where
      "ApplyMigration t name content w = (None, w'')"
      "dbs w'' = (dbs w)(tracker_db t \<mapsto>
                      d\<lparr>objects := s, migrations_table := Some (rows @ [name])\<rparr>)"
      by blast
    with run show ?thesis by simp
  qed
  show ?thesis
    apply (intro conjI allI impI)
    subgoal by (rule A)
    subgoal by (rule B[THEN conjunct1])
    subgoal by (rule B[THEN conjunct2, THEN conjunct1])
    subgoal by (rule B[THEN conjunct2, THEN conjunct2])
    subgoal by (rule C[THEN conjunct1])
    subgoal by (rule C[THEN conjunct2, THEN conjunct1])
    subgoal by (rule C[THEN conjunct2, THEN conjunct2])
    subgoal by (rule D[THEN conjunct1])
    subgoal by (rule D[THEN conjunct2])
    subgoal by (rule E[THEN conjunct1])
    subgoal by (rule E[THEN conjunct2, THEN conjunct1])
    subgoal by (rule E[THEN conjunct2, THEN conjunct2])
    subgoal by (rule F[THEN conjunct1])
    subgoal by (rule F[THEN conjunct2, THEN conjunct1])
    subgoal by (rule F[THEN conjunct2, THEN conjunct2])
    subgoal by (rule G[THEN conjunct1])
    subgoal by (rule G[THEN conjunct2])
    done
qed

lemmas sample_eval =
  sample_world_def tracked_db_def empty_db_def sample_sql_def HasPrefix_def read_committed_def
  tracker_New_def call_def emit_def db_BeginTx_def tx_Exec_def tx_Insert_def insert_row_def
  tx_Commit_def tx_Rollback_def ApplyMigration_def ApplyMigration_body_def
  ApplyMigration_deferred_def

theorem ApplyMigration_atomic_witness:
  "fst (ApplyMigration (tracker_New ''prod'') ''002_b.sql'' ''bad sql''
          (sample_world (tracked_db [''001_a.sql''] [''create a''])))
     = Some (Errorf ''failed to execute migration'' (Driver ScriptFailed))
   \<and> dbs (snd (ApplyMigration (tracker_New ''prod'') ''002_b.sql'' ''bad sql''
          (sample_world (tracked_db [''001_a.sql''] [''create a'']))))
     = dbs (sample_world (tracked_db [''001_a.sql''] [''create a'']))
   \<and> fst (ApplyMigration (tracker_New ''prod'') ''001_a.sql'' ''create a''
          (sample_world (tracked_db [''001_a.sql''] [''create a''])))
     = Some (Errorf ''failed to record migration'' (Driver UniqueViolation))
   \<and> dbs (snd (ApplyMigration (tracker_New ''prod'') ''001_a.sql'' ''create a''
          (sample_world (tracked_db [''001_a.sql''] [''create a'']))))
     = dbs (sample_world (tracked_db [''001_a.sql''] [''create a'']))
   \<and> fst (ApplyMigration (tracker_New ''prod'') ''002_b.sql'' ''create b''
          (sample_world (tracked_db [''001_a.sql''] [''create a''])))
     = None
   \<and> fst (ApplyMigration (tracker_New ''prod'') ''003_create_users_table.sql'' ''create users''
          (sample_world (tracked_db [''001_a.sql''] [''create a''])))
     = None
   \<and> dbs (snd (ApplyMigration (tracker_New ''prod'') ''003_create_users_table.sql''
          ''create users'' (sample_world (tracked_db [''001_a.sql''] [''create a''])))) ''prod''
     = Some (tracked_db [''001_a.sql'', ''003_create_users_table.sql'']
               [''create a'', ''create users''])"
proof -
  let ?t = "tracker_New ''prod''"
  let ?w = "sample_world (tracked_db [''001_a.sql''] [''create a''])"
  let ?b = "db_BeginTx (tracker_db ?t) read_committed ?w"
  have b: "?b = (Inr \<lparr>tx_conn = ''prod'', tx_work = tracked_db [''001_a.sql''] [''create a''],
                      tx_done = False\<rparr>, snd ?b)"
    by (simp add: sample_eval)
  let ?tx = "\<lparr>tx_conn = ''prod'', tx_work = tracked_db [''001_a.sql''] [''create a''],
              tx_done = False\<rparr>"
  have e1: "tx_Exec ?tx ''bad sql'' (snd ?b) = (Inl (Driver ScriptFailed), snd (tx_Exec ?tx ''bad sql'' (snd ?b)))"
    by (simp add: sample_eval)
  let ?tx1 = "\<lparr>tx_conn = ''prod'', tx_work = tracked_db [''001_a.sql''] [''create a'', ''create a''],
               tx_done = False\<rparr>"
  have e2: "tx_Exec ?tx ''create a'' (snd ?b) = (Inr ?tx1, snd (tx_Exec ?tx ''create a'' (snd ?b)))"
    by (simp add: sample_eval)
  have i2: "tx_Insert ?tx1 ''001_a.sql'' (snd (tx_Exec ?tx ''create a'' (snd ?b)))
              = (Inl (Driver UniqueViolation),
                 snd (tx_Insert ?tx1 ''001_a.sql'' (snd (tx_Exec ?tx ''create a'' (snd ?b)))))"
    by (simp add: sample_eval)
  have run: "\<And>n c. ApplyMigration ?t n c ?w
                 = (fst (ApplyMigration ?t n c ?w), snd (ApplyMigration ?t n c ?w))"
    by simp
  note TA = ApplyMigration_atomic[OF run[of "''002_b.sql''" "''bad sql''"],
      THEN conjunct2, THEN conjunct1, rule_format, OF conjI[OF b e1]]
  from TA have A: "fst (ApplyMigration ?t ''002_b.sql'' ''bad sql'' ?w)
             = Some (Errorf ''failed to execute migration'' (Driver ScriptFailed))
           \<and> dbs (snd (ApplyMigration ?t ''002_b.sql'' ''bad sql'' ?w)) = dbs ?w"
    by simp
  note TB = ApplyMigration_atomic[OF run[of "''001_a.sql''" "''create a''"],
      THEN conjunct2, THEN conjunct2, THEN conjunct1, rule_format,
      OF conjI[OF b conjI[OF e2 i2]]]
  from TB have B: "fst (ApplyMigration ?t ''001_a.sql'' ''create a'' ?w)
             = Some (Errorf ''failed to record migration'' (Driver UniqueViolation))
           \<and> dbs (snd (ApplyMigration ?t ''001_a.sql'' ''create a'' ?w)) = dbs ?w"
    by simp
  have C: "fst (ApplyMigration ?t ''002_b.sql'' ''create b'' ?w) = None"
    by (simp add: sample_eval)
  let ?d = "tracked_db [''001_a.sql''] [''create a'']"
  have pre: "faults ?w = [] \<and> dbs ?w (tracker_db ?t) = Some ?d \<and>
             migrations_table ?d = Some [''001_a.sql''] \<and>
             ''003_create_users_table.sql'' \<notin> set [''001_a.sql''] \<and>
             length ''003_create_users_table.sql'' \<le> 255 \<and>
             sql ?w ''create users'' (objects ?d) = Some [''create a'', ''create users'']"
    by (simp add: sample_world_def tracked_db_def tracker_New_def sample_sql_def HasPrefix_def)
  note T = ApplyMigration_atomic[OF run[of "''003_create_users_table.sql''" "''create users''"],
      THEN conjunct2, THEN conjunct2, THEN conjunct2, THEN conjunct2, THEN conjunct2,
      THEN conjunct2, rule_format, OF pre]
  from T have D: "fst (ApplyMigration ?t ''003_create_users_table.sql'' ''create users'' ?w) = None
      \<and> dbs (snd (ApplyMigration ?t ''003_create_users_table.sql'' ''create users'' ?w)) ''prod''
          = Some (tracked_db [''001_a.sql'', ''003_create_users_table.sql'']
                    [''create a'', ''create users''])"
    by (simp add: tracked_db_def tracker_New_def)
  from A B C D show ?thesis by blast
qed

section \<open>The shadow tester with nothing to test\<close>

text \<open>
  C10. With an empty list of new migrations TestNewMigrations returns success at once:
  the manager and the whole world are returned as they were given, so the current
  database name is not queried and no shadow database is created, connected to or
  dropped (the trace, the databases and the fault list are those of the world given).
\<close>

theorem TestNewMigrations_empty:
  "TestNewMigrations m mainTracker [] w = (None, m, w)"
  by (simp add: TestNewMigrations_def)

section \<open>The loader\<close>

lemma os_ReadDir_result:
  assumes "os_ReadDir path w = (r, w1)"
  shows "dbs w1 = dbs w \<and> files w1 = files w \<and> dirs w1 = dirs w \<and>
         trace w1 = trace w @ [EvReadDir path] \<and>
         (case r of Inl e \<Rightarrow> True
          | Inr entries \<Rightarrow> \<exists>names. dirs w path = Some names \<and> entries = sort names)"
  using assms
  by (auto simp: os_ReadDir_def split: prod.splits bool.splits option.splits dest!: call_result)

lemma os_ReadDir_ok:
  assumes "\<not> next_fault w" and "dirs w path = Some names"
  shows "fst (os_ReadDir path w) = Inr (sort names)"
  using assms
  by (auto simp: os_ReadDir_def next_fault_def call_def emit_def split: list.splits)

lemma createMigrationFile_result:
  assumes "createMigrationFile v file w = (r, w1)"
  shows "dbs w1 = dbs w \<and> files w1 = files w \<and> dirs w1 = dirs w \<and>
         (case r of Inl e \<Rightarrow> True
          | Inr mf \<Rightarrow> \<exists>content. files w (v_migrationsPath v) file = Some content \<and>
               mf = \<lparr>Name = file, Content = content, mf_tracker = v_tracker v\<rparr>)"
  using assms
  by (auto simp: createMigrationFile_def os_ReadFile_def
           split: prod.splits bool.splits option.splits sum.splits dest!: call_result)

lemma load_entries_result:
  "load_entries v entries acc w = (Inr ms, w') \<Longrightarrow>
     ms = acc @ map (load v w) (filter is_sql entries) \<and> files w' = files w \<and> dbs w' = dbs w \<and>
     (\<forall>file\<in>set entries. is_sql file \<longrightarrow> files w (v_migrationsPath v) file \<noteq> None)"
proof (induction entries arbitrary: acc w)
  case Nil
  then show ?case by simp
next
  case (Cons entry rest)
  show ?case
  proof (cases "is_sql entry")
    case False
    with Cons show ?thesis by (simp add: is_sql_def)
  next
    case True
    obtain r w1 where c: "createMigrationFile v entry w = (r, w1)"
      by (cases "createMigrationFile v entry w")
    with Cons.prems True obtain mf where r: "r = Inr mf"
      and rest: "load_entries v rest (acc @ [mf]) w1 = (Inr ms, w')"
      by (cases r) (auto simp: is_sql_def)
    from createMigrationFile_result[OF c] r have mf: "mf = load v w entry"
      and w1: "files w1 = files w" "dbs w1 = dbs w"
      and readable: "files w (v_migrationsPath v) entry \<noteq> None"
      by (auto simp: load_def)
    from Cons.IH[OF rest] w1 have "ms = (acc @ [mf]) @ map (load v w) (filter is_sql rest)"
      "files w' = files w" "dbs w' = dbs w"
      "\<forall>file\<in>set rest. is_sql file \<longrightarrow> files w (v_migrationsPath v) file \<noteq> None"
      by (auto simp: load_def)
    with mf True readable show ?thesis by simp
  qed
qed

lemma load_entries_ok:
  "faults w = [] \<Longrightarrow> \<forall>file\<in>set entries. is_sql file \<longrightarrow> files w (v_migrationsPath v) file \<noteq> None
     \<Longrightarrow> \<exists>ms. fst (load_entries v entries acc w) = Inr ms"
proof (induction entries arbitrary: acc w)
  case Nil
  then show ?case by simp
next
  case (Cons entry rest)
  show ?case
  proof (cases "is_sql entry")
    case False
    with Cons show ?thesis by (simp add: is_sql_def)
  next
    case True
    with Cons.prems obtain content where f: "files w (v_migrationsPath v) entry = Some content"
      by auto
    let ?w1 = "emit (EvReadFile (v_migrationsPath v) entry) w"
    from f Cons.prems(1) have c: "createMigrationFile v entry w =
        (Inr \<lparr>Name = entry, Content = content, mf_tracker = v_tracker v\<rparr>, ?w1)"
      by (simp add: createMigrationFile_def os_ReadFile_def call_def emit_def)
    have "faults ?w1 = []" "files ?w1 = files w"
      using Cons.prems(1) by (simp_all add: emit_def)
    with Cons.IH[of ?w1] Cons.prems(2) c True show ?thesis
      by (simp add: is_sql_def)
  qed
qed

text \<open>The loader's reading of the files does not look at the directory listing.\<close>

lemma emit_dirs: "emit ev (w\<lparr>dirs := d\<rparr>) = (emit ev w)\<lparr>dirs := d\<rparr>"
  by (simp add: emit_def)

lemma call_dirs:
  "call ev (w\<lparr>dirs := d\<rparr>) = (fst (call ev w), (snd (call ev w))\<lparr>dirs := d\<rparr>)"
  by (simp add: call_def emit_def split: list.splits)

lemma createMigrationFile_dirs:
  "createMigrationFile v file (w\<lparr>dirs := d\<rparr>) =
     (fst (createMigrationFile v file w), (snd (createMigrationFile v file w))\<lparr>dirs := d\<rparr>)"
proof -
  have "files (snd (call ev w)) = files w" for ev
    by (simp add: call_def emit_def split: list.splits)
  then show ?thesis
    by (simp add: createMigrationFile_def os_ReadFile_def call_dirs
          split: prod.splits bool.splits option.splits)
qed

lemma load_entries_dirs:
  "load_entries v entries acc (w\<lparr>dirs := d\<rparr>) =
     (fst (load_entries v entries acc w), (snd (load_entries v entries acc w))\<lparr>dirs := d\<rparr>)"
proof (induction entries arbitrary: acc w)
  case Nil
  then show ?case by simp
next
  case (Cons entry rest)
  show ?case
    by (cases "createMigrationFile v entry w")
       (auto simp: createMigrationFile_dirs Cons.IH split: sum.splits)
qed

lemma sort_cong_mset: "mset xs = mset ys \<Longrightarrow> sort xs = sort (ys :: string list)"
  by (rule properties_for_sort) simp_all

lemma GetMigrationFiles_listing_order:
  assumes d: "dirs w (v_migrationsPath v) = Some names" and m: "mset names' = mset names"
  shows "fst (GetMigrationFiles v (w\<lparr>dirs := (dirs w)(v_migrationsPath v \<mapsto> names')\<rparr>))
           = fst (GetMigrationFiles v w)"
proof -
  let ?d = "(dirs w)(v_migrationsPath v \<mapsto> names')"
  obtain b w1 where c: "call (EvReadDir (v_migrationsPath v)) w = (b, w1)"
    by (cases "call (EvReadDir (v_migrationsPath v)) w")
  from call_result[OF c] have "dirs w1 = dirs w" by simp
  with c d sort_cong_mset[OF m]
  have "os_ReadDir (v_migrationsPath v) (w\<lparr>dirs := ?d\<rparr>) =
      (fst (os_ReadDir (v_migrationsPath v) w), (snd (os_ReadDir (v_migrationsPath v) w))\<lparr>dirs := ?d\<rparr>)"
    by (cases b) (simp_all add: os_ReadDir_def call_dirs)
  then show ?thesis
    by (simp add: GetMigrationFiles_def load_entries_dirs split: prod.splits sum.splits)
qed

text \<open>
  C5. When GetMigrationFiles returns a list, the list holds one record for each entry of
  the directory whose name ends in \<^verbatim>\<open>.sql\<close> and for no other entry, each with the
  entry's name and the literal content of the file, in ascending (bytewise lexicographic)
  order of the names. The result does not depend on the order in which the file system
  lists the directory. It does return a list when the directory can be listed and each
  of these files can be read (no call fails); in particular the result for an empty
  directory is the empty list and not an error.
\<close>

theorem GetMigrationFiles_sorted_sql_entries:
  assumes d: "dirs w (v_migrationsPath v) = Some names"
  shows
    "(\<forall>ms w'. GetMigrationFiles v w = (Inr ms, w') \<longrightarrow>
        ms = map (load v w) (sort (filter is_sql names)) \<and>
        (\<forall>file\<in>set names. is_sql file \<longrightarrow> files w (v_migrationsPath v) file \<noteq> None) \<and>
        sorted (map Name ms))
     \<and> (\<forall>names'. mset names' = mset names \<longrightarrow>
          fst (GetMigrationFiles v (w\<lparr>dirs := (dirs w)(v_migrationsPath v \<mapsto> names')\<rparr>))
            = fst (GetMigrationFiles v w))
     \<and> (faults w = [] \<and>
          (\<forall>file\<in>set names. is_sql file \<longrightarrow> files w (v_migrationsPath v) file \<noteq> None) \<longrightarrow>
          fst (GetMigrationFiles v w) = Inr (map (load v w) (sort (filter is_sql names))))
     \<and> (names = [] \<and> \<not> next_fault w \<longrightarrow> fst (GetMigrationFiles v w) = Inr [])"
proof -
  have name_load: "map Name (map (load v w) xs) = xs" for xs
    by (induction xs) (simp_all add: load_def)
  have returned: "ms = map (load v w) (sort (filter is_sql names)) \<and>
        (\<forall>file\<in>set names. is_sql file \<longrightarrow> files w (v_migrationsPath v) file \<noteq> None) \<and>
        sorted (map Name ms)"
    if run: "GetMigrationFiles v w = (Inr ms, w')" for ms w'
  proof -
    obtain r w1 where rd: "os_ReadDir (v_migrationsPath v) w = (r, w1)"
      by (cases "os_ReadDir (v_migrationsPath v) w")
    with run obtain entries where r: "r = Inr entries"
      and l: "load_entries v entries [] w1 = (Inr ms, w')"
      by (cases r) (auto simp: GetMigrationFiles_def)
    from os_ReadDir_result[OF rd] r d have entries: "entries = sort names"
      and w1: "files w1 = files w"
      by auto
    from w1 have "load v w1 = load v w" by (simp add: load_def fun_eq_iff)
    with load_entries_result[OF l] entries w1
    have ms: "ms = map (load v w) (sort (filter is_sql names))"
      and rdbl: "\<forall>file\<in>set names. is_sql file \<longrightarrow> files w (v_migrationsPath v) file \<noteq> None"
      by (simp_all add: filter_sort)
    from ms have "map Name ms = sort (filter is_sql names)" by (simp only: name_load)
    then have "sorted (map Name ms)" by simp
    with ms rdbl show ?thesis by blast
  qed
  have total: "fst (GetMigrationFiles v w) = Inr (map (load v w) (sort (filter is_sql names)))"
    if nf: "faults w = []"
      and rdbl: "\<forall>file\<in>set names. is_sql file \<longrightarrow> files w (v_migrationsPath v) file \<noteq> None"
  proof -
    let ?w1 = "emit (EvReadDir (v_migrationsPath v)) w"
    from nf d have rd: "os_ReadDir (v_migrationsPath v) w = (Inr (sort names), ?w1)"
      by (simp add: os_ReadDir_def call_def emit_def)
    from nf have "faults ?w1 = []" "files ?w1 = files w" by (simp_all add: emit_def)
    with rdbl load_entries_ok[of ?w1 "sort names" v "[]"]
    obtain ms where "fst (load_entries v (sort names) [] ?w1) = Inr ms" by auto
    with rd have "GetMigrationFiles v w = (Inr ms, snd (GetMigrationFiles v w))"
      by (cases "load_entries v (sort names) [] ?w1") (simp add: GetMigrationFiles_def)
    with returned show ?thesis by (metis fst_conv)
  qed
  have empty: "fst (GetMigrationFiles v w) = Inr []" if "names = []" and "\<not> next_fault w"
    using that d os_ReadDir_ok[of w "v_migrationsPath v" names]
    by (cases "os_ReadDir (v_migrationsPath v) w") (simp add: GetMigrationFiles_def)
  from returned total empty GetMigrationFiles_listing_order[OF d] show ?thesis by blast
qed

theorem GetMigrationFiles_sorted_sql_entries_witness:
  "fst (GetMigrationFiles (validator_New (tracker_New ''prod'') ''/m'')
          (sample_fs (sample_world empty_db)))
     = Inr [\<lparr>Name = ''001_a.sql'', Content = ''create a'', mf_tracker = tracker_New ''prod''\<rparr>,
            \<lparr>Name = ''002_b.sql'', Content = ''create b'', mf_tracker = tracker_New ''prod''\<rparr>]
   \<and> fst (GetMigrationFiles (validator_New (tracker_New ''prod'') ''/m'')
          ((sample_fs (sample_world empty_db))
             \<lparr>dirs := (dirs (sample_fs (sample_world empty_db)))
                        (''/m'' \<mapsto> [''README'', ''001_a.sql'', ''002_b.sql''])\<rparr>))
     = fst (GetMigrationFiles (validator_New (tracker_New ''prod'') ''/m'')
          (sample_fs (sample_world empty_db)))
   \<and> fst (GetMigrationFiles (validator_New (tracker_New ''prod'') ''/empty'')
          (sample_fs (sample_world empty_db)))
     = Inr []"
proof -
  let ?w = "sample_fs (sample_world empty_db)"
  let ?v = "validator_New (tracker_New ''prod'') ''/m''"
  let ?e = "validator_New (tracker_New ''prod'') ''/empty''"
  let ?names = "[''002_b.sql'', ''README'', ''001_a.sql'']"
  have d: "dirs ?w (v_migrationsPath ?v) = Some ?names"
    by (simp add: sample_fs_def validator_New_def)
  have nf: "faults ?w = []" "\<not> next_fault ?w"
    by (simp_all add: sample_fs_def sample_world_def next_fault_def)
  have rdbl: "\<forall>file\<in>set ?names. is_sql file \<longrightarrow> files ?w (v_migrationsPath ?v) file \<noteq> None"
    by (simp add: sample_fs_def validator_New_def)
  have p: "mset [''README'', ''001_a.sql'', ''002_b.sql''] = mset ?names"
    by simp
  have l: "map (load ?v ?w) (sort (filter is_sql ?names))
      = [\<lparr>Name = ''001_a.sql'', Content = ''create a'', mf_tracker = tracker_New ''prod''\<rparr>,
         \<lparr>Name = ''002_b.sql'', Content = ''create b'', mf_tracker = tracker_New ''prod''\<rparr>]"
    by (simp add: is_sql_def HasSuffix_def load_def sample_fs_def validator_New_def)
  have de: "dirs ?w (v_migrationsPath ?e) = Some []"
    by (simp add: sample_fs_def validator_New_def)
  have vp: "v_migrationsPath ?v = ''/m''"
    by (simp add: validator_New_def)
  from GetMigrationFiles_sorted_sql_entries[OF d] nf rdbl
  have A: "fst (GetMigrationFiles ?v ?w) = Inr (map (load ?v ?w) (sort (filter is_sql ?names)))"
    by blast
  from GetMigrationFiles_sorted_sql_entries[OF d] p
  have B: "fst (GetMigrationFiles ?v
                  (?w\<lparr>dirs := (dirs ?w)(v_migrationsPath ?v \<mapsto> [''README'', ''001_a.sql'', ''002_b.sql''])\<rparr>))
             = fst (GetMigrationFiles ?v ?w)"
    by blast
  from GetMigrationFiles_sorted_sql_entries[OF de] nf
  have C: "fst (GetMigrationFiles ?e ?w) = Inr []"
    by blast
  from A B C l vp show ?thesis by simp
qed

section \<open>What no function of the program changes\<close>

lemma call_no_fault: "faults w = [] \<Longrightarrow> call ev w = (False, emit ev w)"
  by (simp add: call_def)

lemma emit_fields [simp]:
  "dbs (emit ev w) = dbs w" "sql (emit ev w) = sql w" "driver (emit ev w) = driver w"
  "dirs (emit ev w) = dirs w" "files (emit ev w) = files w" "env (emit ev w) = env w"
  "template1 (emit ev w) = template1 w" "faults (emit ev w) = faults w"
  "trace (emit ev w) = trace w @ [ev]"
  by (simp_all add: emit_def)

lemma same_params_refl [simp]: "same_params w w"
  by (simp add: same_params_def)

lemma same_params_trans: "same_params w w1 \<Longrightarrow> same_params w1 w2 \<Longrightarrow> same_params w w2"
  by (simp add: same_params_def)

lemma same_params_emit [simp]: "same_params w (emit ev w1) = same_params w w1"
  by (simp add: same_params_def)

lemma same_params_dbs [simp]: "same_params w (w1\<lparr>dbs := d\<rparr>) = same_params w w1"
  by (simp add: same_params_def)

lemma call_params: "call ev w = (b, w1) \<Longrightarrow> same_params w w1"
  by (auto simp: call_def same_params_def split: list.splits)

lemma db_CurrentDatabase_params: "db_CurrentDatabase c w = (r, w1) \<Longrightarrow> same_params w w1"
  by (auto simp: db_CurrentDatabase_def split: prod.splits bool.splits option.splits
        dest!: call_params)

lemma db_CreateTable_params: "db_CreateTable c w = (r, w1) \<Longrightarrow> same_params w w1"
  by (auto simp: db_CreateTable_def split: prod.splits bool.splits option.splits
        dest!: call_params)

lemma db_Count_params: "db_Count c name w = (r, w1) \<Longrightarrow> same_params w w1"
  by (auto simp: db_Count_def split: prod.splits bool.splits option.splits dest!: call_params)

lemma db_Insert_params: "db_Insert c name w = (r, w1) \<Longrightarrow> same_params w w1"
  by (auto simp: db_Insert_def split: prod.splits bool.splits option.splits sum.splits
        dest!: call_params)

lemma db_SelectNames_params: "db_SelectNames c w = (r, w1) \<Longrightarrow> same_params w w1"
  by (auto simp: db_SelectNames_def split: prod.splits bool.splits option.splits
        dest!: call_params)

lemma rows_Scan_params: "rows_Scan c w = (r, w1) \<Longrightarrow> same_params w w1"
  by (auto simp: rows_Scan_def split: prod.splits bool.splits dest!: call_params)

lemma rows_Err_params: "rows_Err c w = (r, w1) \<Longrightarrow> same_params w w1"
  by (auto simp: rows_Err_def split: prod.splits bool.splits dest!: call_params)

lemma db_BeginTx_params: "db_BeginTx c opts w = (r, w1) \<Longrightarrow> same_params w w1"
  by (auto simp: db_BeginTx_def split: prod.splits bool.splits option.splits dest!: call_params)

lemma tx_Exec_params: "tx_Exec tx content w = (r, w1) \<Longrightarrow> same_params w w1"
  by (auto simp: tx_Exec_def split: prod.splits bool.splits option.splits dest!: call_params)

lemma tx_Insert_params: "tx_Insert tx name w = (r, w1) \<Longrightarrow> same_params w w1"
  by (auto simp: tx_Insert_def split: prod.splits bool.splits sum.splits dest!: call_params)

lemma tx_Commit_params: "tx_Commit tx w = (r, tx', w1) \<Longrightarrow> same_params w w1"
  by (auto simp: tx_Commit_def split: prod.splits bool.splits option.splits if_splits
        dest!: call_params)

lemma tx_Rollback_params: "tx_Rollback tx w = (r, w1) \<Longrightarrow> same_params w w1"
  by (auto simp: tx_Rollback_def split: prod.splits bool.splits if_splits dest!: call_params)

lemma os_ReadDir_params: "os_ReadDir path w = (r, w1) \<Longrightarrow> same_params w w1"
  by (auto simp: os_ReadDir_def split: prod.splits bool.splits option.splits dest!: call_params)

lemma os_ReadFile_params: "os_ReadFile dir name w = (r, w1) \<Longrightarrow> same_params w w1"
  by (auto simp: os_ReadFile_def split: prod.splits bool.splits option.splits dest!: call_params)

lemma os_Getenv_params: "os_Getenv key w = (r, w1) \<Longrightarrow> same_params w w1"
  by (auto simp: os_Getenv_def)

lemma sql_Open_params: "sql_Open dsn w = (r, w1) \<Longrightarrow> same_params w w1"
  by (auto simp: sql_Open_def split: option.splits)

lemma db_Close_params [simp]: "same_params w (db_Close c w1) = same_params w w1"
  by (simp add: db_Close_def)

lemma db_Terminate_params: "db_Terminate c name w = (r, w1) \<Longrightarrow> same_params w w1"
  by (auto simp: db_Terminate_def split: prod.splits bool.splits option.splits dest!: call_params)

lemma db_DropDatabase_params: "db_DropDatabase c name w = (r, w1) \<Longrightarrow> same_params w w1"
  by (auto simp: db_DropDatabase_def split: prod.splits bool.splits option.splits if_splits
        dest!: call_params)

lemma db_CreateDatabase_params: "db_CreateDatabase c name w = (r, w1) \<Longrightarrow> same_params w w1"
  by (auto simp: db_CreateDatabase_def split: prod.splits bool.splits option.splits
        dest!: call_params)

lemma db_DatabaseExists_params: "db_DatabaseExists c name w = (r, w1) \<Longrightarrow> same_params w w1"
  by (auto simp: db_DatabaseExists_def split: prod.splits bool.splits option.splits
        dest!: call_params)

lemmas prim_params =
  db_CurrentDatabase_params db_CreateTable_params db_Count_params db_Insert_params
  db_SelectNames_params rows_Scan_params rows_Err_params db_BeginTx_params tx_Exec_params
  tx_Insert_params tx_Commit_params tx_Rollback_params os_ReadDir_params os_ReadFile_params
  os_Getenv_params sql_Open_params db_Terminate_params db_DropDatabase_params
  db_CreateDatabase_params db_DatabaseExists_params

lemma EnsureMigrationsTable_params: "EnsureMigrationsTable t w = (r, w1) \<Longrightarrow> same_params w w1"
  by (auto simp: EnsureMigrationsTable_def split: prod.splits sum.splits dest: prim_params)

lemma IsApplied_params: "IsApplied t name w = (r, w1) \<Longrightarrow> same_params w w1"
  by (auto simp: IsApplied_def split: prod.splits sum.splits dest: prim_params)

lemma scan_rows_params: "scan_rows c rows acc w = (r, w1) \<Longrightarrow> same_params w w1"
  by (induction rows arbitrary: acc w)
     (auto simp: same_params_def split: prod.splits sum.splits dest!: prim_params)

lemma GetAppliedMigrations_params: "GetAppliedMigrations t w = (r, w1) \<Longrightarrow> same_params w w1"
  by (auto simp: GetAppliedMigrations_def same_params_def split: prod.splits sum.splits
        dest!: prim_params scan_rows_params)

lemma ApplyMigration_params: "ApplyMigration t name content w = (r, w1) \<Longrightarrow> same_params w w1"
  by (auto simp: ApplyMigration_def ApplyMigration_body_def ApplyMigration_deferred_def
        same_params_def
        split: prod.splits sum.splits option.splits if_splits
        dest!: prim_params)

lemma ValidateExistingMigrations_params:
  "ValidateExistingMigrations v w = (r, w1) \<Longrightarrow> same_params w w1"
  by (auto simp: ValidateExistingMigrations_def Let_def same_params_def
        split: prod.splits sum.splits if_splits
        dest!: prim_params GetAppliedMigrations_params)

lemma createMigrationFile_params:
  "createMigrationFile v file w = (r, w1) \<Longrightarrow> same_params w w1"
  by (auto simp: createMigrationFile_def split: prod.splits sum.splits dest!: prim_params)

lemma load_entries_params:
  "load_entries v entries acc w = (r, w1) \<Longrightarrow> same_params w w1"
  by (induction entries arbitrary: acc w)
     (auto simp: same_params_def split: prod.splits sum.splits if_splits
        dest!: createMigrationFile_params)

lemma GetMigrationFiles_params: "GetMigrationFiles v w = (r, w1) \<Longrightarrow> same_params w w1"
  by (auto simp: GetMigrationFiles_def same_params_def split: prod.splits sum.splits
        dest!: prim_params load_entries_params)

lemma find_new_params: "find_new ms acc w = (r, w1) \<Longrightarrow> same_params w w1"
  by (induction ms arbitrary: acc w)
     (auto simp: same_params_def MigrationFile_IsApplied_def
        split: prod.splits sum.splits if_splits dest!: IsApplied_params)

lemma FindNewMigrations_params: "FindNewMigrations ms w = (r, w1) \<Longrightarrow> same_params w w1"
  by (auto simp: FindNewMigrations_def dest: find_new_params)

lemma dropDatabaseIfExists_params:
  "dropDatabaseIfExists c name w = (r, w1) \<Longrightarrow> same_params w w1"
  by (auto simp: dropDatabaseIfExists_def Let_def same_params_def
        split: prod.splits sum.splits dest!: prim_params)

lemma createDatabase_params: "createDatabase c name w = (r, w1) \<Longrightarrow> same_params w w1"
  by (auto simp: createDatabase_def split: prod.splits sum.splits dest!: prim_params)

lemma connectToPostgresDatabase_params:
  "connectToPostgresDatabase m w = (r, w1) \<Longrightarrow> same_params w w1"
  by (auto simp: connectToPostgresDatabase_def Let_def dest!: prim_params)

lemma connectToDatabase_params:
  "connectToDatabase m name w = (r, w1) \<Longrightarrow> same_params w w1"
  by (auto simp: connectToDatabase_def Let_def dest!: prim_params)

lemma setupShadowDatabase_params: "setupShadowDatabase m w = (r, w1) \<Longrightarrow> same_params w w1"
  by (auto simp: setupShadowDatabase_def same_params_def db_Close_def
        split: prod.splits sum.splits option.splits
        dest!: connectToPostgresDatabase_params connectToDatabase_params
          dropDatabaseIfExists_params createDatabase_params)

lemma cleanup_params: "same_params w (cleanup m shadowDB postgresDB w)"
  by (auto simp: cleanup_def same_params_def db_Close_def
        split: prod.splits option.splits dest!: dropDatabaseIfExists_params)

lemma replay_applied_params:
  "replay_applied t path names w = (r, w1) \<Longrightarrow> same_params w w1"
  by (induction names arbitrary: w)
     (auto simp: same_params_def split: prod.splits sum.splits option.splits
        dest!: prim_params ApplyMigration_params)

lemma applyExistingMigrationsToShadow_params:
  "applyExistingMigrationsToShadow m t t' w = (r, w1) \<Longrightarrow> same_params w w1"
  by (auto simp: applyExistingMigrationsToShadow_def same_params_def
        split: prod.splits sum.splits
        dest!: prim_params GetAppliedMigrations_params replay_applied_params)

lemma test_each_params: "test_each t ms w = (r, w1) \<Longrightarrow> same_params w w1"
  by (induction ms arbitrary: w)
     (auto simp: same_params_def split: prod.splits option.splits dest!: ApplyMigration_params)

lemma TestNewMigrations_body_params:
  "TestNewMigrations_body m t c ms w = (r, w1) \<Longrightarrow> same_params w w1"
  by (auto simp: TestNewMigrations_body_def testMigrationsOnShadow_def same_params_def
        split: prod.splits option.splits
        dest!: EnsureMigrationsTable_params applyExistingMigrationsToShadow_params
          test_each_params)

lemma cleanup_fields [simp]:
  "sql (cleanup m shadowDB postgresDB w) = sql w"
  "driver (cleanup m shadowDB postgresDB w) = driver w"
  "dirs (cleanup m shadowDB postgresDB w) = dirs w"
  "files (cleanup m shadowDB postgresDB w) = files w"
  "env (cleanup m shadowDB postgresDB w) = env w"
  "template1 (cleanup m shadowDB postgresDB w) = template1 w"
  using cleanup_params[of w m shadowDB postgresDB] by (simp_all add: same_params_def)

lemma TestNewMigrations_params:
  "TestNewMigrations m t ms w = (r, m', w1) \<Longrightarrow> same_params w w1"
  by (auto simp: TestNewMigrations_def getCurrentDatabaseName_def same_params_def
        split: prod.splits sum.splits if_splits
        dest!: prim_params setupShadowDatabase_params TestNewMigrations_body_params)

lemma EnsureCleanup_named_params: "EnsureCleanup_named m w = (r, w1) \<Longrightarrow> same_params w w1"
  by (auto simp: EnsureCleanup_named_def same_params_def db_Close_def
        split: prod.splits sum.splits option.splits if_splits
        dest!: prim_params connectToPostgresDatabase_params dropDatabaseIfExists_params)

lemma EnsureCleanup_params: "EnsureCleanup m w = (r, m', w1) \<Longrightarrow> same_params w w1"
  by (auto simp: EnsureCleanup_def getCurrentDatabaseName_def same_params_def
        split: prod.splits sum.splits if_splits
        dest!: prim_params EnsureCleanup_named_params)

lemma NewWithOptions_params: "NewWithOptions db opts w = (m, w1) \<Longrightarrow> same_params w w1"
  by (auto simp: NewWithOptions_def os_Getenv_def split: prod.splits if_splits)

lemma apply_each_params: "apply_each m ms n w = (r, w1) \<Longrightarrow> same_params w w1"
  by (induction ms arbitrary: n w)
     (auto simp: same_params_def MigrationFile_IsApplied_def applyMigrationWithTimeout_def
        MigrationFile_Apply_def
        split: prod.splits sum.splits option.splits if_splits
        dest!: IsApplied_params ApplyMigration_params)

lemma applyPendingMigrations_params:
  "applyPendingMigrations m ms w = (r, w1) \<Longrightarrow> same_params w w1"
  by (auto simp: applyPendingMigrations_def split: prod.splits sum.splits
        dest!: apply_each_params)

lemma Migrate_lazy_manager_params:
  "Migrate_lazy_manager m w = (r, m', w1) \<Longrightarrow> same_params w w1"
  by (auto simp: Migrate_lazy_manager_def os_Getenv_def
        split: prod.splits sum.splits if_splits)

lemma Migrate_shadow_params: "Migrate_shadow m ms w = (r, m', w1) \<Longrightarrow> same_params w w1"
  by (auto simp: Migrate_shadow_def same_params_def
        split: prod.splits option.splits if_splits
        dest!: Migrate_lazy_manager_params TestNewMigrations_params)

lemma Migrate_cleanup_params: "Migrate_cleanup m w = (m', w1) \<Longrightarrow> same_params w w1"
  by (auto simp: Migrate_cleanup_def same_params_def
        split: prod.splits option.splits dest!: EnsureCleanup_params)

lemma Migrate_params: "Migrate m w = (r, m', w1) \<Longrightarrow> same_params w w1"
  by (auto simp: Migrate_def same_params_def
        split: prod.splits option.splits sum.splits
        dest!: EnsureMigrationsTable_params ValidateExistingMigrations_params
          GetMigrationFiles_params FindNewMigrations_params Migrate_shadow_params
          applyPendingMigrations_params Migrate_cleanup_params)

section \<open>Reading the applied names\<close>

lemma scan_rows_result:
  "scan_rows c rows acc w = (r, w1) \<Longrightarrow>
     dbs w1 = dbs w \<and> dirs w1 = dirs w \<and> files w1 = files w \<and>
     (\<exists>evs. trace w1 = trace w @ evs \<and> set evs \<subseteq> {EvScan c}) \<and>
     (case r of Inl e \<Rightarrow> True | Inr ms \<Rightarrow> ms = acc @ rows)"
proof (induction rows arbitrary: acc w)
  case Nil
  then show ?case by auto
next
  case (Cons row rest)
  obtain b w2 where c: "call (EvScan c) w = (b, w2)" by (cases "call (EvScan c) w")
  note cr = call_result[OF c]
  show ?case
  proof (cases b)
    case True
    with Cons.prems c cr show ?thesis by (auto simp: rows_Scan_def)
  next
    case False
    with Cons.prems c have "scan_rows c rest (acc @ [row]) w2 = (r, w1)"
      by (simp add: rows_Scan_def)
    from Cons.IH[OF this] cr show ?thesis by (auto split: sum.splits)
  qed
qed

lemma scan_rows_no_fault:
  "faults w = [] \<Longrightarrow> \<exists>w1. scan_rows c rows acc w = (Inr (acc @ rows), w1) \<and> faults w1 = []"
proof (induction rows arbitrary: acc w)
  case Nil
  then show ?case by simp
next
  case (Cons row rest)
  from Cons.prems have "faults (emit (EvScan c) w) = []" by simp
  from Cons.IH[OF this, of "acc @ [row]"] Cons.prems show ?case
    by (auto simp: rows_Scan_def call_no_fault)
qed

lemma db_SelectNames_result:
  assumes "db_SelectNames c w = (r, w1)"
  shows "dbs w1 = dbs w \<and> dirs w1 = dirs w \<and> files w1 = files w \<and>
         trace w1 = trace w @ [EvSelectNames c] \<and>
         (case r of Inl e \<Rightarrow> True
          | Inr rows \<Rightarrow> \<exists>d. dbs w c = Some d \<and> migrations_table d = Some rows)"
  using assms
  by (auto simp: db_SelectNames_def split: prod.splits bool.splits option.splits
        dest!: call_result)

lemma rows_Err_result:
  assumes "rows_Err c w = (r, w1)"
  shows "dbs w1 = dbs w \<and> dirs w1 = dirs w \<and> files w1 = files w \<and>
         trace w1 = trace w @ [EvRowsErr c]"
  using assms
  by (auto simp: rows_Err_def split: prod.splits bool.splits dest!: call_result)

lemma GetAppliedMigrations_result:
  assumes "GetAppliedMigrations t w = (r, w1)"
  shows "dbs w1 = dbs w \<and> dirs w1 = dirs w \<and> files w1 = files w \<and>
     (\<exists>evs. trace w1 = trace w @ evs \<and>
        set evs \<subseteq> {EvSelectNames (tracker_db t), EvScan (tracker_db t), EvRowsErr (tracker_db t)}) \<and>
     (case r of Inl e \<Rightarrow> True
      | Inr applied \<Rightarrow> \<exists>d. dbs w (tracker_db t) = Some d \<and> migrations_table d = Some applied)"
proof -
  let ?c = "tracker_db t"
  obtain rq w2 where q: "db_SelectNames ?c w = (rq, w2)" by (cases "db_SelectNames ?c w")
  note qr = db_SelectNames_result[OF q]
  show ?thesis
  proof (cases rq)
    case (Inl e)
    with assms q qr show ?thesis by (auto simp: GetAppliedMigrations_def)
  next
    case (Inr rows)
    obtain rs w3 where s: "scan_rows ?c rows [] w2 = (rs, w3)" by (cases "scan_rows ?c rows [] w2")
    note sr = scan_rows_result[OF s]
    show ?thesis
    proof (cases rs)
      case (Inl e)
      with assms q qr Inr s sr show ?thesis
        by (auto simp: GetAppliedMigrations_def)
    next
      case ms: (Inr ms)
      obtain re w4 where e: "rows_Err ?c w3 = (re, w4)" by (cases "rows_Err ?c w3")
      from assms q qr Inr s sr ms e rows_Err_result[OF e] show ?thesis
        by (cases re) (auto simp: GetAppliedMigrations_def)
    qed
  qed
qed

lemma GetAppliedMigrations_no_fault:
  assumes "faults w = []" "dbs w (tracker_db t) = Some d" "migrations_table d = Some rows"
  shows "\<exists>w1. GetAppliedMigrations t w = (Inr rows, w1) \<and> faults w1 = []"
proof -
  from assms(1) have "faults (emit (EvSelectNames (tracker_db t)) w) = []" by simp
  from scan_rows_no_fault[OF this, of "tracker_db t" rows "[]"] assms show ?thesis
    by (auto simp: GetAppliedMigrations_def db_SelectNames_def rows_Err_def call_no_fault)
qed

section \<open>The consistency validator\<close>

lemma ValidateExistingMigrations_result:
  assumes "ValidateExistingMigrations v w = (r, w1)"
  shows "dbs w1 = dbs w \<and> dirs w1 = dirs w \<and> files w1 = files w \<and>
     (\<exists>evs. trace w1 = trace w @ evs \<and>
        set evs \<subseteq> {EvSelectNames (tracker_db (v_tracker v)), EvScan (tracker_db (v_tracker v)),
                    EvRowsErr (tracker_db (v_tracker v)), EvReadDir (v_migrationsPath v)})"
proof -
  obtain ra w2 where a: "GetAppliedMigrations (v_tracker v) w = (ra, w2)"
    by (cases "GetAppliedMigrations (v_tracker v) w")
  note ar = GetAppliedMigrations_result[OF a]
  show ?thesis
  proof (cases ra)
    case (Inl e)
    with assms a ar show ?thesis by (auto simp: ValidateExistingMigrations_def)
  next
    case (Inr applied)
    obtain rd w3 where d: "os_ReadDir (v_migrationsPath v) w2 = (rd, w3)"
      by (cases "os_ReadDir (v_migrationsPath v) w2")
    from os_ReadDir_result[OF d] ar
    have "dbs w3 = dbs w \<and> dirs w3 = dirs w \<and> files w3 = files w \<and>
     (\<exists>evs. trace w3 = trace w @ evs \<and>
        set evs \<subseteq> {EvSelectNames (tracker_db (v_tracker v)), EvScan (tracker_db (v_tracker v)),
                    EvRowsErr (tracker_db (v_tracker v)), EvReadDir (v_migrationsPath v)})"
      by auto
    moreover from assms a Inr d have "w1 = w3"
      by (cases rd) (auto simp: ValidateExistingMigrations_def Let_def split: if_splits)
    ultimately show ?thesis by simp
  qed
qed

lemma ValidateExistingMigrations_missing:
  assumes d: "dbs w (tracker_db (v_tracker v)) = Some d" "migrations_table d = Some rows"
    and n: "dirs w (v_migrationsPath v) = Some names"
    and m: "missing_from names rows \<noteq> []"
  shows "fst (ValidateExistingMigrations v w) \<noteq> None"
    and "faults w = [] \<Longrightarrow> fst (ValidateExistingMigrations v w)
           = Some (MissingFromFilesystem (length (missing_from names rows)) (missing_from names rows))"
proof -
  have filt: "filter (\<lambda>a. a \<notin> set (filter (\<lambda>file. HasSuffix file ''.sql'') (sort names))) rows
                = missing_from names rows"
    by (auto simp: missing_from_def is_sql_def intro: filter_cong)
  obtain ra w2 where a: "GetAppliedMigrations (v_tracker v) w = (ra, w2)"
    by (cases "GetAppliedMigrations (v_tracker v) w")
  note ar = GetAppliedMigrations_result[OF a]
  show "fst (ValidateExistingMigrations v w) \<noteq> None"
  proof (cases ra)
    case (Inl e)
    with a show ?thesis by (simp add: ValidateExistingMigrations_def)
  next
    case (Inr applied)
    with ar d have applied: "applied = rows" and w2: "dirs w2 = dirs w" by auto
    obtain rd w3 where rd: "os_ReadDir (v_migrationsPath v) w2 = (rd, w3)"
      by (cases "os_ReadDir (v_migrationsPath v) w2")
    show ?thesis
    proof (cases rd)
      case (Inl e)
      with a Inr rd show ?thesis by (simp add: ValidateExistingMigrations_def)
    next
      case entries: (Inr entries)
      with os_ReadDir_result[OF rd] w2 n have "entries = sort names" by auto
      with a Inr rd entries applied filt m show ?thesis
        by (simp add: ValidateExistingMigrations_def Let_def)
    qed
  qed
  show "fst (ValidateExistingMigrations v w)
           = Some (MissingFromFilesystem (length (missing_from names rows)) (missing_from names rows))"
    if nf: "faults w = []"
  proof -
    from GetAppliedMigrations_no_fault[OF nf d] obtain w2 where
      a: "GetAppliedMigrations (v_tracker v) w = (Inr rows, w2)" and nf2: "faults w2 = []"
      by auto
    from GetAppliedMigrations_result[OF a] n have "dirs w2 (v_migrationsPath v) = Some names"
      by simp
    with nf2 have "os_ReadDir (v_migrationsPath v) w2
        = (Inr (sort names), emit (EvReadDir (v_migrationsPath v)) w2)"
      by (simp add: os_ReadDir_def call_no_fault)
    with a filt m show ?thesis
      by (simp add: ValidateExistingMigrations_def Let_def)
  qed
qed

lemma EnsureMigrationsTable_result:
  assumes "EnsureMigrationsTable t w = (r, w1)"
  shows "dirs w1 = dirs w \<and> files w1 = files w \<and>
         trace w1 = trace w @ [EvCreateTable (tracker_db t)] \<and>
         (\<forall>p. p \<noteq> tracker_db t \<longrightarrow> dbs w1 p = dbs w p) \<and>
         (case dbs w (tracker_db t) of
            None \<Rightarrow> dbs w1 = dbs w \<and> r \<noteq> None
          | Some d \<Rightarrow>
              (case migrations_table d of
                 Some rows \<Rightarrow> dbs w1 = dbs w
               | None \<Rightarrow> dbs w1 = dbs w \<and> r \<noteq> None \<or>
                   dbs w1 = (dbs w)(tracker_db t \<mapsto> d\<lparr>migrations_table := Some []\<rparr>) \<and> r = None)) \<and>
         (faults w = [] \<and> dbs w (tracker_db t) \<noteq> None \<longrightarrow> r = None \<and> faults w1 = [])"
  using assms
  by (auto simp: EnsureMigrationsTable_def db_CreateTable_def call_no_fault
        split: prod.splits bool.splits option.splits dest!: call_result)

text \<open>
  C3. Take a state in which the tracking table holds a name with no \<^verbatim>\<open>.sql\<close> entry
  of that name in the migrations directory. Then ValidateExistingMigrations fails
  whatever else happens; when no call fails, its error lists the applied names that
  have no such entry, all of them and no other, in the order they were applied. Migrate
  then returns an error without going past the validation: no database is changed, and
  its only calls are the creation of the tracking table, the reading of the applied names
  and the listing of the directory (no file is read, no shadow database is set up, no
  transaction is begun); when no call fails, its error is the validation's, wrapped.
\<close>

theorem missing_file_aborts:
  assumes d: "dbs w (tracker_db (v_tracker v)) = Some d" "migrations_table d = Some rows"
    and n: "dirs w (v_migrationsPath v) = Some names"
    and m: "\<exists>a\<in>set rows. \<not> (is_sql a \<and> a \<in> set names)"
  shows
    "fst (ValidateExistingMigrations v w) \<noteq> None
     \<and> (faults w = [] \<longrightarrow>
          fst (ValidateExistingMigrations v w)
            = Some (MissingFromFilesystem (length (missing_from names rows)) (missing_from names rows)))
     \<and> (\<forall>a. a \<in> set (missing_from names rows) \<longleftrightarrow> a \<in> set rows \<and> \<not> (is_sql a \<and> a \<in> set names))
     \<and> (\<forall>mg. m_validator mg = v \<and> m_tracker mg = v_tracker v \<longrightarrow>
          (case Migrate mg w of
             (r, mg', w') \<Rightarrow>
               r \<noteq> None \<and> mg' = mg \<and> dbs w' = dbs w \<and>
               (\<exists>evs. trace w' = trace w @ evs \<and>
                  set evs \<subseteq> {EvCreateTable (tracker_db (v_tracker v)),
                              EvSelectNames (tracker_db (v_tracker v)),
                              EvScan (tracker_db (v_tracker v)),
                              EvRowsErr (tracker_db (v_tracker v)),
                              EvReadDir (v_migrationsPath v)}) \<and>
               (faults w = [] \<longrightarrow>
                  r = Some (Errorf ''migration validation failed''
                        (MissingFromFilesystem (length (missing_from names rows))
                           (missing_from names rows))))))"
proof -
  from m have ne: "missing_from names rows \<noteq> []"
    by (auto simp: missing_from_def filter_empty_conv)
  note V = ValidateExistingMigrations_missing[OF d n ne]
  have iff: "\<forall>a. a \<in> set (missing_from names rows) \<longleftrightarrow> a \<in> set rows \<and> \<not> (is_sql a \<and> a \<in> set names)"
    by (auto simp: missing_from_def)
  have mig: "case Migrate mg w of
             (r, mg', w') \<Rightarrow>
               r \<noteq> None \<and> mg' = mg \<and> dbs w' = dbs w \<and>
               (\<exists>evs. trace w' = trace w @ evs \<and>
                  set evs \<subseteq> {EvCreateTable (tracker_db (v_tracker v)),
                              EvSelectNames (tracker_db (v_tracker v)),
                              EvScan (tracker_db (v_tracker v)),
                              EvRowsErr (tracker_db (v_tracker v)),
                              EvReadDir (v_migrationsPath v)}) \<and>
               (faults w = [] \<longrightarrow>
                  r = Some (Errorf ''migration validation failed''
                        (MissingFromFilesystem (length (missing_from names rows))
                           (missing_from names rows))))"
    if mg: "m_validator mg = v" "m_tracker mg = v_tracker v" for mg
  proof -
    obtain r1 w1 where e: "EnsureMigrationsTable (v_tracker v) w = (r1, w1)"
      by (cases "EnsureMigrationsTable (v_tracker v) w")
    from EnsureMigrationsTable_result[OF e] d
    have w1: "dbs w1 = dbs w" "dirs w1 = dirs w"
        "trace w1 = trace w @ [EvCreateTable (tracker_db (v_tracker v))]"
      and nf1: "faults w = [] \<Longrightarrow> r1 = None \<and> faults w1 = []"
      by auto
    show ?thesis
    proof (cases r1)
      case (Some err)
      with e mg w1 nf1 show ?thesis by (auto simp: Migrate_def)
    next
      case None
      obtain r2 w2 where val: "ValidateExistingMigrations v w1 = (r2, w2)"
        by (cases "ValidateExistingMigrations v w1")
      from w1 d n have d1: "dbs w1 (tracker_db (v_tracker v)) = Some d"
        and n1: "dirs w1 (v_migrationsPath v) = Some names"
        by simp_all
      from ValidateExistingMigrations_missing[OF d1 d(2) n1 ne] val nf1
      obtain err where r2: "r2 = Some err"
        and exact: "faults w = [] \<Longrightarrow> err = MissingFromFilesystem (length (missing_from names rows))
                           (missing_from names rows)"
        by (cases r2) auto
      from ValidateExistingMigrations_result[OF val] w1
      have "dbs w2 = dbs w"
        "\<exists>evs. trace w2 = trace w @ evs \<and>
                  set evs \<subseteq> {EvCreateTable (tracker_db (v_tracker v)),
                              EvSelectNames (tracker_db (v_tracker v)),
                              EvScan (tracker_db (v_tracker v)),
                              EvRowsErr (tracker_db (v_tracker v)),
                              EvReadDir (v_migrationsPath v)}"
        by auto
      with e None val r2 mg exact show ?thesis by (simp add: Migrate_def)
    qed
  qed
  from V iff mig show ?thesis by simp
qed

theorem missing_file_aborts_witness:
  "fst (ValidateExistingMigrations (validator_New (tracker_New ''prod'') ''/m'')
          (sample_fs (sample_world (tracked_db [''000_gone.sql'', ''001_a.sql''] []))))
     = Some (MissingFromFilesystem 1 [''000_gone.sql''])
   \<and> fst (Migrate (fst (NewWithOptions ''prod'' (sample_options ''postgres://u:p@h/prod'')
                          (sample_fs (sample_world (tracked_db [''000_gone.sql'', ''001_a.sql''] [])))))
          (sample_fs (sample_world (tracked_db [''000_gone.sql'', ''001_a.sql''] []))))
     = Some (Errorf ''migration validation failed'' (MissingFromFilesystem 1 [''000_gone.sql'']))
   \<and> dbs (snd (snd (Migrate (fst (NewWithOptions ''prod'' (sample_options ''postgres://u:p@h/prod'')
                          (sample_fs (sample_world (tracked_db [''000_gone.sql'', ''001_a.sql''] [])))))
          (sample_fs (sample_world (tracked_db [''000_gone.sql'', ''001_a.sql''] []))))))
     = dbs (sample_fs (sample_world (tracked_db [''000_gone.sql'', ''001_a.sql''] [])))"
proof -
  let ?rows = "[''000_gone.sql'', ''001_a.sql'']"
  let ?names = "[''002_b.sql'', ''README'', ''001_a.sql'']"
  let ?w = "sample_fs (sample_world (tracked_db ?rows []))"
  let ?v = "validator_New (tracker_New ''prod'') ''/m''"
  let ?mg = "fst (NewWithOptions ''prod'' (sample_options ''postgres://u:p@h/prod'') ?w)"
  have d: "dbs ?w (tracker_db (v_tracker ?v)) = Some (tracked_db ?rows [])"
    "migrations_table (tracked_db ?rows []) = Some ?rows"
    by (simp_all add: sample_fs_def sample_world_def validator_New_def tracker_New_def tracked_db_def)
  have n: "dirs ?w (v_migrationsPath ?v) = Some ?names"
    by (simp add: sample_fs_def validator_New_def)
  have m: "\<exists>a\<in>set ?rows. \<not> (is_sql a \<and> a \<in> set ?names)"
    by simp
  have nf: "faults ?w = []"
    by (simp add: sample_fs_def sample_world_def)
  have mf: "missing_from ?names ?rows = [''000_gone.sql'']"
    by (simp add: missing_from_def is_sql_def HasSuffix_def)
  have mg: "m_validator ?mg = ?v \<and> m_tracker ?mg = v_tracker ?v"
    by (simp add: NewWithOptions_def sample_options_def validator_New_def)
  from missing_file_aborts[OF d n m] nf mf
  have A: "fst (ValidateExistingMigrations ?v ?w) = Some (MissingFromFilesystem 1 [''000_gone.sql''])"
    by simp
  note M = missing_file_aborts[OF d n m, THEN conjunct2, THEN conjunct2, THEN conjunct2,
      rule_format, OF mg]
  obtain r mg' w' where run: "Migrate ?mg ?w = (r, mg', w')"
    by (cases "Migrate ?mg ?w")
  from M nf have "dbs w' = dbs ?w"
    "r = Some (Errorf ''migration validation failed''
            (MissingFromFilesystem (length (missing_from ?names ?rows)) (missing_from ?names ?rows)))"
    unfolding run by simp_all
  with mf run have B: "fst (Migrate ?mg ?w)
        = Some (Errorf ''migration validation failed'' (MissingFromFilesystem 1 [''000_gone.sql'']))"
    and C: "dbs (snd (snd (Migrate ?mg ?w))) = dbs ?w"
    by simp_all
  from A B C show ?thesis by simp
qed

section \<open>Applying the pending migrations\<close>

lemma IsApplied_result:
  assumes "IsApplied t name w = (r, w1)"
  shows "dbs w1 = dbs w \<and> trace w1 = trace w @ [EvCount (tracker_db t) name] \<and>
         (case r of Inl e \<Rightarrow> True
          | Inr b \<Rightarrow> \<exists>rows. table_of w (tracker_db t) = Some rows \<and> b = (name \<in> set rows))"
proof -
  have "0 < length (filter (\<lambda>r. r = name) rows) \<longleftrightarrow> name \<in> set rows" for rows
    by (induction rows) auto
  with assms show ?thesis
    by (auto simp: IsApplied_def db_Count_def table_of_def
          split: prod.splits bool.splits option.splits sum.splits dest!: call_result)
qed

lemma IsApplied_no_fault:
  assumes "faults w = []" and "table_of w (tracker_db t) = Some rows"
  shows "\<exists>w1. IsApplied t name w = (Inr (name \<in> set rows), w1) \<and> faults w1 = [] \<and>
           table_of w1 (tracker_db t) = Some rows"
proof -
  have "0 < length (filter (\<lambda>r. r = name) rows) \<longleftrightarrow> name \<in> set rows"
    by (induction rows) auto
  with assms show ?thesis
    by (auto simp: IsApplied_def db_Count_def call_no_fault table_of_def split: option.splits)
qed

lemma ApplyMigration_events:
  assumes run: "ApplyMigration t name content w = (r, w')"
  shows "\<exists>evs. trace w' = trace w @ evs \<and>
           (\<forall>ev\<in>set evs. ev \<in> {EvBegin (tracker_db t) read_committed,
                                  EvTxExec (tracker_db t) content,
                                  EvTxInsert (tracker_db t) name,
                                  EvCommit (tracker_db t),
                                  EvRollback (tracker_db t)} \<or> is_warning ev)"
proof -
  let ?c = "tracker_db t"
  let ?S = "{EvBegin ?c read_committed, EvTxExec ?c content, EvTxInsert ?c name, EvCommit ?c,
             EvRollback ?c}"
  let ?ok = "\<lambda>evs. \<forall>ev\<in>set evs. ev \<in> ?S \<or> is_warning ev"
  obtain rb w1 where b: "db_BeginTx ?c read_committed w = (rb, w1)"
    by (cases "db_BeginTx ?c read_committed w")
  note br = db_BeginTx_result[OF b]
  show ?thesis
  proof (cases rb)
    case (Inl err)
    with run b br show ?thesis by (auto simp: ApplyMigration_def read_committed_def)
  next
    case (Inr tx)
    with br have tx: "tx_conn tx = ?c" "\<not> tx_done tx" by auto
    obtain r2 sr tx' w2 where body: "ApplyMigration_body tx name content w1 = (r2, sr, tx', w2)"
      by (cases "ApplyMigration_body tx name content w1")
    have "\<exists>evs. trace w2 = trace w1 @ evs \<and> ?ok evs \<and> tx_conn tx' = ?c"
    proof -
      obtain re w3 where e: "tx_Exec tx content w1 = (re, w3)" by (cases "tx_Exec tx content w1")
      note er = tx_Exec_result[OF e]
      show ?thesis
      proof (cases re)
        case (Inl err)
        with body e er tx show ?thesis by (auto simp: ApplyMigration_body_def)
      next
        case tx1: (Inr tx1)
        obtain ri w4 where i: "tx_Insert tx1 name w3 = (ri, w4)" by (cases "tx_Insert tx1 name w3")
        note ir = tx_Insert_result[OF i]
        show ?thesis
        proof (cases ri)
          case (Inl err)
          with body e er tx tx1 i ir show ?thesis by (auto simp: ApplyMigration_body_def)
        next
          case tx2: (Inr tx2)
          obtain rc tx3 w5 where c: "tx_Commit tx2 w4 = (rc, tx3, w5)" by (cases "tx_Commit tx2 w4")
          from er tx1 ir tx2 tx have "\<not> tx_done tx2" by auto
          note cr = tx_Commit_result[OF c this]
          from body e er tx tx1 i ir tx2 c cr show ?thesis
            by (cases rc) (auto simp: ApplyMigration_body_def)
        qed
      qed
    qed
    then obtain evs where evs: "trace w2 = trace w1 @ evs" "?ok evs" "tx_conn tx' = ?c" by blast
    from run b Inr body have w': "w' = ApplyMigration_deferred sr tx' name w2"
      by (simp add: ApplyMigration_def read_committed_def)
    from ApplyMigration_deferred_result[OF w'[symmetric]] obtain ws where
      ws: "list_all is_warning ws"
        "trace w' = trace w2 @ (if sr \<and> \<not> tx_done tx' then [EvRollback (tx_conn tx')] else []) @ ws"
      by blast
    let ?all = "[EvBegin ?c read_committed] @ evs @
                  (if sr \<and> \<not> tx_done tx' then [EvRollback (tx_conn tx')] else []) @ ws"
    from br evs ws have "trace w' = trace w @ ?all" by simp
    moreover from evs ws have "?ok ?all" by (auto simp: list_all_iff)
    ultimately show ?thesis by blast
  qed
qed

lemma pending_names: "Name ` set (pending rows ms) = Name ` set ms - set rows"
  by (induction ms arbitrary: rows) auto

lemma apply_each_run:
  assumes "apply_each mg ms k w = (r, w')"
    and "\<forall>m\<in>set ms. mf_tracker m = t"
    and "table_of w (tracker_db t) = Some rows"
  shows "\<exists>done rest evs.
           pending rows ms = done @ rest \<and>
           table_of w' (tracker_db t) = Some (rows @ map Name done) \<and>
           (\<forall>p. p \<noteq> tracker_db t \<longrightarrow> dbs w' p = dbs w p) \<and>
           trace w' = trace w @ evs \<and>
           (\<forall>ev\<in>set evs. run_event_ok (tracker_db t) rows ms ev) \<and>
           (\<forall>k'. r = Inr k' \<longrightarrow>
              rest = [] \<and> evs = run_events (tracker_db t) rows ms \<and>
              k' = k + length (pending rows ms)) \<and>
           (\<forall>err. r = Inl err \<longrightarrow>
              (\<exists>m\<in>set ms. \<exists>e. err = Errorf (''failed to check migration '' @ Name m) e) \<or>
              (\<exists>m rest' e. rest = m # rest' \<and>
                 err = Errorf (''failed to apply migration '' @ Name m) e))"
  using assms
proof (induction ms arbitrary: k w rows)
  case Nil
  then show ?case by auto
next
  case (Cons m ms)
  let ?c = "tracker_db t"
  from Cons.prems(2) have mt: "mf_tracker m = t" and rest_t: "\<forall>m\<in>set ms. mf_tracker m = t"
    by auto
  obtain ra w1 where a: "IsApplied t (Name m) w = (ra, w1)" by (cases "IsApplied t (Name m) w")
  from IsApplied_result[OF a] have w1: "dbs w1 = dbs w" "trace w1 = trace w @ [EvCount ?c (Name m)]"
    by auto
  from w1 Cons.prems(3) have t1: "table_of w1 ?c = Some rows" by (simp add: table_of_def)
  have count_ok: "run_event_ok ?c rows (m # ms) (EvCount ?c (Name m))"
    by (simp add: run_event_ok_def)
  show ?case
  proof (cases ra)
    case (Inl err)
    with Cons.prems(1) a mt have "r = Inl (Errorf (''failed to check migration '' @ Name m) err)"
      "w' = w1"
      by (auto simp: MigrationFile_IsApplied_def)
    note facts = this w1 Cons.prems(3) count_ok
    show ?thesis
      apply (rule exI[of _ "[]"], rule exI[of _ "pending rows (m # ms)"],
          rule exI[of _ "[EvCount ?c (Name m)]"])
      using facts by (simp add: table_of_def)
  next
    case (Inr isApplied)
    with IsApplied_result[OF a] Cons.prems(3) have isApplied: "isApplied = (Name m \<in> set rows)"
      by auto
    show ?thesis
    proof (cases "Name m \<in> set rows")
      case True
      with Cons.prems(1) a mt Inr isApplied have "apply_each mg ms k w1 = (r, w')"
        by (simp add: MigrationFile_IsApplied_def)
      from Cons.IH[OF this rest_t t1] obtain "done" rest evs where
        ih: "pending rows ms = done @ rest"
          "table_of w' ?c = Some (rows @ map Name done)"
          "\<forall>p. p \<noteq> ?c \<longrightarrow> dbs w' p = dbs w1 p"
          "trace w' = trace w1 @ evs"
          "\<forall>ev\<in>set evs. run_event_ok ?c rows ms ev"
          "\<forall>k'. r = Inr k' \<longrightarrow> rest = [] \<and> evs = run_events ?c rows ms \<and>
              k' = k + length (pending rows ms)"
          "\<forall>err. r = Inl err \<longrightarrow>
              (\<exists>m\<in>set ms. \<exists>e. err = Errorf (''failed to check migration '' @ Name m) e) \<or>
              (\<exists>m rest' e. rest = m # rest' \<and>
                 err = Errorf (''failed to apply migration '' @ Name m) e)"
        by blast
      from ih(5) True have "\<forall>ev\<in>set evs. run_event_ok ?c rows (m # ms) ev"
        by (auto simp: run_event_ok_def)
      note facts = this ih w1 True count_ok
      show ?thesis
        apply (rule exI[of _ "done"], rule exI[of _ rest],
            rule exI[of _ "EvCount ?c (Name m) # evs"])
        using facts by auto
    next
      case False
      obtain rp w2 where p: "ApplyMigration t (Name m) (Content m) w1 = (rp, w2)"
        by (cases "ApplyMigration t (Name m) (Content m) w1")
      from ApplyMigration_events[OF p] obtain aevs where
        aevs: "trace w2 = trace w1 @ aevs"
          "\<forall>ev\<in>set aevs. ev \<in> {EvBegin ?c read_committed, EvTxExec ?c (Content m),
              EvTxInsert ?c (Name m), EvCommit ?c, EvRollback ?c} \<or> is_warning ev"
        by blast
      from False have mp: "m \<in> set (pending rows (m # ms))" by simp
      with aevs(2) have aok: "\<forall>ev\<in>set aevs. run_event_ok ?c rows (m # ms) ev"
        unfolding run_event_ok_def by blast
      show ?thesis
      proof (cases rp)
        case (Some err)
        with ApplyMigration_outcome[OF p] have "dbs w2 = dbs w1" by auto
        moreover from Cons.prems(1) a mt Inr isApplied False p Some
        have "r = Inl (Errorf (''failed to apply migration '' @ Name m) err)" "w' = w2"
          by (auto simp: MigrationFile_IsApplied_def applyMigrationWithTimeout_def
                MigrationFile_Apply_def)
        ultimately have facts: "dbs w2 = dbs w1"
          "r = Inl (Errorf (''failed to apply migration '' @ Name m) err)" "w' = w2"
          by simp_all
        show ?thesis
          apply (rule exI[of _ "[]"], rule exI[of _ "pending rows (m # ms)"],
              rule exI[of _ "EvCount ?c (Name m) # aevs"])
          using facts w1 Cons.prems(3) aevs aok count_ok False by (simp add: table_of_def)
      next
        case None
        with ApplyMigration_outcome[OF p] obtain d s where
          ok: "dbs w1 ?c = Some d" "migrations_table d = Some rows"
            "dbs w2 = (dbs w1)(?c \<mapsto> d\<lparr>objects := s, migrations_table := Some (rows @ [Name m])\<rparr>)"
            "trace w2 = trace w1 @ apply_events ?c m"
          using t1 by (auto simp: table_of_def apply_events_def)
        then have t2: "table_of w2 ?c = Some (rows @ [Name m])" by (simp add: table_of_def)
        from Cons.prems(1) a mt Inr isApplied False p None
        have "apply_each mg ms (k + 1) w2 = (r, w')"
          by (simp add: MigrationFile_IsApplied_def applyMigrationWithTimeout_def
                MigrationFile_Apply_def)
        from Cons.IH[OF this rest_t t2] obtain "done" rest evs where
          ih: "pending (rows @ [Name m]) ms = done @ rest"
            "table_of w' ?c = Some ((rows @ [Name m]) @ map Name done)"
            "\<forall>p. p \<noteq> ?c \<longrightarrow> dbs w' p = dbs w2 p"
            "trace w' = trace w2 @ evs"
            "\<forall>ev\<in>set evs. run_event_ok ?c (rows @ [Name m]) ms ev"
            "\<forall>k'. r = Inr k' \<longrightarrow> rest = [] \<and> evs = run_events ?c (rows @ [Name m]) ms \<and>
                k' = (k + 1) + length (pending (rows @ [Name m]) ms)"
            "\<forall>err. r = Inl err \<longrightarrow>
                (\<exists>m\<in>set ms. \<exists>e. err = Errorf (''failed to check migration '' @ Name m) e) \<or>
                (\<exists>m rest' e. rest = m # rest' \<and>
                   err = Errorf (''failed to apply migration '' @ Name m) e)"
          by blast
        from ih(5) False have eok: "\<forall>ev\<in>set evs. run_event_ok ?c rows (m # ms) ev"
          by (auto simp: run_event_ok_def)
        from aevs(1) ok(4) have "aevs = apply_events ?c m" by simp
        note facts = this ih ok w1 False count_ok aok eok
        show ?thesis
          apply (rule exI[of _ "m # done"], rule exI[of _ rest],
              rule exI[of _ "EvCount ?c (Name m) # apply_events ?c m @ evs"])
          using facts by auto
      qed
    qed
  qed
qed

lemma database_same:
  "migrations_table d = Some rows \<Longrightarrow> d\<lparr>objects := objects d, migrations_table := Some rows\<rparr> = d"
  by (cases d) simp

lemma apply_each_succeeds:
  assumes "faults w = []"
    and "\<forall>m\<in>set ms. mf_tracker m = t"
    and "dbs w (tracker_db t) = Some d" and "migrations_table d = Some rows"
    and "run_scripts (sql w) (objects d) (pending rows ms) = Some s'"
    and "\<forall>m\<in>set (pending rows ms). length (Name m) \<le> 255"
  shows "\<exists>k' w'. apply_each mg ms k w = (Inr k', w') \<and> faults w' = [] \<and>
           dbs w' = (dbs w)(tracker_db t \<mapsto>
                      d\<lparr>objects := s',
                        migrations_table := Some (rows @ map Name (pending rows ms))\<rparr>)"
  using assms
proof (induction ms arbitrary: k w d rows)
  case Nil
  then have "(dbs w)(tracker_db t \<mapsto> d\<lparr>objects := s', migrations_table := Some rows\<rparr>) = dbs w"
    by (auto simp: database_same)
  with Nil show ?case by simp
next
  case (Cons m ms)
  let ?c = "tracker_db t"
  from Cons.prems(2) have mt: "mf_tracker m = t" and rest_t: "\<forall>m\<in>set ms. mf_tracker m = t"
    by auto
  from Cons.prems(3,4) have tb: "table_of w ?c = Some rows" by (simp add: table_of_def)
  from IsApplied_no_fault[OF Cons.prems(1) tb, of "Name m"] obtain w1 where
    a: "IsApplied t (Name m) w = (Inr (Name m \<in> set rows), w1)" and f1: "faults w1 = []"
    by blast
  from IsApplied_result[OF a] IsApplied_params[OF a]
  have w1: "dbs w1 = dbs w" "sql w1 = sql w" by (simp_all add: same_params_def)
  show ?case
  proof (cases "Name m \<in> set rows")
    case True
    with Cons.prems(5,6) w1
    have rs1: "run_scripts (sql w1) (objects d) (pending rows ms) = Some s'"
      and len1: "\<forall>m\<in>set (pending rows ms). length (Name m) \<le> 255"
      by simp_all
    from Cons.prems(3) w1 have d1: "dbs w1 ?c = Some d" by simp
    from Cons.IH[OF f1 rest_t d1 Cons.prems(4) rs1 len1, of k] obtain k' w' where
      r: "apply_each mg ms k w1 = (Inr k', w')" "faults w' = []"
      "dbs w' = (dbs w1)(?c \<mapsto> d\<lparr>objects := s',
                        migrations_table := Some (rows @ map Name (pending rows ms))\<rparr>)"
      by blast
    from r(3) w1 True
    have "dbs w' = (dbs w)(?c \<mapsto> d\<lparr>objects := s',
                        migrations_table := Some (rows @ map Name (pending rows (m # ms)))\<rparr>)"
      by simp
    moreover from a mt True r(1) have "apply_each mg (m # ms) k w = (Inr k', w')"
      by (simp add: MigrationFile_IsApplied_def)
    ultimately show ?thesis using r(2) by blast
  next
    case False
    with Cons.prems(5) obtain s where s: "sql w (Content m) (objects d) = Some s"
      and rs: "run_scripts (sql w) s (pending (rows @ [Name m]) ms) = Some s'"
      by (auto split: option.splits)
    from False Cons.prems(6) have len: "length (Name m) \<le> 255"
      and lens: "\<forall>m\<in>set (pending (rows @ [Name m]) ms). length (Name m) \<le> 255"
      by simp_all
    let ?d = "d\<lparr>objects := s, migrations_table := Some (rows @ [Name m])\<rparr>"
    from ApplyMigration_succeeds[OF f1, of t d rows "Name m" "Content m" s]
      Cons.prems(3,4) w1 False len s
    obtain w2 where p: "ApplyMigration t (Name m) (Content m) w1 = (None, w2)"
      and f2: "faults w2 = []" and sql2: "sql w2 = sql w"
      and d2: "dbs w2 = (dbs w)(?c \<mapsto> ?d)"
      by auto
    from d2 have dd: "dbs w2 ?c = Some ?d" "migrations_table ?d = Some (rows @ [Name m])"
      by simp_all
    from rs sql2 have rs2: "run_scripts (sql w2) (objects ?d) (pending (rows @ [Name m]) ms) = Some s'"
      by simp
    from Cons.IH[OF f2 rest_t dd rs2 lens, of "k + 1"] obtain k' w' where
      r: "apply_each mg ms (k + 1) w2 = (Inr k', w')" "faults w' = []"
      "dbs w' = (dbs w2)(?c \<mapsto> ?d\<lparr>objects := s',
                    migrations_table := Some ((rows @ [Name m]) @ map Name (pending (rows @ [Name m]) ms))\<rparr>)"
      by blast
    from r(3) d2 False
    have "dbs w' = (dbs w)(?c \<mapsto> d\<lparr>objects := s',
                        migrations_table := Some (rows @ map Name (pending rows (m # ms)))\<rparr>)"
      by simp
    moreover from a mt False p r(1) have "apply_each mg (m # ms) k w = (Inr k', w')"
      by (simp add: MigrationFile_IsApplied_def applyMigrationWithTimeout_def
            MigrationFile_Apply_def)
    ultimately show ?thesis using r(2) by blast
  qed
qed

text \<open>
  C9. Take a list of migration files of one tracker and the tracking table \<open>rows\<close> as it
  is when applyPendingMigrations starts, whatever pending set was computed before. On every
  path the migrations applied are an initial part of \<open>pending rows ms\<close>: those, in list
  order, whose name is not in the table when their turn comes; their names are appended to
  the table in that order; no script is executed and no row inserted but those of such
  migrations, so a name already recorded is never inserted again and a migration already
  recorded is skipped. When the function returns no error, all of \<open>pending rows ms\<close> has
  been applied and the calls made are exactly \<open>run_events\<close>: for each migration in list
  order the query of the table, immediately followed, for the migrations not recorded at
  that moment and only for them, by the transaction that applies it. When it returns an
  error, the error is that of the check of a migration of the list or that of the
  application of the first migration of \<open>pending rows ms\<close> not applied, wrapped with the
  migration's name. And it does apply them all: when no call fails for an outside reason,
  the scripts of \<open>pending rows ms\<close> run one after the other on the database's objects and
  the names fit the column, the function returns no error, and the database holds the
  objects the scripts leave and the rows followed by the names of \<open>pending rows ms\<close>.
\<close>

theorem applyPendingMigrations_rechecks:
  assumes run: "applyPendingMigrations mg ms w = (r, w')"
    and tr: "\<forall>m\<in>set ms. mf_tracker m = t"
    and tb: "table_of w (tracker_db t) = Some rows"
  shows "(\<exists>done rest evs.
           pending rows ms = done @ rest \<and>
           table_of w' (tracker_db t) = Some (rows @ map Name done) \<and>
           trace w' = trace w @ evs \<and>
           (\<forall>ev\<in>set evs. run_event_ok (tracker_db t) rows ms ev) \<and>
           (\<forall>n\<in>set rows. EvTxInsert (tracker_db t) n \<notin> set evs) \<and>
           (\<forall>m\<in>set ms. Name m \<in> set rows \<longrightarrow> m \<notin> set (pending rows ms)) \<and>
           (r = None \<longrightarrow> rest = [] \<and> evs = run_events (tracker_db t) rows ms) \<and>
           (\<forall>err. r = Some err \<longrightarrow>
              (\<exists>m\<in>set ms. \<exists>e. err = Errorf (''failed to check migration '' @ Name m) e) \<or>
              (\<exists>m rest' e. rest = m # rest' \<and>
                 err = Errorf (''failed to apply migration '' @ Name m) e)))
     \<and> (\<forall>d s'.
           faults w = [] \<and> dbs w (tracker_db t) = Some d \<and>
           run_scripts (sql w) (objects d) (pending rows ms) = Some s' \<and>
           (\<forall>m\<in>set (pending rows ms). length (Name m) \<le> 255) \<longrightarrow>
             r = None \<and>
             dbs w' = (dbs w)(tracker_db t \<mapsto>
                        d\<lparr>objects := s',
                          migrations_table := Some (rows @ map Name (pending rows ms))\<rparr>))"
proof -
  let ?c = "tracker_db t"
  obtain ra w1 where a: "apply_each mg ms 0 w = (ra, w1)" by (cases "apply_each mg ms 0 w")
  from apply_each_run[OF a tr tb] obtain "done" rest evs where
    e: "pending rows ms = done @ rest"
      "table_of w1 ?c = Some (rows @ map Name done)"
      "trace w1 = trace w @ evs"
      "\<forall>ev\<in>set evs. run_event_ok ?c rows ms ev"
      "\<forall>k'. ra = Inr k' \<longrightarrow> rest = [] \<and> evs = run_events ?c rows ms \<and>
          k' = 0 + length (pending rows ms)"
    and sh: "\<forall>err. ra = Inl err \<longrightarrow>
          (\<exists>m\<in>set ms. \<exists>e. err = Errorf (''failed to check migration '' @ Name m) e) \<or>
          (\<exists>m rest' e. rest = m # rest' \<and>
             err = Errorf (''failed to apply migration '' @ Name m) e)"
    by blast
  from run a have w': "w' = w1" and r: "r = None \<longleftrightarrow> (\<exists>k'. ra = Inr k')"
    and re: "\<And>err. r = Some err \<Longrightarrow> ra = Inl err"
    by (auto simp: applyPendingMigrations_def split: sum.splits)
  have fresh: "Name m \<notin> set rows" if "m \<in> set (pending rows ms)" for m
    using that pending_names[of rows ms] by blast
  have no_ins: "EvTxInsert ?c n \<notin> set evs" if n: "n \<in> set rows" for n
  proof
    assume "EvTxInsert ?c n \<in> set evs"
    with e(4) have "run_event_ok ?c rows ms (EvTxInsert ?c n)" by blast
    then obtain m where "m \<in> set (pending rows ms)" "n = Name m"
      by (auto simp: run_event_ok_def read_committed_def)
    with fresh n show False by blast
  qed
  from fresh have skip: "\<forall>m\<in>set ms. Name m \<in> set rows \<longrightarrow> m \<notin> set (pending rows ms)"
    by blast
  from sh re have shape: "\<forall>err. r = Some err \<longrightarrow>
          (\<exists>m\<in>set ms. \<exists>e. err = Errorf (''failed to check migration '' @ Name m) e) \<or>
          (\<exists>m rest' e. rest = m # rest' \<and>
             err = Errorf (''failed to apply migration '' @ Name m) e)"
    by blast
  have safety: "\<exists>done rest evs.
           pending rows ms = done @ rest \<and>
           table_of w' ?c = Some (rows @ map Name done) \<and>
           trace w' = trace w @ evs \<and>
           (\<forall>ev\<in>set evs. run_event_ok ?c rows ms ev) \<and>
           (\<forall>n\<in>set rows. EvTxInsert ?c n \<notin> set evs) \<and>
           (\<forall>m\<in>set ms. Name m \<in> set rows \<longrightarrow> m \<notin> set (pending rows ms)) \<and>
           (r = None \<longrightarrow> rest = [] \<and> evs = run_events ?c rows ms) \<and>
           (\<forall>err. r = Some err \<longrightarrow>
              (\<exists>m\<in>set ms. \<exists>e. err = Errorf (''failed to check migration '' @ Name m) e) \<or>
              (\<exists>m rest' e. rest = m # rest' \<and>
                 err = Errorf (''failed to apply migration '' @ Name m) e))"
    apply (rule exI[of _ "done"], rule exI[of _ rest], rule exI[of _ evs])
    apply (intro conjI)
    subgoal by (rule e(1))
    subgoal using e(2) w' by simp
    subgoal using e(3) w' by simp
    subgoal by (rule e(4))
    subgoal using no_ins by blast
    subgoal by (rule skip)
    subgoal using e(5) r by blast
    subgoal by (rule shape)
    done
  have progress: "r = None \<and>
             dbs w' = (dbs w)(?c \<mapsto>
                        d\<lparr>objects := s',
                          migrations_table := Some (rows @ map Name (pending rows ms))\<rparr>)"
    if pre: "faults w = [] \<and> dbs w ?c = Some d \<and>
        run_scripts (sql w) (objects d) (pending rows ms) = Some s' \<and>
        (\<forall>m\<in>set (pending rows ms). length (Name m) \<le> 255)" for d s'
  proof -
    from pre tb have mt: "migrations_table d = Some rows" by (simp add: table_of_def)
    from pre have nf: "faults w = []" and d: "dbs w ?c = Some d"
      and rs: "run_scripts (sql w) (objects d) (pending rows ms) = Some s'"
      and len: "\<forall>m\<in>set (pending rows ms). length (Name m) \<le> 255"
      by simp_all
    from apply_each_succeeds[OF nf tr d mt rs len, of mg 0] a obtain k' where
      "ra = Inr k'"
      "dbs w1 = (dbs w)(?c \<mapsto>
                  d\<lparr>objects := s',
                    migrations_table := Some (rows @ map Name (pending rows ms))\<rparr>)"
      by auto
    with r w' show ?thesis by simp
  qed
  from safety progress show ?thesis by blast
qed

lemmas tracker_eval =
  call_def emit_def db_Count_def db_BeginTx_def tx_Exec_def tx_Insert_def insert_row_def
  tx_Commit_def tx_Rollback_def ApplyMigration_def ApplyMigration_body_def
  ApplyMigration_deferred_def IsApplied_def MigrationFile_IsApplied_def MigrationFile_Apply_def
  applyMigrationWithTimeout_def applyPendingMigrations_def

theorem applyPendingMigrations_rechecks_witness:
  "fst (applyPendingMigrations (sample_migrator ''postgres://u:p@h/prod'') sample_files
          (sample_world (tracked_db [''001_a.sql''] [''create a''])))
     = None
   \<and> trace (snd (applyPendingMigrations (sample_migrator ''postgres://u:p@h/prod'') sample_files
          (sample_world (tracked_db [''001_a.sql''] [''create a'']))))
     = [EvCount ''prod'' ''001_a.sql'',
        EvCount ''prod'' ''002_b.sql'',
        EvBegin ''prod'' read_committed,
        EvTxExec ''prod'' ''create b'',
        EvTxInsert ''prod'' ''002_b.sql'',
        EvCommit ''prod'']
   \<and> table_of (snd (applyPendingMigrations (sample_migrator ''postgres://u:p@h/prod'') sample_files
          (sample_world (tracked_db [''001_a.sql''] [''create a'']))))
        ''prod''
     = Some [''001_a.sql'', ''002_b.sql'']
   \<and> fst (applyPendingMigrations (sample_migrator ''postgres://u:p@h/prod'') sample_files
          (sample_world (tracked_db [] [])))
     = None
   \<and> trace (snd (applyPendingMigrations (sample_migrator ''postgres://u:p@h/prod'') sample_files
          (sample_world (tracked_db [] []))))
     = [EvCount ''prod'' ''001_a.sql'',
        EvBegin ''prod'' read_committed,
        EvTxExec ''prod'' ''create a'',
        EvTxInsert ''prod'' ''001_a.sql'',
        EvCommit ''prod'',
        EvCount ''prod'' ''002_b.sql'',
        EvBegin ''prod'' read_committed,
        EvTxExec ''prod'' ''create b'',
        EvTxInsert ''prod'' ''002_b.sql'',
        EvCommit ''prod'']
   \<and> dbs (snd (applyPendingMigrations (sample_migrator ''postgres://u:p@h/prod'') sample_files
          (sample_world (tracked_db [] []))))
        ''prod''
     = Some (tracked_db [''001_a.sql'', ''002_b.sql''] [''create a'', ''create b''])"
proof -
  let ?w = "sample_world (tracked_db [''001_a.sql''] [''create a''])"
  let ?v = "sample_world (tracked_db [] [])"
  let ?mg = "sample_migrator ''postgres://u:p@h/prod''"
  let ?t = "tracker_New ''prod''"
  let ?run = "applyPendingMigrations ?mg sample_files ?w"
  let ?all = "applyPendingMigrations ?mg sample_files ?v"
  have run: "?run = (fst ?run, snd ?run)" and all: "?all = (fst ?all, snd ?all)" by simp_all
  have tr: "\<forall>m\<in>set sample_files. mf_tracker m = ?t"
    by (simp add: sample_files_def)
  have tb: "table_of ?w (tracker_db ?t) = Some [''001_a.sql'']"
    and tv: "table_of ?v (tracker_db ?t) = Some []"
    by (simp_all add: table_of_def sample_world_def tracked_db_def tracker_New_def)
  have p: "pending [''001_a.sql''] sample_files = [sample_files ! 1]"
    and q: "pending [] sample_files = sample_files"
    by (simp_all add: sample_files_def)
  have pre: "faults ?w = [] \<and>
      dbs ?w (tracker_db ?t) = Some (tracked_db [''001_a.sql''] [''create a'']) \<and>
      run_scripts (sql ?w) (objects (tracked_db [''001_a.sql''] [''create a'']))
          (pending [''001_a.sql''] sample_files) = Some [''create a'', ''create b''] \<and>
      (\<forall>m\<in>set (pending [''001_a.sql''] sample_files). length (Name m) \<le> 255)"
    unfolding p
    by (simp add: sample_files_def sample_world_def tracked_db_def tracker_New_def
          sample_sql_def HasPrefix_def)
  have prev: "faults ?v = [] \<and>
      dbs ?v (tracker_db ?t) = Some (tracked_db [] []) \<and>
      run_scripts (sql ?v) (objects (tracked_db [] []))
          (pending [] sample_files) = Some [''create a'', ''create b''] \<and>
      (\<forall>m\<in>set (pending [] sample_files). length (Name m) \<le> 255)"
    unfolding q
    by (simp add: sample_files_def sample_world_def tracked_db_def tracker_New_def
          sample_sql_def HasPrefix_def)
  note S = applyPendingMigrations_rechecks[OF run tr tb, THEN conjunct1]
  note P = applyPendingMigrations_rechecks[OF run tr tb, THEN conjunct2, rule_format, OF pre]
  note S' = applyPendingMigrations_rechecks[OF all tr tv, THEN conjunct1]
  note P' = applyPendingMigrations_rechecks[OF all tr tv, THEN conjunct2, rule_format, OF prev]
  from P have ok: "fst ?run = None" by simp
  from P' have ok': "fst ?all = None"
    and d': "dbs (snd ?all) ''prod''
               = Some (tracked_db [''001_a.sql'', ''002_b.sql''] [''create a'', ''create b''])"
    unfolding q by (simp_all add: tracked_db_def tracker_New_def sample_files_def)
  from S ok p
  have "table_of (snd ?run) (tracker_db ?t) = Some ([''001_a.sql''] @ map Name [sample_files ! 1])"
    and "trace (snd ?run) = trace ?w @ run_events (tracker_db ?t) [''001_a.sql''] sample_files"
    by auto
  then have A: "table_of (snd ?run) ''prod'' = Some [''001_a.sql'', ''002_b.sql'']"
    "trace (snd ?run) = [EvCount ''prod'' ''001_a.sql'', EvCount ''prod'' ''002_b.sql'',
        EvBegin ''prod'' read_committed, EvTxExec ''prod'' ''create b'',
        EvTxInsert ''prod'' ''002_b.sql'', EvCommit ''prod'']"
    by (simp_all add: sample_files_def tracker_New_def apply_events_def sample_world_def)
  from S' ok' q
  have "trace (snd ?all) = trace ?v @ run_events (tracker_db ?t) [] sample_files"
    by auto
  then have B: "trace (snd ?all) = [EvCount ''prod'' ''001_a.sql'',
        EvBegin ''prod'' read_committed, EvTxExec ''prod'' ''create a'',
        EvTxInsert ''prod'' ''001_a.sql'', EvCommit ''prod'',
        EvCount ''prod'' ''002_b.sql'',
        EvBegin ''prod'' read_committed, EvTxExec ''prod'' ''create b'',
        EvTxInsert ''prod'' ''002_b.sql'', EvCommit ''prod'']"
    by (simp add: sample_files_def tracker_New_def apply_events_def sample_world_def)
  from ok ok' d' A B show ?thesis by simp
qed

section \<open>Provisioning the shadow database\<close>

lemma db_Terminate_result:
  assumes "db_Terminate c n w = (r, w1)"
  shows "dbs w1 = dbs w \<and> trace w1 = trace w @ [EvTerminate c n]"
  using assms
  by (auto simp: db_Terminate_def split: prod.splits bool.splits option.splits dest!: call_result)

lemma db_DropDatabase_result:
  assumes "db_DropDatabase c n w = (r, w1)"
  shows "(\<forall>p. p \<noteq> n \<longrightarrow> dbs w1 p = dbs w p) \<and> trace w1 = trace w @ [EvDropDatabase c n] \<and>
         (case r of Inl e \<Rightarrow> dbs w1 = dbs w | Inr u \<Rightarrow> dbs w1 = (dbs w)(n := None))"
  using assms
  by (auto simp: db_DropDatabase_def
        split: prod.splits bool.splits option.splits if_splits dest!: call_result)

lemma db_CreateDatabase_result:
  assumes "db_CreateDatabase c n w = (r, w1)"
  shows "(\<forall>p. p \<noteq> n \<longrightarrow> dbs w1 p = dbs w p) \<and> trace w1 = trace w @ [EvCreateDatabase c n] \<and>
         (case r of Inl e \<Rightarrow> dbs w1 = dbs w
          | Inr u \<Rightarrow> dbs w n = None \<and> dbs w1 = (dbs w)(n \<mapsto> template1 w))"
  using assms
  by (auto simp: db_CreateDatabase_def
        split: prod.splits bool.splits option.splits if_splits dest!: call_result)

lemma sql_Open_result:
  assumes "sql_Open dsn w = (r, w1)"
  shows "dbs w1 = dbs w \<and> trace w1 = trace w @ [EvOpen dsn] \<and> faults w1 = faults w"
  using assms by (auto simp: sql_Open_def split: option.splits)

lemma dropDatabaseIfExists_result:
  assumes "dropDatabaseIfExists c n w = (r, w1)"
  shows "(\<forall>p. p \<noteq> n \<longrightarrow> dbs w1 p = dbs w p) \<and>
         (\<exists>ws. list_all is_warning ws \<and>
            trace w1 = trace w @ [EvTerminate c n] @ ws @ [EvDropDatabase c n]) \<and>
         (case r of Some e \<Rightarrow> dbs w1 = dbs w | None \<Rightarrow> dbs w1 = (dbs w)(n := None))"
proof -
  obtain rt wt where t: "db_Terminate c n w = (rt, wt)" by (cases "db_Terminate c n w")
  let ?ww = "case rt of
               Inl err \<Rightarrow> emit (EvWarning (''Failed to terminate connections for '' @ n) (Some err)) wt
             | Inr u \<Rightarrow> wt"
  obtain rd wd where d: "db_DropDatabase c n ?ww = (rd, wd)" by (cases "db_DropDatabase c n ?ww")
  from db_Terminate_result[OF t]
  have ww: "dbs ?ww = dbs w"
    "\<exists>ws. list_all is_warning ws \<and> trace ?ww = trace w @ [EvTerminate c n] @ ws"
    by (auto split: sum.splits)
  from assms t d have "w1 = wd" "r = (case rd of Inl err \<Rightarrow> Some (Errorf (''failed to drop database '' @ n) err) | Inr u \<Rightarrow> None)"
    by (auto simp: dropDatabaseIfExists_def Let_def split: sum.splits)
  with db_DropDatabase_result[OF d] ww show ?thesis
    by (auto split: sum.splits)
qed

lemma createDatabase_result:
  assumes "createDatabase c n w = (r, w1)"
  shows "(\<forall>p. p \<noteq> n \<longrightarrow> dbs w1 p = dbs w p) \<and> trace w1 = trace w @ [EvCreateDatabase c n] \<and>
         (case r of Some e \<Rightarrow> dbs w1 = dbs w
          | None \<Rightarrow> dbs w n = None \<and> dbs w1 = (dbs w)(n \<mapsto> template1 w))"
  using assms db_CreateDatabase_result[of c n w]
  by (auto simp: createDatabase_def split: prod.splits sum.splits)

lemma is_warning_provisioning: "is_warning ev \<Longrightarrow> is_provisioning ev"
  by (cases ev) simp_all

lemma provisionsI:
  "trace wb = trace wa @ evs \<Longrightarrow> list_all is_provisioning evs \<Longrightarrow>
     (\<And>p. p \<noteq> n \<Longrightarrow> dbs wb p = dbs wa p) \<Longrightarrow> provisions n wa wb"
  unfolding provisions_def by blast

lemma provisions_refl: "provisions n w w"
  by (rule provisionsI[of _ _ "[]"]) simp_all

lemma provisions_trans:
  assumes "provisions n wa wb" and "provisions n wb wc"
  shows "provisions n wa wc"
proof -
  from assms obtain e1 e2 where e: "trace wb = trace wa @ e1" "list_all is_provisioning e1"
    "trace wc = trace wb @ e2" "list_all is_provisioning e2"
    unfolding provisions_def by blast
  from assms have d: "dbs wc p = dbs wa p" if "p \<noteq> n" for p
    using that unfolding provisions_def by simp
  from e have "trace wc = trace wa @ (e1 @ e2)" "list_all is_provisioning (e1 @ e2)"
    by simp_all
  with d show ?thesis unfolding provisions_def by blast
qed

lemma provisions_close: "provisions n w (db_Close c w)"
  by (rule provisionsI[of _ _ "[EvClose c]"]) (simp_all add: db_Close_def)

lemma provisions_open: "sql_Open dsn w = (r, w1) \<Longrightarrow> provisions n w w1"
  by (rule provisionsI[of _ _ "[EvOpen dsn]"]) (auto dest: sql_Open_result)

lemma provisions_drop:
  assumes "dropDatabaseIfExists c n w = (r, w1)"
  shows "provisions n w w1"
proof -
  from dropDatabaseIfExists_result[OF assms] obtain ws where
    ws: "list_all is_warning ws" "trace w1 = trace w @ [EvTerminate c n] @ ws @ [EvDropDatabase c n]"
    and d: "\<forall>p. p \<noteq> n \<longrightarrow> dbs w1 p = dbs w p"
    by blast
  from ws(1) have "list_all is_provisioning ws"
    by (simp add: list_all_iff is_warning_provisioning)
  then have "list_all is_provisioning ([EvTerminate c n] @ ws @ [EvDropDatabase c n])"
    by simp
  with ws(2) d show ?thesis unfolding provisions_def by blast
qed

lemma provisions_create:
  assumes "createDatabase c n w = (r, w1)"
  shows "provisions n w w1"
  using createDatabase_result[OF assms]
  by (intro provisionsI[of _ _ "[EvCreateDatabase c n]"]) simp_all

lemma setupShadowDatabase_result:
  assumes "setupShadowDatabase m w = (r, w1)"
  shows "provisions (shadowDBName m) w w1"
proof -
  let ?n = "shadowDBName m"
  obtain rp w2 where p: "connectToPostgresDatabase m w = (rp, w2)"
    by (cases "connectToPostgresDatabase m w")
  then have ok2: "provisions ?n w w2"
    by (auto simp: connectToPostgresDatabase_def Let_def intro: provisions_open)
  show ?thesis
  proof (cases rp)
    case (Inl e)
    with assms p ok2 show ?thesis by (simp add: setupShadowDatabase_def)
  next
    case (Inr pg)
    obtain rd w3 where d: "dropDatabaseIfExists pg ?n w2 = (rd, w3)"
      by (cases "dropDatabaseIfExists pg ?n w2")
    from ok2 provisions_drop[OF d] have ok3: "provisions ?n w w3" by (rule provisions_trans)
    show ?thesis
    proof (cases rd)
      case (Some e)
      with assms p Inr d have "w1 = db_Close pg w3" by (simp add: setupShadowDatabase_def)
      with provisions_trans[OF ok3 provisions_close] show ?thesis by simp
    next
      case None
      obtain rc w4 where c: "createDatabase pg ?n w3 = (rc, w4)"
        by (cases "createDatabase pg ?n w3")
      from ok3 provisions_create[OF c] have ok4: "provisions ?n w w4" by (rule provisions_trans)
      show ?thesis
      proof (cases rc)
        case (Some e)
        with assms p Inr d None c have "w1 = db_Close pg w4" by (simp add: setupShadowDatabase_def)
        with provisions_trans[OF ok4 provisions_close] show ?thesis by simp
      next
        case cNone: None
        obtain rs w5 where s: "connectToDatabase m ?n w4 = (rs, w5)"
          by (cases "connectToDatabase m ?n w4")
        then have "provisions ?n w4 w5"
          by (auto simp: connectToDatabase_def Let_def intro: provisions_open)
        with ok4 have ok5: "provisions ?n w w5" by (rule provisions_trans)
        show ?thesis
        proof (cases rs)
          case (Inl e)
          with assms p Inr d None c cNone s have "w1 = db_Close pg w5"
            by (simp add: setupShadowDatabase_def)
          with provisions_trans[OF ok5 provisions_close] show ?thesis by simp
        next
          case sh: (Inr sh)
          with assms p Inr d None c cNone s have "w1 = w5" by (simp add: setupShadowDatabase_def)
          with ok5 show ?thesis by simp
        qed
      qed
    qed
  qed
qed

lemmas shadow_eval =
  db_CurrentDatabase_def db_CreateTable_def db_SelectNames_def rows_Scan_def rows_Err_def
  os_ReadFile_def os_Getenv_def sql_Open_def db_Close_def db_Terminate_def db_DropDatabase_def
  db_CreateDatabase_def db_DatabaseExists_def EnsureMigrationsTable_def GetAppliedMigrations_def
  getCurrentDatabaseName_def extractDBNameFromDSN_def connectToPostgresDatabase_def
  connectToDatabase_def dropDatabaseIfExists_def createDatabase_def setupShadowDatabase_def
  cleanup_def applyExistingMigrationsToShadow_def testMigrationsOnShadow_def
  TestNewMigrations_body_def set_names_def TestNewMigrations_def EnsureCleanup_named_def
  EnsureCleanup_def NewWithURL_def

lemmas sample_defs =
  sample_world_def sample_fs_def tracked_db_def empty_db_def sample_sql_def HasPrefix_def
  HasSuffix_def sample_files_def sample_options_def sample_migrator_def tracker_New_def
  validator_New_def read_committed_def

text \<open>
  C6, as the code has it. A failure to terminate the connections to a stale shadow
  database does not abort anything: it is logged as a warning and the drop is attempted
  next. The counterexample is a run in which exactly the terminate call fails: the
  shadow test goes on, replays, tests both migrations and returns success.
\<close>

theorem terminate_failure_does_not_abort:
  "fst (TestNewMigrations (sample_manager ''postgres://u:p@h/prod'') (tracker_New ''prod'')
          sample_files
          (with_faults [False, True] (sample_fs (sample_world (tracked_db [] [])))))
     = None
   \<and> trace (snd (snd (TestNewMigrations (sample_manager ''postgres://u:p@h/prod'')
          (tracker_New ''prod'') sample_files
          (with_faults [False, True] (sample_fs (sample_world (tracked_db [] [])))))))
     = [EvCurrentDatabase ''prod'',
        EvOpen ''postgres://u:p@h/postgres'',
        EvTerminate ''postgres'' ''prod_gi_mig_shadow_db'',
        EvWarning ''Failed to terminate connections for prod_gi_mig_shadow_db'' (Some (Driver Fault)),
        EvDropDatabase ''postgres'' ''prod_gi_mig_shadow_db'',
        EvCreateDatabase ''postgres'' ''prod_gi_mig_shadow_db'',
        EvOpen ''postgres://u:p@h/prod_gi_mig_shadow_db'',
        EvCreateTable ''prod_gi_mig_shadow_db'',
        EvSelectNames ''prod'',
        EvRowsErr ''prod'',
        EvGetenv ''MIGRATIONS_PATH'',
        EvBegin ''prod_gi_mig_shadow_db'' read_committed,
        EvTxExec ''prod_gi_mig_shadow_db'' ''create a'',
        EvTxInsert ''prod_gi_mig_shadow_db'' ''001_a.sql'',
        EvCommit ''prod_gi_mig_shadow_db'',
        EvBegin ''prod_gi_mig_shadow_db'' read_committed,
        EvTxExec ''prod_gi_mig_shadow_db'' ''create b'',
        EvTxInsert ''prod_gi_mig_shadow_db'' ''002_b.sql'',
        EvCommit ''prod_gi_mig_shadow_db'',
        EvClose ''prod_gi_mig_shadow_db'',
        EvTerminate ''postgres'' ''prod_gi_mig_shadow_db'',
        EvDropDatabase ''postgres'' ''prod_gi_mig_shadow_db'',
        EvClose ''postgres'']"
  by (simp add: sample_manager_def with_faults_def sample_defs shadow_eval tracker_eval Let_def)

text \<open>
  C6, amended. In a shadow test that has new migrations and has read the current database
  name, a failure to drop the stale shadow database, to create the new one or to open
  the connection to it makes setupShadowDatabase fail with that error wrapped; and when
  setupShadowDatabase fails, TestNewMigrations returns at once with
  \<^verbatim>\<open>failed to setup shadow database\<close>: the only calls made are provisioning calls (no
  file is read, no script executed, no tracking table touched), and no database but the
  one of the shadow name is changed; the shadow name is the current name with a suffix,
  so the production database is as before. A failure to terminate the connections only
  adds a warning before the drop.
\<close>

theorem shadow_setup_failure_aborts:
  assumes run: "TestNewMigrations m t ms (w :: 's world) = (r, m', w')" and ne: "ms \<noteq> []"
    and cur: "getCurrentDatabaseName (mainDB m) w = (Inr name, w1)"
    and stp: "setupShadowDatabase (set_names m name) w1 = (rs, w2)"
  shows
    "(\<forall>pg wa e wb.
        connectToPostgresDatabase (set_names m name) w1 = (Inr pg, wa) \<and>
        dropDatabaseIfExists pg (name @ shadow_suffix) wa = (Some e, wb) \<longrightarrow>
          rs = Inl (Errorf ''failed to drop existing shadow database'' e))
     \<and> (\<forall>pg wa wb e wc.
        connectToPostgresDatabase (set_names m name) w1 = (Inr pg, wa) \<and>
        dropDatabaseIfExists pg (name @ shadow_suffix) wa = (None, wb) \<and>
        createDatabase pg (name @ shadow_suffix) wb = (Some e, wc) \<longrightarrow>
          rs = Inl (Errorf ''failed to create shadow database'' e))
     \<and> (\<forall>pg wa wb wc e wd.
        connectToPostgresDatabase (set_names m name) w1 = (Inr pg, wa) \<and>
        dropDatabaseIfExists pg (name @ shadow_suffix) wa = (None, wb) \<and>
        createDatabase pg (name @ shadow_suffix) wb = (None, wc) \<and>
        connectToDatabase (set_names m name) (name @ shadow_suffix) wc = (Inl e, wd) \<longrightarrow>
          rs = Inl (Errorf ''failed to connect to shadow database'' e))
     \<and> (\<forall>err. rs = Inl err \<longrightarrow>
          r = Some (Errorf ''failed to setup shadow database'' err) \<and> w' = w2 \<and>
          provisions (name @ shadow_suffix) w w' \<and>
          name = mainDB m \<and> dbs w' (mainDB m) = dbs w (mainDB m))
     \<and> (\<forall>c n (w0 :: 's world) e wt.
          db_Terminate c n w0 = (Inl e, wt) \<longrightarrow>
            dropDatabaseIfExists c n w0 =
              (case db_DropDatabase c n
                      (emit (EvWarning (''Failed to terminate connections for '' @ n) (Some e)) wt) of
                 (Inl err, w3) \<Rightarrow> (Some (Errorf (''failed to drop database '' @ n) err), w3)
               | (Inr u, w3) \<Rightarrow> (None, w3)))"
proof -
  let ?m = "set_names m name"
  have sn: "shadowDBName ?m = name @ shadow_suffix"
    by (simp add: set_names_def shadow_suffix_def)
  have drop: "rs = Inl (Errorf ''failed to drop existing shadow database'' e)"
    if "connectToPostgresDatabase ?m w1 = (Inr pg, wa)"
      "dropDatabaseIfExists pg (name @ shadow_suffix) wa = (Some e, wb)" for pg wa e wb
    using that stp sn by (simp add: setupShadowDatabase_def)
  have create: "rs = Inl (Errorf ''failed to create shadow database'' e)"
    if "connectToPostgresDatabase ?m w1 = (Inr pg, wa)"
      "dropDatabaseIfExists pg (name @ shadow_suffix) wa = (None, wb)"
      "createDatabase pg (name @ shadow_suffix) wb = (Some e, wc)" for pg wa wb e wc
    using that stp sn by (simp add: setupShadowDatabase_def)
  have connect: "rs = Inl (Errorf ''failed to connect to shadow database'' e)"
    if "connectToPostgresDatabase ?m w1 = (Inr pg, wa)"
      "dropDatabaseIfExists pg (name @ shadow_suffix) wa = (None, wb)"
      "createDatabase pg (name @ shadow_suffix) wb = (None, wc)"
      "connectToDatabase ?m (name @ shadow_suffix) wc = (Inl e, wd)" for pg wa wb wc e wd
    using that stp sn by (simp add: setupShadowDatabase_def)
  have abort: "r = Some (Errorf ''failed to setup shadow database'' err) \<and> w' = w2 \<and>
          provisions (name @ shadow_suffix) w w' \<and>
          name = mainDB m \<and> dbs w' (mainDB m) = dbs w (mainDB m)"
    if rs: "rs = Inl err" for err
  proof -
    from run ne cur stp rs have r: "r = Some (Errorf ''failed to setup shadow database'' err)"
      and w': "w' = w2"
      by (simp_all add: TestNewMigrations_def)
    from cur have name: "name = mainDB m" and c1: "dbs w1 = dbs w"
      "trace w1 = trace w @ [EvCurrentDatabase (mainDB m)]"
      by (auto simp: getCurrentDatabaseName_def db_CurrentDatabase_def
            split: prod.splits bool.splits option.splits dest!: call_result)
    then have "provisions (name @ shadow_suffix) w w1"
      by (intro provisionsI[of _ _ "[EvCurrentDatabase (mainDB m)]"]) simp_all
    with setupShadowDatabase_result[OF stp] sn
    have p: "provisions (name @ shadow_suffix) w w2"
      by (auto intro: provisions_trans)
    from name have "mainDB m \<noteq> name @ shadow_suffix" by (simp add: shadow_suffix_def)
    with p have "dbs w2 (mainDB m) = dbs w (mainDB m)" by (simp add: provisions_def)
    with r w' p name show ?thesis by simp
  qed
  have warn_only: "dropDatabaseIfExists c n w0 =
              (case db_DropDatabase c n
                      (emit (EvWarning (''Failed to terminate connections for '' @ n) (Some e)) wt) of
                 (Inl err, w3) \<Rightarrow> (Some (Errorf (''failed to drop database '' @ n) err), w3)
               | (Inr u, w3) \<Rightarrow> (None, w3))"
    if "db_Terminate c n w0 = (Inl e, wt)" for c n e and w0 wt :: "'s world"
    using that by (simp add: dropDatabaseIfExists_def)
  from drop create connect abort warn_only show ?thesis by blast
qed

theorem shadow_setup_failure_aborts_witness:
  "fst (TestNewMigrations (sample_manager ''postgres://u:p@h/prod'') (tracker_New ''prod'')
          sample_files
          (with_faults [False, False, False, True] (sample_fs (sample_world (tracked_db [] [])))))
     = Some (Errorf ''failed to setup shadow database''
          (Errorf ''failed to create shadow database''
             (Errorf ''failed to create database prod_gi_mig_shadow_db'' (Driver Fault))))
   \<and> dbs (snd (snd (TestNewMigrations (sample_manager ''postgres://u:p@h/prod'')
          (tracker_New ''prod'') sample_files
          (with_faults [False, False, False, True] (sample_fs (sample_world (tracked_db [] []))))))) ''prod''
     = dbs (with_faults [False, False, False, True] (sample_fs (sample_world (tracked_db [] [])))) ''prod''"
proof -
  let ?m = "sample_manager ''postgres://u:p@h/prod''"
  let ?w = "with_faults [False, False, False, True] (sample_fs (sample_world (tracked_db [] [])))"
  let ?X = "TestNewMigrations ?m (tracker_New ''prod'') sample_files ?w"
  let ?sh = "''prod'' @ shadow_suffix"
  let ?e = "Errorf ''failed to create database prod_gi_mig_shadow_db'' (Driver Fault)"
  note ev = sample_manager_def with_faults_def sample_defs shadow_eval tracker_eval Let_def
    shadow_suffix_def
  have run: "?X = (fst ?X, fst (snd ?X), snd (snd ?X))" by simp
  have ne: "sample_files \<noteq> []" by (simp add: sample_files_def)
  let ?w1 = "snd (getCurrentDatabaseName (mainDB ?m) ?w)"
  have cur: "getCurrentDatabaseName (mainDB ?m) ?w = (Inr ''prod'', ?w1)"
    by (simp add: ev)
  let ?mm = "set_names ?m ''prod''"
  let ?S = "setupShadowDatabase ?mm ?w1"
  have stp: "?S = (fst ?S, snd ?S)" by simp
  let ?wa = "snd (connectToPostgresDatabase ?mm ?w1)"
  have c: "connectToPostgresDatabase ?mm ?w1 = (Inr ''postgres'', ?wa)"
    by (simp add: ev)
  let ?wb = "snd (dropDatabaseIfExists ''postgres'' ?sh ?wa)"
  have d: "dropDatabaseIfExists ''postgres'' ?sh ?wa = (None, ?wb)"
    by (simp add: ev)
  let ?wc = "snd (createDatabase ''postgres'' ?sh ?wb)"
  have cr: "createDatabase ''postgres'' ?sh ?wb = (Some ?e, ?wc)"
    by (simp add: ev)
  note T = shadow_setup_failure_aborts[OF run ne cur stp]
  from T c d cr have rs: "fst ?S = Inl (Errorf ''failed to create shadow database'' ?e)"
    by blast
  from T rs have "fst ?X = Some (Errorf ''failed to setup shadow database''
        (Errorf ''failed to create shadow database'' ?e))"
    and "dbs (snd (snd ?X)) (mainDB ?m) = dbs ?w (mainDB ?m)"
    by blast+
  then show ?thesis by (simp add: sample_manager_def)
qed

section \<open>Sample runs of the shadow test and of Migrate\<close>

lemmas migrate_eval =
  os_ReadDir_def ValidateExistingMigrations_def createMigrationFile_def GetMigrationFiles_def
  FindNewMigrations_def NewWithOptions_def Migrate_lazy_manager_def Migrate_shadow_def
  Migrate_cleanup_def Migrate_def

text \<open>
  C8 at the failing input: a migrator built by NewWithOptions with both options set, one
  migration applied and one new. The two runs differ in nothing but the environment
  variable \<^verbatim>\<open>MIGRATIONS_PATH\<close>. With the variable unset the replay on the shadow
  database looks for the applied migration under \<^verbatim>\<open>./migrations\<close>, does not find it,
  and Migrate fails; with the variable set to the configured directory Migrate succeeds
  and applies the new migration.
\<close>

theorem replay_reads_environment:
  "fst (migrate_with ''prod'' (sample_options ''postgres://u:p@h/prod'')
          (with_env ''MIGRATIONS_PATH'' []
             (sample_fs (sample_world (tracked_db [''001_a.sql''] [''create a''])))))
     = Some (Errorf ''shadow database test failed''
          (Errorf ''failed to apply existing migrations to shadow''
             (Errorf ''failed to read migration 001_a.sql'' (Driver NotExist))))
   \<and> table_of (snd (snd (migrate_with ''prod'' (sample_options ''postgres://u:p@h/prod'')
          (with_env ''MIGRATIONS_PATH'' []
             (sample_fs (sample_world (tracked_db [''001_a.sql''] [''create a''])))))))
        ''prod''
     = Some [''001_a.sql'']
   \<and> fst (migrate_with ''prod'' (sample_options ''postgres://u:p@h/prod'')
          (with_env ''MIGRATIONS_PATH'' ''/m''
             (sample_fs (sample_world (tracked_db [''001_a.sql''] [''create a''])))))
     = None
   \<and> table_of (snd (snd (migrate_with ''prod'' (sample_options ''postgres://u:p@h/prod'')
          (with_env ''MIGRATIONS_PATH'' ''/m''
             (sample_fs (sample_world (tracked_db [''001_a.sql''] [''create a''])))))))
        ''prod''
     = Some [''001_a.sql'', ''002_b.sql'']"
  by (simp add: migrate_with_def with_env_def sample_defs shadow_eval tracker_eval migrate_eval
        table_of_def Let_def)

text \<open>
  C2 at the failing input: the connection string is in PostgreSQL's keyword form, which
  has no \<^verbatim>\<open>/\<close>. extractDBNameFromDSN then returns the whole string, the replacement
  in connectToDatabase finds nothing to replace, and the connection opened for the shadow
  database is a connection to the database of the string itself, production. The first
  new migration is applied there by the shadow test; the second fails it. Migrate returns
  the shadow error, and production has a new applied entry and the first script's
  objects.
\<close>

theorem shadow_test_on_production:
  "connectToDatabase (sample_manager ''host=h dbname=prod'') ''prod_gi_mig_shadow_db''
       (with_driver [''host=h dbname=prod'' \<mapsto> ''prod'']
          (broken_fs (sample_world (tracked_db [] []))))
     = sql_Open ''host=h dbname=prod''
         (with_driver [''host=h dbname=prod'' \<mapsto> ''prod'']
            (broken_fs (sample_world (tracked_db [] []))))
   \<and> fst (migrate_with ''prod'' (sample_options ''host=h dbname=prod'')
          (with_driver [''host=h dbname=prod'' \<mapsto> ''prod'']
             (broken_fs (sample_world (tracked_db [] [])))))
     = Some (Errorf ''shadow database test failed''
          (Errorf ''failed to test migrations on shadow''
             (Errorf ''migration 002_b.sql failed on shadow database''
                (Errorf ''failed to execute migration'' (Driver ScriptFailed)))))
   \<and> dbs (with_driver [''host=h dbname=prod'' \<mapsto> ''prod'']
             (broken_fs (sample_world (tracked_db [] [])))) ''prod''
     = Some (tracked_db [] [])
   \<and> dbs (snd (snd (migrate_with ''prod'' (sample_options ''host=h dbname=prod'')
          (with_driver [''host=h dbname=prod'' \<mapsto> ''prod'']
             (broken_fs (sample_world (tracked_db [] []))))))) ''prod''
     = Some (tracked_db [''001_a.sql''] [''create a''])"
  by (simp add: migrate_with_def with_driver_def broken_fs_def sample_manager_def sample_defs
        shadow_eval tracker_eval migrate_eval Let_def)

section \<open>Calls that apply nothing\<close>

lemma quietI:
  "trace w' = trace w @ evs \<Longrightarrow> list_all (\<lambda>ev. \<not> is_apply ev) evs \<Longrightarrow> dbs w' p = dbs w p
     \<Longrightarrow> quiet p w w'"
  unfolding quiet_def by blast

lemma quiet_refl: "quiet p w w"
  by (rule quietI[of _ _ "[]"]) simp_all

lemma quiet_trans:
  assumes "quiet p wa wb" and "quiet p wb wc"
  shows "quiet p wa wc"
proof -
  from assms obtain e1 e2 where e: "trace wb = trace wa @ e1" "list_all (\<lambda>ev. \<not> is_apply ev) e1"
    "trace wc = trace wb @ e2" "list_all (\<lambda>ev. \<not> is_apply ev) e2"
    unfolding quiet_def by blast
  from assms have d: "dbs wc p = dbs wa p" unfolding quiet_def by simp
  from e have "trace wc = trace wa @ (e1 @ e2)" "list_all (\<lambda>ev. \<not> is_apply ev) (e1 @ e2)"
    by simp_all
  with d show ?thesis unfolding quiet_def by blast
qed

lemma quiet_dbs: "quiet p w w' \<Longrightarrow> dbs w' p = dbs w p"
  by (simp add: quiet_def)

lemma quiet_emit: "\<not> is_apply ev \<Longrightarrow> quiet p w (emit ev w)"
  by (rule quietI[of _ _ "[ev]"]) simp_all

lemma quiet_call: "call ev w = (b, w1) \<Longrightarrow> \<not> is_apply ev \<Longrightarrow> quiet p w w1"
  by (rule quietI[of _ _ "[ev]"]) (auto dest: call_result)

lemma provisioning_not_apply: "is_provisioning ev \<Longrightarrow> \<not> is_apply ev"
  by (cases ev) simp_all

lemma provisions_quiet:
  assumes "provisions n w w'" and "p \<noteq> n"
  shows "quiet p w w'"
proof -
  from assms obtain evs where "trace w' = trace w @ evs" "list_all is_provisioning evs"
    "dbs w' p = dbs w p"
    unfolding provisions_def by blast
  moreover from this(2) have "list_all (\<lambda>ev. \<not> is_apply ev) evs"
    by (simp add: list_all_iff provisioning_not_apply)
  ultimately show ?thesis unfolding quiet_def by blast
qed

lemma evs_subset_quiet:
  assumes "\<exists>evs. trace w' = trace w @ evs \<and> set evs \<subseteq> S" and "\<forall>ev\<in>S. \<not> is_apply ev"
    and "dbs w' p = dbs w p"
  shows "quiet p w w'"
proof -
  from assms(1) obtain evs where "trace w' = trace w @ evs" "set evs \<subseteq> S" by blast
  moreover from this(2) assms(2) have "list_all (\<lambda>ev. \<not> is_apply ev) evs"
    by (auto simp: list_all_iff)
  ultimately show ?thesis using assms(3) unfolding quiet_def by blast
qed

lemma GetAppliedMigrations_quiet: "GetAppliedMigrations t w = (r, w1) \<Longrightarrow> quiet p w w1"
  by (rule evs_subset_quiet[where S = "{EvSelectNames (tracker_db t), EvScan (tracker_db t),
        EvRowsErr (tracker_db t)}"])
     (use GetAppliedMigrations_result[of t w r w1] in auto)

lemma ValidateExistingMigrations_quiet:
  "ValidateExistingMigrations v w = (r, w1) \<Longrightarrow> quiet p w w1"
  by (rule evs_subset_quiet[where S = "{EvSelectNames (tracker_db (v_tracker v)),
        EvScan (tracker_db (v_tracker v)), EvRowsErr (tracker_db (v_tracker v)),
        EvReadDir (v_migrationsPath v)}"])
     (use ValidateExistingMigrations_result[of v w r w1] in auto)

lemma os_ReadDir_quiet: "os_ReadDir path w = (r, w1) \<Longrightarrow> quiet p w w1"
  by (auto simp: os_ReadDir_def split: prod.splits bool.splits option.splits
        intro: quiet_call)

lemma os_ReadFile_quiet: "os_ReadFile dir name w = (r, w1) \<Longrightarrow> quiet p w w1"
  by (auto simp: os_ReadFile_def split: prod.splits bool.splits option.splits
        intro: quiet_call)

lemma os_Getenv_quiet: "os_Getenv key w = (r, w1) \<Longrightarrow> quiet p w w1"
  by (auto simp: os_Getenv_def intro: quiet_emit)

lemma createMigrationFile_quiet: "createMigrationFile v file w = (r, w1) \<Longrightarrow> quiet p w w1"
  by (auto simp: createMigrationFile_def split: prod.splits sum.splits dest: os_ReadFile_quiet)

lemma load_entries_quiet: "load_entries v entries acc w = (r, w1) \<Longrightarrow> quiet p w w1"
proof (induction entries arbitrary: acc w)
  case Nil
  then show ?case by (simp add: quiet_refl)
next
  case (Cons entry rest)
  show ?case
  proof (cases "HasSuffix entry ''.sql''")
    case False
    with Cons show ?thesis by simp
  next
    case True
    obtain rc w2 where c: "createMigrationFile v entry w = (rc, w2)"
      by (cases "createMigrationFile v entry w")
    note q = createMigrationFile_quiet[OF c, of p]
    show ?thesis
    proof (cases rc)
      case (Inl e)
      with Cons.prems True c q show ?thesis by simp
    next
      case (Inr mf)
      with Cons.prems True c have "load_entries v rest (acc @ [mf]) w2 = (r, w1)" by simp
      from q Cons.IH[OF this] show ?thesis by (rule quiet_trans)
    qed
  qed
qed

lemma GetMigrationFiles_quiet: "GetMigrationFiles v w = (r, w1) \<Longrightarrow> quiet p w w1"
proof -
  assume run: "GetMigrationFiles v w = (r, w1)"
  obtain rd w2 where d: "os_ReadDir (v_migrationsPath v) w = (rd, w2)"
    by (cases "os_ReadDir (v_migrationsPath v) w")
  note q = os_ReadDir_quiet[OF d, of p]
  show ?thesis
  proof (cases rd)
    case (Inl e)
    with run d q show ?thesis by (simp add: GetMigrationFiles_def)
  next
    case (Inr entries)
    with run d have "load_entries v entries [] w2 = (r, w1)" by (simp add: GetMigrationFiles_def)
    from q load_entries_quiet[OF this] show ?thesis by (rule quiet_trans)
  qed
qed

lemma IsApplied_quiet: "IsApplied t name w = (r, w1) \<Longrightarrow> quiet p w w1"
  by (rule quietI[of _ _ "[EvCount (tracker_db t) name]"])
     (use IsApplied_result[of t name w r w1] in auto)

lemma find_new_quiet: "find_new ms acc w = (r, w1) \<Longrightarrow> quiet p w w1"
proof (induction ms arbitrary: acc w)
  case Nil
  then show ?case by (simp add: quiet_refl)
next
  case (Cons m ms)
  obtain ra w2 where a: "IsApplied (mf_tracker m) (Name m) w = (ra, w2)"
    by (cases "IsApplied (mf_tracker m) (Name m) w")
  note q = IsApplied_quiet[OF a, of p]
  show ?case
  proof (cases ra)
    case (Inl e)
    with Cons.prems a q show ?thesis by (simp add: MigrationFile_IsApplied_def)
  next
    case (Inr b)
    with Cons.prems a have "\<exists>acc'. find_new ms acc' w2 = (r, w1)"
      by (auto simp: MigrationFile_IsApplied_def split: if_splits)
    then obtain acc' where "find_new ms acc' w2 = (r, w1)" ..
    from q Cons.IH[OF this] show ?thesis by (rule quiet_trans)
  qed
qed

lemma FindNewMigrations_quiet: "FindNewMigrations ms w = (r, w1) \<Longrightarrow> quiet p w w1"
  by (auto simp: FindNewMigrations_def dest: find_new_quiet)

lemma cleanup_provisions: "provisions (shadowDBName m) w (cleanup m shadowDB postgresDB w)"
proof -
  let ?n = "shadowDBName m"
  let ?w1 = "db_Close shadowDB w"
  obtain rd w2 where d: "dropDatabaseIfExists postgresDB ?n ?w1 = (rd, w2)"
    by (cases "dropDatabaseIfExists postgresDB ?n ?w1")
  have p2: "provisions ?n w w2"
    using provisions_close provisions_drop[OF d] by (rule provisions_trans)
  show ?thesis
  proof (cases rd)
    case None
    with d have "cleanup m shadowDB postgresDB w = db_Close postgresDB w2"
      by (simp add: cleanup_def)
    with provisions_trans[OF p2 provisions_close] show ?thesis by simp
  next
    case (Some e)
    let ?w3 = "emit (EvWarning (''Failed to clean up shadow database '' @ ?n) (Some e)) w2"
    have "provisions ?n w2 ?w3"
      by (rule provisionsI[of _ _ "[EvWarning (''Failed to clean up shadow database '' @ ?n) (Some e)]"])
         simp_all
    with p2 have "provisions ?n w ?w3" by (rule provisions_trans)
    from this provisions_close have "provisions ?n w (db_Close postgresDB ?w3)"
      by (rule provisions_trans)
    moreover from Some d have "cleanup m shadowDB postgresDB w = db_Close postgresDB ?w3"
      by (simp add: cleanup_def)
    ultimately show ?thesis by simp
  qed
qed

lemma db_DatabaseExists_quiet: "db_DatabaseExists c n w = (r, w1) \<Longrightarrow> quiet p w w1"
  by (auto simp: db_DatabaseExists_def split: prod.splits bool.splits option.splits
        intro: quiet_call)

lemma db_Close_quiet: "quiet p w (db_Close c w)"
  by (simp add: db_Close_def quiet_emit)

lemma EnsureCleanup_named_quiet:
  assumes "EnsureCleanup_named m w = (r, w1)" and "p \<noteq> shadowDBName m"
  shows "quiet p w w1"
proof -
  let ?n = "shadowDBName m"
  obtain rp w2 where c: "connectToPostgresDatabase m w = (rp, w2)"
    by (cases "connectToPostgresDatabase m w")
  then have "provisions ?n w w2"
    by (auto simp: connectToPostgresDatabase_def Let_def intro: provisions_open)
  then have q2: "quiet p w w2" using assms(2) by (rule provisions_quiet)
  show ?thesis
  proof (cases rp)
    case (Inl e)
    with assms(1) c q2 show ?thesis by (simp add: EnsureCleanup_named_def)
  next
    case (Inr pg)
    obtain re w3 where e: "db_DatabaseExists pg ?n w2 = (re, w3)"
      by (cases "db_DatabaseExists pg ?n w2")
    from q2 db_DatabaseExists_quiet[OF e] have q3: "quiet p w w3" by (rule quiet_trans)
    show ?thesis
    proof (cases re)
      case (Inl err)
      with assms(1) c Inr e have "w1 = db_Close pg w3" by (simp add: EnsureCleanup_named_def)
      with quiet_trans[OF q3 db_Close_quiet] show ?thesis by simp
    next
      case ex: (Inr ex)
      show ?thesis
      proof (cases ex)
        case False
        with assms(1) c Inr e ex have "w1 = db_Close pg w3" by (simp add: EnsureCleanup_named_def)
        with quiet_trans[OF q3 db_Close_quiet] show ?thesis by simp
      next
        case True
        obtain rd w4 where d: "dropDatabaseIfExists pg ?n w3 = (rd, w4)"
          by (cases "dropDatabaseIfExists pg ?n w3")
        from provisions_drop[OF d] assms(2) have "quiet p w3 w4" by (rule provisions_quiet)
        with q3 have q4: "quiet p w w4" by (rule quiet_trans)
        from assms(1) c Inr e ex True d have "w1 = db_Close pg w4"
          by (cases rd) (simp_all add: EnsureCleanup_named_def)
        with quiet_trans[OF q4 db_Close_quiet] show ?thesis by simp
      qed
    qed
  qed
qed

section \<open>How the tracking table of a database evolves\<close>

lemma grows_same: "dbs w' p = dbs w p \<Longrightarrow> grows S p w w'"
  by (simp add: grows_def tab_def table_of_def)

lemma quiet_grows: "quiet p w w' \<Longrightarrow> grows S p w w'"
  by (rule grows_same) (rule quiet_dbs)

lemma grows_refl: "grows S p w w"
  by (simp add: grows_same)

lemma grows_mono: "grows S p w w' \<Longrightarrow> S \<subseteq> T \<Longrightarrow> grows T p w w'"
  unfolding grows_def by blast

lemma grows_trans:
  assumes "grows S p wa wb" and "grows S p wb wc"
  shows "grows S p wa wc"
proof -
  from assms obtain xs ys where
    xs: "tab wb p = tab wa p @ xs" "distinct xs" "set xs \<subseteq> S" "set xs \<inter> set (tab wa p) = {}"
    and ys: "tab wc p = tab wb p @ ys" "distinct ys" "set ys \<subseteq> S" "set ys \<inter> set (tab wb p) = {}"
    unfolding grows_def by blast
  from xs ys have "tab wc p = tab wa p @ (xs @ ys)" "distinct (xs @ ys)" "set (xs @ ys) \<subseteq> S"
    "set (xs @ ys) \<inter> set (tab wa p) = {}"
    by auto
  moreover from assms have "table_of wa p \<noteq> None \<longrightarrow> table_of wc p \<noteq> None"
    unfolding grows_def by blast
  ultimately show ?thesis unfolding grows_def by blast
qed

lemma grows_distinct: "grows S p w w' \<Longrightarrow> distinct (tab w p) \<Longrightarrow> distinct (tab w' p)"
  unfolding grows_def by auto

lemma grows_subset: "grows S p w w' \<Longrightarrow> set (tab w' p) \<subseteq> set (tab w p) \<union> S"
  unfolding grows_def by auto

lemma grows_keeps: "grows S p w w' \<Longrightarrow> set (tab w p) \<subseteq> set (tab w' p)"
  unfolding grows_def by auto

lemma grows_table: "grows S p w w' \<Longrightarrow> table_of w p \<noteq> None \<Longrightarrow> table_of w' p \<noteq> None"
  unfolding grows_def by blast

lemma EnsureMigrationsTable_grows:
  assumes "EnsureMigrationsTable t w = (r, w1)"
  shows "grows S p w w1"
proof (cases "p = tracker_db t")
  case False
  with EnsureMigrationsTable_result[OF assms] show ?thesis by (simp add: grows_same)
next
  case True
  with EnsureMigrationsTable_result[OF assms] show ?thesis
    by (auto simp: grows_def tab_def table_of_def split: option.splits)
qed

lemma ApplyMigration_grows:
  assumes "ApplyMigration t name content w = (r, w1)"
  shows "grows {name} p w w1"
proof -
  from ApplyMigration_outcome[OF assms]
  consider (same) "dbs w1 = dbs w"
    | (applied) d rows s where "dbs w (tracker_db t) = Some d" "migrations_table d = Some rows"
        "name \<notin> set rows"
        "dbs w1 = (dbs w)(tracker_db t \<mapsto> d\<lparr>objects := s, migrations_table := Some (rows @ [name])\<rparr>)"
    by blast
  then show ?thesis
  proof cases
    case same
    then show ?thesis by (simp add: grows_same)
  next
    case applied
    show ?thesis
    proof (cases "p = tracker_db t")
      case False
      with applied show ?thesis by (simp add: grows_same)
    next
      case True
      with applied have "table_of w p = Some rows" "table_of w1 p = Some (rows @ [name])"
        by (simp_all add: table_of_def)
      with applied(3) show ?thesis by (simp add: grows_def tab_def)
    qed
  qed
qed

lemma replay_applied_grows:
  "replay_applied t path names w = (r, w1) \<Longrightarrow> grows (set names) p w w1"
proof (induction names arbitrary: w)
  case Nil
  then show ?case by (simp add: grows_refl)
next
  case (Cons name rest)
  let ?S = "set (name # rest)"
  obtain rf w2 where f: "os_ReadFile path name w = (rf, w2)" by (cases "os_ReadFile path name w")
  from os_ReadFile_quiet[OF f] have g2: "grows ?S p w w2" by (rule quiet_grows)
  show ?case
  proof (cases rf)
    case (Inl e)
    with Cons.prems f g2 show ?thesis by simp
  next
    case (Inr content)
    obtain ra w3 where a: "ApplyMigration t name content w2 = (ra, w3)"
      by (cases "ApplyMigration t name content w2")
    from ApplyMigration_grows[OF a] have "grows ?S p w2 w3" by (rule grows_mono) simp
    with g2 have g3: "grows ?S p w w3" by (rule grows_trans)
    show ?thesis
    proof (cases ra)
      case (Some e)
      with Cons.prems f Inr a g3 show ?thesis by simp
    next
      case None
      with Cons.prems f Inr a have "replay_applied t path rest w3 = (r, w1)" by simp
      from Cons.IH[OF this] have "grows ?S p w3 w1" by (rule grows_mono) auto
      with g3 show ?thesis by (rule grows_trans)
    qed
  qed
qed

lemma test_each_grows: "test_each t ms w = (r, w1) \<Longrightarrow> grows (Name ` set ms) p w w1"
proof (induction ms arbitrary: w)
  case Nil
  then show ?case by (simp add: grows_refl)
next
  case (Cons m ms)
  let ?S = "Name ` set (m # ms)"
  obtain ra w2 where a: "ApplyMigration t (Name m) (Content m) w = (ra, w2)"
    by (cases "ApplyMigration t (Name m) (Content m) w")
  from ApplyMigration_grows[OF a] have g2: "grows ?S p w w2" by (rule grows_mono) simp
  show ?case
  proof (cases ra)
    case (Some e)
    with Cons.prems a g2 show ?thesis by simp
  next
    case None
    with Cons.prems a have "test_each t ms w2 = (r, w1)" by simp
    from Cons.IH[OF this] have "grows ?S p w2 w1" by (rule grows_mono) auto
    with g2 show ?thesis by (rule grows_trans)
  qed
qed

lemma apply_each_grows: "apply_each mg ms k w = (r, w1) \<Longrightarrow> grows (Name ` set ms) p w w1"
proof (induction ms arbitrary: k w)
  case Nil
  then show ?case by (simp add: grows_refl)
next
  case (Cons m ms)
  let ?S = "Name ` set (m # ms)"
  obtain ri w2 where i: "IsApplied (mf_tracker m) (Name m) w = (ri, w2)"
    by (cases "IsApplied (mf_tracker m) (Name m) w")
  from IsApplied_quiet[OF i] have g2: "grows ?S p w w2" by (rule quiet_grows)
  show ?case
  proof (cases ri)
    case (Inl e)
    with Cons.prems i g2 show ?thesis by (simp add: MigrationFile_IsApplied_def)
  next
    case (Inr b)
    show ?thesis
    proof (cases b)
      case True
      with Cons.prems i Inr have "apply_each mg ms k w2 = (r, w1)"
        by (simp add: MigrationFile_IsApplied_def)
      from Cons.IH[OF this] have "grows ?S p w2 w1" by (rule grows_mono) auto
      with g2 show ?thesis by (rule grows_trans)
    next
      case False
      obtain ra w3 where a: "ApplyMigration (mf_tracker m) (Name m) (Content m) w2 = (ra, w3)"
        by (cases "ApplyMigration (mf_tracker m) (Name m) (Content m) w2")
      from ApplyMigration_grows[OF a] have "grows ?S p w2 w3" by (rule grows_mono) simp
      with g2 have g3: "grows ?S p w w3" by (rule grows_trans)
      show ?thesis
      proof (cases ra)
        case (Some e)
        with Cons.prems i Inr False a g3 show ?thesis
          by (simp add: MigrationFile_IsApplied_def applyMigrationWithTimeout_def
                MigrationFile_Apply_def)
      next
        case None
        with Cons.prems i Inr False a have "apply_each mg ms (k + 1) w3 = (r, w1)"
          by (simp add: MigrationFile_IsApplied_def applyMigrationWithTimeout_def
                MigrationFile_Apply_def)
        from Cons.IH[OF this] have "grows ?S p w3 w1" by (rule grows_mono) auto
        with g3 show ?thesis by (rule grows_trans)
      qed
    qed
  qed
qed

lemma applyPendingMigrations_grows:
  "applyPendingMigrations mg ms w = (r, w1) \<Longrightarrow> grows (Name ` set ms) p w w1"
  by (auto simp: applyPendingMigrations_def split: prod.splits sum.splits
        dest: apply_each_grows)

lemma applyExistingMigrationsToShadow_grows:
  assumes "applyExistingMigrationsToShadow m mainTracker shadowTracker w = (r, w1)"
  shows "grows (set (tab w (tracker_db mainTracker))) p w w1"
proof -
  let ?S = "set (tab w (tracker_db mainTracker))"
  obtain ra w2 where a: "GetAppliedMigrations mainTracker w = (ra, w2)"
    by (cases "GetAppliedMigrations mainTracker w")
  from GetAppliedMigrations_quiet[OF a] have g2: "grows ?S p w w2" by (rule quiet_grows)
  show ?thesis
  proof (cases ra)
    case (Inl e)
    with assms a g2 show ?thesis by (simp add: applyExistingMigrationsToShadow_def)
  next
    case (Inr applied)
    with GetAppliedMigrations_result[OF a] have S: "set applied = ?S"
      by (auto simp: tab_def table_of_def)
    obtain v w3 where e: "os_Getenv ''MIGRATIONS_PATH'' w2 = (v, w3)"
      by (cases "os_Getenv ''MIGRATIONS_PATH'' w2")
    from os_Getenv_quiet[OF e] have "grows ?S p w2 w3" by (rule quiet_grows)
    with g2 have g3: "grows ?S p w w3" by (rule grows_trans)
    from assms a Inr e
    have "replay_applied shadowTracker (if v = [] then ''./migrations'' else v) applied w3 = (r, w1)"
      by (simp add: applyExistingMigrationsToShadow_def)
    from replay_applied_grows[OF this] S have "grows ?S p w3 w1" by simp
    with g3 show ?thesis by (rule grows_trans)
  qed
qed

lemma TestNewMigrations_body_grows:
  assumes "TestNewMigrations_body m mainTracker shadowDB ms w = (r, w1)"
  shows "grows (set (tab w (tracker_db mainTracker)) \<union> Name ` set ms) p w w1"
proof -
  let ?S = "set (tab w (tracker_db mainTracker)) \<union> Name ` set ms"
  obtain re w2 where e: "EnsureMigrationsTable (tracker_New shadowDB) w = (re, w2)"
    by (cases "EnsureMigrationsTable (tracker_New shadowDB) w")
  note g2 = EnsureMigrationsTable_grows[OF e, of ?S p]
  have "grows {} (tracker_db mainTracker) w w2" by (rule EnsureMigrationsTable_grows[OF e])
  then have same: "tab w2 (tracker_db mainTracker) = tab w (tracker_db mainTracker)"
    by (simp add: grows_def)
  show ?thesis
  proof (cases re)
    case (Some err)
    with assms e g2 show ?thesis by (simp add: TestNewMigrations_body_def)
  next
    case None
    obtain ra w3 where a: "applyExistingMigrationsToShadow m mainTracker (tracker_New shadowDB) w2 = (ra, w3)"
      by (cases "applyExistingMigrationsToShadow m mainTracker (tracker_New shadowDB) w2")
    from applyExistingMigrationsToShadow_grows[OF a] same have "grows ?S p w2 w3"
      by (auto intro: grows_mono)
    with g2 have g3: "grows ?S p w w3" by (rule grows_trans)
    show ?thesis
    proof (cases ra)
      case (Some err)
      with assms e None a g3 show ?thesis by (simp add: TestNewMigrations_body_def)
    next
      case aNone: None
      obtain rt w4 where t: "test_each (tracker_New shadowDB) ms w3 = (rt, w4)"
        by (cases "test_each (tracker_New shadowDB) ms w3")
      from test_each_grows[OF t] have "grows ?S p w3 w4" by (rule grows_mono) simp
      with g3 have "grows ?S p w w4" by (rule grows_trans)
      moreover from assms e None a aNone t have "w1 = w4"
        by (cases rt) (simp_all add: TestNewMigrations_body_def testMigrationsOnShadow_def)
      ultimately show ?thesis by simp
    qed
  qed
qed

section \<open>The shadow manager and the migrator across calls\<close>

lemma set_names_inv: "mainDB mgr = p \<Longrightarrow> mgr_inv p (set_names mgr p)"
  by (simp add: mgr_inv_def set_names_def shadow_suffix_def)

lemma shadow_suffix_nonempty [simp]: "shadow_suffix \<noteq> []"
  by (simp add: shadow_suffix_def)

lemma shadow_name_differs: "p \<noteq> p @ shadow_suffix"
  by simp

lemma getCurrentDatabaseName_result:
  assumes "getCurrentDatabaseName c w = (r, w1)"
  shows "provisions n w w1 \<and> (case r of Inl e \<Rightarrow> True | Inr name \<Rightarrow> name = c)"
proof -
  from assms have "dbs w1 = dbs w" "trace w1 = trace w @ [EvCurrentDatabase c]"
    "case r of Inl e \<Rightarrow> True | Inr name \<Rightarrow> name = c"
    by (auto simp: getCurrentDatabaseName_def db_CurrentDatabase_def
          split: prod.splits bool.splits option.splits dest!: call_result)
  then show ?thesis
    by (intro conjI provisionsI[of _ _ "[EvCurrentDatabase c]"]) simp_all
qed

lemma NewWithOptions_inv: "NewWithOptions db opts w = (mg, w1) \<Longrightarrow> mig_inv mg \<and> m_db mg = db"
  by (auto simp: NewWithOptions_def mig_inv_def mgr_inv_def validator_New_def NewWithURL_def
        split: prod.splits if_splits)

lemma NewWithOptions_path:
  "NewWithOptions db opts w = (mg, w1) \<Longrightarrow> MigrationsPath opts \<noteq> [] \<Longrightarrow>
     v_migrationsPath (m_validator mg) = MigrationsPath opts"
  by (auto simp: NewWithOptions_def validator_New_def split: prod.splits if_splits)

lemma TestNewMigrations_grows:
  assumes run: "TestNewMigrations mgr t ms w = (r, mgr', w')"
    and inv: "mgr_inv p mgr" and t: "tracker_db t = p"
  shows "grows (set (tab w p) \<union> Name ` set ms) p w w' \<and> mgr_inv p mgr'"
proof (cases "ms = []")
  case True
  with run inv show ?thesis by (simp add: TestNewMigrations_def grows_refl)
next
  case False
  let ?S = "set (tab w p) \<union> Name ` set ms"
  let ?n = "p @ shadow_suffix"
  from inv have main: "mainDB mgr = p" by (simp add: mgr_inv_def)
  have pn: "p \<noteq> ?n" by (rule shadow_name_differs)
  obtain rc w1 where c: "getCurrentDatabaseName p w = (rc, w1)"
    by (cases "getCurrentDatabaseName p w")
  from getCurrentDatabaseName_result[OF c, of ?n] have p1: "provisions ?n w w1"
    and name: "case rc of Inl e \<Rightarrow> True | Inr name \<Rightarrow> name = p"
    by simp_all
  from p1 pn have q1: "quiet p w w1" by (rule provisions_quiet)
  then have g1: "grows ?S p w w1" by (rule quiet_grows)
  show ?thesis
  proof (cases rc)
    case (Inl e)
    with run False main c g1 inv show ?thesis by (simp add: TestNewMigrations_def)
  next
    case (Inr name')
    with name have rc: "rc = Inr p" by simp
    let ?m = "set_names mgr p"
    have sn: "shadowDBName ?m = ?n" by (simp add: set_names_def shadow_suffix_def)
    have inv': "mgr_inv p ?m" using main by (rule set_names_inv)
    obtain rs w2 where s: "setupShadowDatabase ?m w1 = (rs, w2)"
      by (cases "setupShadowDatabase ?m w1")
    from setupShadowDatabase_result[OF s] sn have p2: "provisions ?n w1 w2" by simp
    from p1 p2 have p12: "provisions ?n w w2" by (rule provisions_trans)
    then have q2: "quiet p w w2" using pn by (rule provisions_quiet)
    then have g2: "grows ?S p w w2" by (rule quiet_grows)
    show ?thesis
    proof (cases rs)
      case (Inl e)
      with run False main c rc s g2 inv' show ?thesis by (simp add: TestNewMigrations_def)
    next
      case (Inr conns)
      obtain shadowDB postgresDB where conns: "conns = (shadowDB, postgresDB)" by (cases conns)
      obtain rb w3 where b: "TestNewMigrations_body ?m t shadowDB ms w2 = (rb, w3)"
        by (cases "TestNewMigrations_body ?m t shadowDB ms w2")
      from quiet_dbs[OF q2] have "tab w2 p = tab w p" by (simp add: tab_def table_of_def)
      with TestNewMigrations_body_grows[OF b, of p] t have "grows ?S p w2 w3" by simp
      with g2 have g3: "grows ?S p w w3" by (rule grows_trans)
      from cleanup_provisions[of ?m w3 shadowDB postgresDB] sn
      have "provisions ?n w3 (cleanup ?m shadowDB postgresDB w3)" by simp
      then have "quiet p w3 (cleanup ?m shadowDB postgresDB w3)" using pn by (rule provisions_quiet)
      then have "grows ?S p w3 (cleanup ?m shadowDB postgresDB w3)" by (rule quiet_grows)
      with g3 have "grows ?S p w (cleanup ?m shadowDB postgresDB w3)" by (rule grows_trans)
      moreover from run False main c rc s Inr conns b
      have "w' = cleanup ?m shadowDB postgresDB w3" "mgr' = ?m"
        by (auto simp: TestNewMigrations_def)
      ultimately show ?thesis using inv' by simp
    qed
  qed
qed

lemma EnsureCleanup_quiet:
  assumes run: "EnsureCleanup mgr w = (r, mgr', w')" and inv: "mgr_inv p mgr"
  shows "quiet p w w' \<and> mgr_inv p mgr'"
proof (cases "currentDBName mgr = []")
  case False
  with inv have "shadowDBName mgr = p @ shadow_suffix" by (simp add: mgr_inv_def)
  then have pn: "p \<noteq> shadowDBName mgr" by (simp add: shadow_name_differs)
  obtain rn w1 where n: "EnsureCleanup_named mgr w = (rn, w1)"
    by (cases "EnsureCleanup_named mgr w")
  from EnsureCleanup_named_quiet[OF n pn] run False n inv show ?thesis
    by (simp add: EnsureCleanup_def)
next
  case True
  from inv have main: "mainDB mgr = p" by (simp add: mgr_inv_def)
  let ?n = "p @ shadow_suffix"
  have pn: "p \<noteq> ?n" by (rule shadow_name_differs)
  obtain rc w1 where c: "getCurrentDatabaseName p w = (rc, w1)"
    by (cases "getCurrentDatabaseName p w")
  from getCurrentDatabaseName_result[OF c, of ?n] have p1: "provisions ?n w w1"
    and name: "case rc of Inl e \<Rightarrow> True | Inr name \<Rightarrow> name = p"
    by simp_all
  from p1 pn have q1: "quiet p w w1" by (rule provisions_quiet)
  show ?thesis
  proof (cases rc)
    case (Inl e)
    with run True main c q1 inv show ?thesis by (simp add: EnsureCleanup_def)
  next
    case (Inr name')
    with name have rc: "rc = Inr p" by simp
    let ?m = "set_names mgr p"
    have sn: "p \<noteq> shadowDBName ?m" by (simp add: set_names_def shadow_suffix_def)
    obtain rn w2 where n: "EnsureCleanup_named ?m w1 = (rn, w2)"
      by (cases "EnsureCleanup_named ?m w1")
    from q1 EnsureCleanup_named_quiet[OF n sn] have "quiet p w w2" by (rule quiet_trans)
    with run True main c rc n set_names_inv[OF main] show ?thesis
      by (simp add: EnsureCleanup_def)
  qed
qed

lemma Migrate_lazy_manager_quiet:
  assumes "Migrate_lazy_manager mg w = (r, mg', w')" and "mig_inv mg"
  shows "quiet p w w' \<and> mig_inv mg' \<and> m_db mg' = m_db mg \<and> m_tracker mg' = m_tracker mg"
proof -
  have 1: "quiet p w (emit ev w)" if "\<not> is_apply ev" for ev
    using that by (rule quiet_emit)
  have 2: "quiet p w (emit ev2 (emit ev1 w))" if "\<not> is_apply ev1" "\<not> is_apply ev2" for ev1 ev2
    using that by (auto intro: quiet_trans quiet_emit)
  from assms show ?thesis
    by (auto simp: Migrate_lazy_manager_def os_Getenv_def NewWithURL_def mig_inv_def mgr_inv_def
          quiet_refl 1 2 split: if_splits option.splits)
qed

lemma Migrate_shadow_grows:
  assumes run: "Migrate_shadow mg ms w = (r, mg', w')" and inv: "mig_inv mg"
  shows "grows (set (tab w (m_db mg)) \<union> Name ` set ms) (m_db mg) w w' \<and> mig_inv mg' \<and>
         m_db mg' = m_db mg \<and> m_tracker mg' = m_tracker mg \<and> m_validator mg' = m_validator mg"
proof (cases "ms = []")
  case True
  with run inv show ?thesis by (simp add: Migrate_shadow_def grows_refl)
next
  case False
  let ?p = "m_db mg"
  let ?S = "set (tab w ?p) \<union> Name ` set ms"
  obtain rl mg1 w1 where l: "Migrate_lazy_manager mg w = (rl, mg1, w1)"
    by (cases "Migrate_lazy_manager mg w")
  from Migrate_lazy_manager_quiet[OF l inv, of ?p]
  have q1: "quiet ?p w w1" and inv1: "mig_inv mg1" and db1: "m_db mg1 = ?p"
    and t1: "m_tracker mg1 = m_tracker mg"
    by simp_all
  from l have v1: "m_validator mg1 = m_validator mg"
    by (auto simp: Migrate_lazy_manager_def os_Getenv_def split: if_splits sum.splits)
  from q1 have g1: "grows ?S ?p w w1" by (rule quiet_grows)
  show ?thesis
  proof (cases rl)
    case (Some e)
    with run False l g1 inv1 db1 t1 v1 show ?thesis by (simp add: Migrate_shadow_def)
  next
    case None
    show ?thesis
    proof (cases "shadowManager mg1")
      case mNone: None
      with run False l None g1 inv1 db1 t1 v1 show ?thesis by (simp add: Migrate_shadow_def)
    next
      case (Some mgr)
      obtain rt mgr' wt where tn: "TestNewMigrations mgr (m_tracker mg1) ms w1 = (rt, mgr', wt)"
        by (cases "TestNewMigrations mgr (m_tracker mg1) ms w1")
      from inv1 Some db1 have mi: "mgr_inv ?p mgr" by (simp add: mig_inv_def)
      from inv1 db1 have tr: "tracker_db (m_tracker mg1) = ?p"
        by (simp add: mig_inv_def tracker_New_def)
      from quiet_dbs[OF q1] have "tab w1 ?p = tab w ?p" by (simp add: tab_def table_of_def)
      with TestNewMigrations_grows[OF tn mi tr]
      have "grows ?S ?p w1 wt" and mi': "mgr_inv ?p mgr'" by simp_all
      with g1 have g: "grows ?S ?p w wt" by (intro grows_trans[of _ _ w w1 wt])
      from run False l None Some tn have "w' = wt" "mg' = mg1\<lparr>shadowManager := Some mgr'\<rparr>"
        by (auto simp: Migrate_shadow_def split: option.splits)
      with g mi' inv1 db1 t1 v1 show ?thesis by (simp add: mig_inv_def)
    qed
  qed
qed

lemma Migrate_cleanup_quiet:
  assumes run: "Migrate_cleanup mg w = (mg', w')" and inv: "mig_inv mg"
  shows "quiet (m_db mg) w w' \<and> mig_inv mg' \<and> m_db mg' = m_db mg \<and>
         m_tracker mg' = m_tracker mg \<and> m_validator mg' = m_validator mg"
proof (cases "shadowManager mg")
  case None
  with run inv show ?thesis by (simp add: Migrate_cleanup_def quiet_refl)
next
  case (Some mgr)
  let ?p = "m_db mg"
  obtain re mgr' w1 where e: "EnsureCleanup mgr w = (re, mgr', w1)"
    by (cases "EnsureCleanup mgr w")
  from inv Some have "mgr_inv ?p mgr" by (simp add: mig_inv_def)
  from EnsureCleanup_quiet[OF e this] have q1: "quiet ?p w w1" and mi: "mgr_inv ?p mgr'"
    by simp_all
  show ?thesis
  proof (cases re)
    case rNone: None
    with run Some e q1 mi inv show ?thesis by (auto simp: Migrate_cleanup_def mig_inv_def)
  next
    case (Some err)
    have "quiet ?p w1 (emit (EvWarning ''Final shadow database cleanup failed'' (Some err)) w1)"
      by (rule quiet_emit) simp
    with q1 have "quiet ?p w (emit (EvWarning ''Final shadow database cleanup failed'' (Some err)) w1)"
      by (rule quiet_trans)
    with run \<open>shadowManager mg = Some mgr\<close> e Some mi inv show ?thesis
      by (auto simp: Migrate_cleanup_def mig_inv_def)
  qed
qed

section \<open>Migrate, run after run\<close>

lemma EnsureMigrationsTable_table:
  assumes "EnsureMigrationsTable t w = (None, w1)"
  shows "table_of w1 (tracker_db t) \<noteq> None \<and> tab w1 (tracker_db t) = tab w (tracker_db t)"
  using EnsureMigrationsTable_result[OF assms]
  by (auto simp: table_of_def tab_def split: option.splits)

lemma EnsureMigrationsTable_quiet:
  assumes "EnsureMigrationsTable t w = (r, w1)" and "table_of w (tracker_db t) \<noteq> None"
  shows "quiet p w w1"
proof (rule quietI[of _ _ "[EvCreateTable (tracker_db t)]"])
  from EnsureMigrationsTable_result[OF assms(1)] assms(2)
  show "trace w1 = trace w @ [EvCreateTable (tracker_db t)]" and "dbs w1 p = dbs w p"
    by (auto simp: table_of_def split: option.splits)
qed simp

lemma ValidateExistingMigrations_passes:
  assumes "ValidateExistingMigrations v w = (None, w1)"
  shows "\<exists>names. dirs w (v_migrationsPath v) = Some names \<and>
           (\<forall>a\<in>set (tab w (tracker_db (v_tracker v))). is_sql a \<and> a \<in> set names)"
proof -
  obtain ra w2 where a: "GetAppliedMigrations (v_tracker v) w = (ra, w2)"
    by (cases "GetAppliedMigrations (v_tracker v) w")
  with assms obtain applied where ra: "ra = Inr applied"
    by (cases ra) (auto simp: ValidateExistingMigrations_def)
  with GetAppliedMigrations_result[OF a] have rows: "tab w (tracker_db (v_tracker v)) = applied"
    and d2: "dirs w2 = dirs w"
    by (auto simp: tab_def table_of_def)
  obtain rd w3 where d: "os_ReadDir (v_migrationsPath v) w2 = (rd, w3)"
    by (cases "os_ReadDir (v_migrationsPath v) w2")
  with assms a ra obtain entries where rd: "rd = Inr entries"
    by (cases rd) (auto simp: ValidateExistingMigrations_def)
  with os_ReadDir_result[OF d] d2 obtain names where
    names: "dirs w (v_migrationsPath v) = Some names" "entries = sort names"
    by auto
  from assms a ra d rd
  have "filter (\<lambda>a. a \<notin> set (filter (\<lambda>file. HasSuffix file ''.sql'') entries)) applied = []"
    by (auto simp: ValidateExistingMigrations_def Let_def split: if_splits)
  with names(2) have "\<forall>a\<in>set applied. is_sql a \<and> a \<in> set names"
    by (auto simp: filter_empty_conv is_sql_def)
  with names(1) rows show ?thesis by simp
qed

lemma GetMigrationFiles_loaded:
  assumes "GetMigrationFiles v w = (Inr ms, w1)"
  shows "map Name ms = sql_entries w (v_migrationsPath v) \<and>
         (\<forall>m\<in>set ms. mf_tracker m = v_tracker v) \<and>
         (\<exists>names. dirs w (v_migrationsPath v) = Some names \<and>
            (\<forall>file\<in>set names. is_sql file \<longrightarrow> files w (v_migrationsPath v) file \<noteq> None))"
proof -
  obtain rd w2 where d: "os_ReadDir (v_migrationsPath v) w = (rd, w2)"
    by (cases "os_ReadDir (v_migrationsPath v) w")
  with assms obtain entries where rd: "rd = Inr entries"
    and l: "load_entries v entries [] w2 = (Inr ms, w1)"
    by (cases rd) (auto simp: GetMigrationFiles_def)
  from os_ReadDir_result[OF d] rd obtain names where
    names: "dirs w (v_migrationsPath v) = Some names" "entries = sort names" "files w2 = files w"
    by auto
  from load_entries_result[OF l] names
  have ms: "ms = map (load v w2) (sort (filter is_sql names))"
    and rdbl: "\<forall>file\<in>set names. is_sql file \<longrightarrow> files w (v_migrationsPath v) file \<noteq> None"
    by (simp_all add: filter_sort)
  have "map Name (map (load v w2) xs) = xs" for xs
    by (induction xs) (simp_all add: load_def)
  with ms have "map Name ms = sort (filter is_sql names)" by simp
  moreover from ms have "\<forall>m\<in>set ms. mf_tracker m = v_tracker v" by (auto simp: load_def)
  ultimately show ?thesis using names(1) rdbl by (simp add: sql_entries_def)
qed

lemma find_new_sublist:
  "find_new ms acc w = (Inr new, w1) \<Longrightarrow> set new \<subseteq> set acc \<union> set ms"
proof (induction ms arbitrary: acc w)
  case Nil
  then show ?case by simp
next
  case (Cons m ms)
  obtain ra w2 where a: "IsApplied (mf_tracker m) (Name m) w = (ra, w2)"
    by (cases "IsApplied (mf_tracker m) (Name m) w")
  with Cons.prems obtain b where "ra = Inr b"
    by (cases ra) (auto simp: MigrationFile_IsApplied_def)
  with Cons.prems a have "find_new ms (if b then acc else acc @ [m]) w2 = (Inr new, w1)"
    by (cases b) (simp_all add: MigrationFile_IsApplied_def)
  from Cons.IH[OF this] show ?case by (auto split: if_splits)
qed

lemma find_new_all_applied:
  assumes "find_new ms acc w = (Inr new, w1)"
    and "\<forall>m\<in>set ms. mf_tracker m = t \<and> Name m \<in> set rows"
    and "table_of w (tracker_db t) = Some rows"
  shows "new = acc"
  using assms
proof (induction ms arbitrary: w)
  case Nil
  then show ?case by simp
next
  case (Cons m ms)
  obtain ra w2 where a: "IsApplied t (Name m) w = (ra, w2)" by (cases "IsApplied t (Name m) w")
  from Cons.prems(2) have mt: "mf_tracker m = t" "Name m \<in> set rows" by simp_all
  from IsApplied_result[OF a] Cons.prems(3) have w2: "table_of w2 (tracker_db t) = Some rows"
    and b: "case ra of Inl e \<Rightarrow> True | Inr b \<Rightarrow> b = (Name m \<in> set rows)"
    by (auto simp: table_of_def split: sum.splits)
  from Cons.prems(1) a mt obtain b' where ra: "ra = Inr b'"
    by (cases ra) (auto simp: MigrationFile_IsApplied_def)
  with b mt have "b'" by simp
  with Cons.prems(1) a mt ra have "find_new ms acc w2 = (Inr new, w1)"
    by (simp add: MigrationFile_IsApplied_def)
  from Cons.IH[OF this _ w2] Cons.prems(2) show ?case by simp
qed

lemma apply_each_all_applied:
  assumes "apply_each mg ms k w = (r, w1)"
    and "\<forall>m\<in>set ms. mf_tracker m = t \<and> Name m \<in> set rows"
    and "table_of w (tracker_db t) = Some rows"
  shows "quiet p w w1"
  using assms
proof (induction ms arbitrary: w)
  case Nil
  then show ?case by (simp add: quiet_refl)
next
  case (Cons m ms)
  obtain ra w2 where a: "IsApplied t (Name m) w = (ra, w2)" by (cases "IsApplied t (Name m) w")
  from Cons.prems(2) have mt: "mf_tracker m = t" "Name m \<in> set rows" by simp_all
  from IsApplied_result[OF a] Cons.prems(3) have w2: "table_of w2 (tracker_db t) = Some rows"
    and b: "case ra of Inl e \<Rightarrow> True | Inr b \<Rightarrow> b = (Name m \<in> set rows)"
    by (auto simp: table_of_def split: sum.splits)
  note q = IsApplied_quiet[OF a, of p]
  show ?case
  proof (cases ra)
    case (Inl e)
    with Cons.prems(1) a mt q show ?thesis by (simp add: MigrationFile_IsApplied_def)
  next
    case (Inr b')
    with b mt have "b'" by simp
    with Cons.prems(1) a mt Inr have "apply_each mg ms k w2 = (r, w1)"
      by (simp add: MigrationFile_IsApplied_def)
    from Cons.IH[OF this _ w2] Cons.prems(2) have "quiet p w2 w1" by simp
    with q show ?thesis by (rule quiet_trans)
  qed
qed

lemma apply_each_complete:
  assumes "apply_each mg ms k w = (Inr k', w1)"
    and "\<forall>m\<in>set ms. mf_tracker m = t"
    and "table_of w (tracker_db t) \<noteq> None"
  shows "Name ` set ms \<subseteq> set (tab w1 (tracker_db t))"
proof -
  from assms(3) obtain rows where rows: "table_of w (tracker_db t) = Some rows" by blast
  from apply_each_run[OF assms(1,2) rows] obtain "done" rest where
    "pending rows ms = done @ rest" "table_of w1 (tracker_db t) = Some (rows @ map Name done)"
    "rest = []"
    by blast
  then have "set (tab w1 (tracker_db t)) = set rows \<union> Name ` set (pending rows ms)"
    by (simp add: tab_def)
  with pending_names[of rows ms] show ?thesis by auto
qed

lemma quiet_table: "quiet p w w' \<Longrightarrow> table_of w' p = table_of w p"
  by (simp add: table_of_def quiet_dbs)

lemma quiet_tab: "quiet p w w' \<Longrightarrow> tab w' p = tab w p"
  by (simp add: tab_def quiet_table)

lemma same_params_entries: "same_params w w' \<Longrightarrow> sql_entries w' path = sql_entries w path"
  by (simp add: sql_entries_def same_params_def)

text \<open>
  One run of Migrate on the migrator of database \<open>p\<close>: the table of \<open>p\<close> only grows,
  by names of \<^verbatim>\<open>.sql\<close> entries of the directory; after a run without error the table
  exists, holds every \<^verbatim>\<open>.sql\<close> entry of the directory, and every row it had before the
  run is such an entry.
\<close>

lemma Migrate_run:
  assumes run: "Migrate mg w = (r, mg', w')" and inv: "mig_inv mg"
  shows "grows (set (tab w (m_db mg)) \<union> set (sql_entries w (v_migrationsPath (m_validator mg))))
           (m_db mg) w w' \<and>
         mig_inv mg' \<and> m_db mg' = m_db mg \<and> m_validator mg' = m_validator mg \<and>
         (r = None \<longrightarrow>
            table_of w' (m_db mg) \<noteq> None \<and>
            set (sql_entries w (v_migrationsPath (m_validator mg))) \<subseteq> set (tab w' (m_db mg)) \<and>
            set (tab w (m_db mg)) \<subseteq> set (sql_entries w (v_migrationsPath (m_validator mg))))"
proof -
  let ?p = "m_db mg" and ?v = "m_validator mg"
  let ?path = "v_migrationsPath ?v"
  let ?S = "set (tab w ?p) \<union> set (sql_entries w ?path)"
  let ?post = "\<lambda>r w'. r = None \<longrightarrow> table_of w' ?p \<noteq> None \<and>
     set (sql_entries w ?path) \<subseteq> set (tab w' ?p) \<and> set (tab w ?p) \<subseteq> set (sql_entries w ?path)"
  from inv have t: "m_tracker mg = tracker_New ?p" and vt: "v_tracker ?v = tracker_New ?p"
    by (simp_all add: mig_inv_def)
  have tp: "tracker_db (tracker_New ?p) = ?p" by (simp add: tracker_New_def)
  obtain r1 w1 where s1: "EnsureMigrationsTable (m_tracker mg) w = (r1, w1)"
    by (cases "EnsureMigrationsTable (m_tracker mg) w")
  from EnsureMigrationsTable_grows[OF s1] have g1: "grows ?S ?p w w1" .
  show ?thesis
  proof (cases r1)
    case (Some e)
    with run s1 g1 inv show ?thesis by (auto simp: Migrate_def)
  next
    case None
    from EnsureMigrationsTable_table[OF s1[unfolded None]] t tp
    have tbl1: "table_of w1 ?p \<noteq> None" and tab1: "tab w1 ?p = tab w ?p" by simp_all
    from EnsureMigrationsTable_params[OF s1] have e1: "sql_entries w1 ?path = sql_entries w ?path"
      by (rule same_params_entries)
    obtain r2 w2 where s2: "ValidateExistingMigrations ?v w1 = (r2, w2)"
      by (cases "ValidateExistingMigrations ?v w1")
    from ValidateExistingMigrations_quiet[OF s2] have q2: "quiet ?p w1 w2" .
    from g1 quiet_grows[OF q2] have g2: "grows ?S ?p w w2" by (rule grows_trans)
    from tbl1 quiet_table[OF q2] have tbl2: "table_of w2 ?p \<noteq> None" by simp
    show ?thesis
    proof (cases r2)
      case (Some e)
      with run s1 None s2 g2 inv show ?thesis by (auto simp: Migrate_def)
    next
      case v_ok: None
      from EnsureMigrationsTable_params[OF s1] have d1: "dirs w1 = dirs w"
        by (simp add: same_params_def)
      from ValidateExistingMigrations_passes[OF s2[unfolded v_ok]] vt tp tab1
      have valid: "set (tab w ?p) \<subseteq> set (sql_entries w ?path)"
        unfolding d1 by (auto simp: sql_entries_def)
      from ValidateExistingMigrations_params[OF s2] e1
      have e2: "sql_entries w2 ?path = sql_entries w ?path"
        by (simp add: same_params_entries)
      obtain r3 w3 where s3: "GetMigrationFiles ?v w2 = (r3, w3)"
        by (cases "GetMigrationFiles ?v w2")
      from GetMigrationFiles_quiet[OF s3] have q3: "quiet ?p w2 w3" .
      from g2 quiet_grows[OF q3] have g3: "grows ?S ?p w w3" by (rule grows_trans)
      from tbl2 quiet_table[OF q3] have tbl3: "table_of w3 ?p \<noteq> None" by simp
      show ?thesis
      proof (cases r3)
        case (Inl e)
        with run s1 None s2 v_ok s3 g3 inv show ?thesis by (auto simp: Migrate_def)
      next
        case (Inr ms)
        from GetMigrationFiles_loaded[OF s3[unfolded Inr]] e2 vt
        have names: "map Name ms = sql_entries w ?path"
          and trk: "\<forall>m\<in>set ms. mf_tracker m = tracker_New ?p"
          by simp_all
        from names have nset: "Name ` set ms = set (sql_entries w ?path)"
          by (metis set_map)
        obtain r4 w4 where s4: "FindNewMigrations ms w3 = (r4, w4)"
          by (cases "FindNewMigrations ms w3")
        from FindNewMigrations_quiet[OF s4] have q4: "quiet ?p w3 w4" .
        from g3 quiet_grows[OF q4] have g4: "grows ?S ?p w w4" by (rule grows_trans)
        from tbl3 quiet_table[OF q4] have tbl4: "table_of w4 ?p \<noteq> None" by simp
        show ?thesis
        proof (cases r4)
          case (Inl e)
          with run s1 None s2 v_ok s3 Inr s4 g4 inv show ?thesis by (auto simp: Migrate_def)
        next
          case new: (Inr new)
          from s4 new have "set new \<subseteq> set ms"
            using find_new_sublist[of ms "[]" w3 new w4] by (simp add: FindNewMigrations_def)
          with nset have newS: "Name ` set new \<subseteq> set (sql_entries w ?path)" by blast
          obtain r5 m5 w5 where s5: "Migrate_shadow mg new w4 = (r5, m5, w5)"
            by (cases "Migrate_shadow mg new w4")
          from Migrate_shadow_grows[OF s5 inv]
          have g45: "grows (set (tab w4 ?p) \<union> Name ` set new) ?p w4 w5"
            and inv5: "mig_inv m5" and db5: "m_db m5 = ?p" and v5: "m_validator m5 = ?v"
            by simp_all
          from grows_subset[OF g4] newS have "set (tab w4 ?p) \<union> Name ` set new \<subseteq> ?S" by blast
          with g45 have g45': "grows ?S ?p w4 w5" by (rule grows_mono)
          from grows_table[OF g45 tbl4] have tbl5: "table_of w5 ?p \<noteq> None" .
          from g4 g45' have g5: "grows ?S ?p w w5" by (rule grows_trans)
          show ?thesis
          proof (cases r5)
            case (Some e)
            with run s1 None s2 v_ok s3 Inr s4 new s5 g5 inv5 db5 v5 show ?thesis
              by (auto simp: Migrate_def)
          next
            case sh_ok: None
            obtain r6 w6 where s6: "applyPendingMigrations m5 ms w5 = (r6, w6)"
              by (cases "applyPendingMigrations m5 ms w5")
            from applyPendingMigrations_grows[OF s6] nset
            have g56: "grows ?S ?p w5 w6" by (auto intro: grows_mono)
            from g5 g56 have g6: "grows ?S ?p w w6" by (rule grows_trans)
            from grows_table[OF g56 tbl5] have tbl6: "table_of w6 ?p \<noteq> None" .
            show ?thesis
            proof (cases r6)
              case (Some e)
              with run s1 None s2 v_ok s3 Inr s4 new s5 sh_ok s6 g6 inv5 db5 v5 show ?thesis
                by (auto simp: Migrate_def)
            next
              case ap_ok: None
              from s6 ap_ok obtain k where ae: "apply_each m5 ms 0 w5 = (Inr k, w6)"
                by (auto simp: applyPendingMigrations_def split: sum.splits prod.splits)
              from apply_each_complete[OF ae trk] tbl5 tp nset
              have all6: "set (sql_entries w ?path) \<subseteq> set (tab w6 ?p)" by simp
              obtain m7 w7 where s7: "Migrate_cleanup m5 w6 = (m7, w7)"
                by (cases "Migrate_cleanup m5 w6")
              from Migrate_cleanup_quiet[OF s7 inv5] db5 v5
              have q7: "quiet ?p w6 w7" and inv7: "mig_inv m7" and db7: "m_db m7 = ?p"
                and v7: "m_validator m7 = ?v"
                by simp_all
              from g6 quiet_grows[OF q7] have g7: "grows ?S ?p w w7" by (rule grows_trans)
              from run s1 None s2 v_ok s3 Inr s4 new s5 sh_ok s6 ap_ok s7
              have res: "r = None" "mg' = m7" "w' = w7" by (simp_all add: Migrate_def)
              from all6 tbl6 quiet_tab[OF q7] quiet_table[OF q7]
              have "table_of w7 ?p \<noteq> None" "set (sql_entries w ?path) \<subseteq> set (tab w7 ?p)"
                by simp_all
              with res g7 inv7 db7 v7 valid show ?thesis by simp
            qed
          qed
        qed
      qed
    qed
  qed
qed

text \<open>
  A run of Migrate on a database whose table already holds every \<^verbatim>\<open>.sql\<close> entry of the
  directory: whatever fails or not, the database is left as it is and no transaction is
  begun.
\<close>

lemma Migrate_settled:
  assumes run: "Migrate mg w = (r, mg', w')" and inv: "mig_inv mg"
    and tbl: "table_of w (m_db mg) = Some rows"
    and all: "set (sql_entries w (v_migrationsPath (m_validator mg))) \<subseteq> set rows"
  shows "quiet (m_db mg) w w'"
proof -
  let ?p = "m_db mg" and ?v = "m_validator mg"
  let ?path = "v_migrationsPath ?v"
  from inv have t: "m_tracker mg = tracker_New ?p" and vt: "v_tracker ?v = tracker_New ?p"
    by (simp_all add: mig_inv_def)
  have tp: "tracker_db (tracker_New ?p) = ?p" by (simp add: tracker_New_def)
  obtain r1 w1 where s1: "EnsureMigrationsTable (m_tracker mg) w = (r1, w1)"
    by (cases "EnsureMigrationsTable (m_tracker mg) w")
  from tbl t tp have "table_of w (tracker_db (m_tracker mg)) \<noteq> None" by simp
  from EnsureMigrationsTable_quiet[OF s1 this] have q1: "quiet ?p w w1" .
  show ?thesis
  proof (cases r1)
    case (Some e)
    with run s1 q1 show ?thesis by (auto simp: Migrate_def)
  next
    case None
    from EnsureMigrationsTable_params[OF s1] have e1: "sql_entries w1 ?path = sql_entries w ?path"
      by (rule same_params_entries)
    obtain r2 w2 where s2: "ValidateExistingMigrations ?v w1 = (r2, w2)"
      by (cases "ValidateExistingMigrations ?v w1")
    from q1 ValidateExistingMigrations_quiet[OF s2] have q2: "quiet ?p w w2" by (rule quiet_trans)
    show ?thesis
    proof (cases r2)
      case (Some e)
      with run s1 None s2 q2 show ?thesis by (auto simp: Migrate_def)
    next
      case v_ok: None
      from ValidateExistingMigrations_params[OF s2] e1
      have e2: "sql_entries w2 ?path = sql_entries w ?path"
        by (simp add: same_params_entries)
      obtain r3 w3 where s3: "GetMigrationFiles ?v w2 = (r3, w3)"
        by (cases "GetMigrationFiles ?v w2")
      from q2 GetMigrationFiles_quiet[OF s3] have q3: "quiet ?p w w3" by (rule quiet_trans)
      show ?thesis
      proof (cases r3)
        case (Inl e)
        with run s1 None s2 v_ok s3 q3 show ?thesis by (auto simp: Migrate_def)
      next
        case (Inr ms)
        from GetMigrationFiles_loaded[OF s3[unfolded Inr]] e2 vt
        have names: "map Name ms = sql_entries w ?path"
          and trk: "\<forall>m\<in>set ms. mf_tracker m = tracker_New ?p"
          by simp_all
        from names have "Name ` set ms = set (sql_entries w ?path)"
          by (metis set_map)
        with all trk have applied: "\<forall>m\<in>set ms. mf_tracker m = tracker_New ?p \<and> Name m \<in> set rows"
          by blast
        from quiet_table[OF q3] tbl tp have tbl3: "table_of w3 (tracker_db (tracker_New ?p)) = Some rows"
          by simp
        obtain r4 w4 where s4: "FindNewMigrations ms w3 = (r4, w4)"
          by (cases "FindNewMigrations ms w3")
        from FindNewMigrations_quiet[OF s4] have q34: "quiet ?p w3 w4" .
        with q3 have q4: "quiet ?p w w4" by (rule quiet_trans)
        show ?thesis
        proof (cases r4)
          case (Inl e)
          with run s1 None s2 v_ok s3 Inr s4 q4 show ?thesis by (auto simp: Migrate_def)
        next
          case new: (Inr new)
          from s4 new find_new_all_applied[OF _ applied tbl3, of "[]" new w4]
          have nil: "new = []" by (simp add: FindNewMigrations_def)
          then have s5: "Migrate_shadow mg new w4 = (None, mg, w4)"
            by (simp add: Migrate_shadow_def)
          from quiet_table[OF q34] tbl3
          have tbl4: "table_of w4 (tracker_db (tracker_New ?p)) = Some rows" by (simp add: tp)
          obtain r6 w6 where s6: "apply_each mg ms 0 w4 = (r6, w6)"
            by (cases "apply_each mg ms 0 w4")
          from apply_each_all_applied[OF s6 applied tbl4] have "quiet ?p w4 w6" .
          with q4 have q6: "quiet ?p w w6" by (rule quiet_trans)
          show ?thesis
          proof (cases r6)
            case (Inl e)
            with run s1 None s2 v_ok s3 Inr s4 new s5 s6 q6 show ?thesis
              by (auto simp: Migrate_def applyPendingMigrations_def)
          next
            case ap_ok: (Inr k)
            obtain m7 w7 where s7: "Migrate_cleanup mg w6 = (m7, w7)"
              by (cases "Migrate_cleanup mg w6")
            from Migrate_cleanup_quiet[OF s7 inv] have "quiet ?p w6 w7" by simp
            with q6 have "quiet ?p w w7" by (rule quiet_trans)
            with run s1 None s2 v_ok s3 Inr s4 new s5 s6 ap_ok s7 show ?thesis
              by (auto simp: Migrate_def applyPendingMigrations_def)
          qed
        qed
      qed
    qed
  qed
qed

subsection \<open>Runs in which no call fails\<close>

lemma os_ReadDir_no_fault:
  "faults w = [] \<Longrightarrow> dirs w path = Some names \<Longrightarrow>
     \<exists>w1. os_ReadDir path w = (Inr (sort names), w1) \<and> faults w1 = []"
  by (simp add: os_ReadDir_def call_no_fault)

lemma ValidateExistingMigrations_no_fault:
  assumes "faults w = []" and "table_of w (tracker_db (v_tracker v)) = Some rows"
    and "dirs w (v_migrationsPath v) = Some names"
    and "\<forall>a\<in>set rows. is_sql a \<and> a \<in> set names"
  shows "\<exists>w1. ValidateExistingMigrations v w = (None, w1) \<and> faults w1 = []"
proof -
  from assms(2) obtain d where "dbs w (tracker_db (v_tracker v)) = Some d"
    "migrations_table d = Some rows"
    by (auto simp: table_of_def split: option.splits)
  from GetAppliedMigrations_no_fault[OF assms(1) this] obtain w1 where
    a: "GetAppliedMigrations (v_tracker v) w = (Inr rows, w1)" and f1: "faults w1 = []"
    by blast
  from GetAppliedMigrations_params[OF a] assms(3) have "dirs w1 (v_migrationsPath v) = Some names"
    by (simp add: same_params_def)
  from os_ReadDir_no_fault[OF f1 this] obtain w2 where
    d: "os_ReadDir (v_migrationsPath v) w1 = (Inr (sort names), w2)" and f2: "faults w2 = []"
    by blast
  from assms(4)
  have "filter (\<lambda>a. a \<notin> set (filter (\<lambda>file. HasSuffix file ''.sql'') (sort names))) rows = []"
    by (auto simp: filter_empty_conv is_sql_def)
  with a d f2 show ?thesis by (simp add: ValidateExistingMigrations_def)
qed

lemma load_entries_no_fault:
  "faults w = [] \<Longrightarrow> \<forall>file\<in>set entries. is_sql file \<longrightarrow> files w (v_migrationsPath v) file \<noteq> None
     \<Longrightarrow> \<exists>ms w1. load_entries v entries acc w = (Inr ms, w1) \<and> faults w1 = []"
proof (induction entries arbitrary: acc w)
  case Nil
  then show ?case by simp
next
  case (Cons entry rest)
  show ?case
  proof (cases "is_sql entry")
    case False
    with Cons show ?thesis by (simp add: is_sql_def)
  next
    case True
    with Cons.prems obtain content where c: "files w (v_migrationsPath v) entry = Some content"
      by auto
    let ?w1 = "emit (EvReadFile (v_migrationsPath v) entry) w"
    from Cons.prems have "faults ?w1 = []"
      "\<forall>file\<in>set rest. is_sql file \<longrightarrow> files ?w1 (v_migrationsPath v) file \<noteq> None"
      by simp_all
    from Cons.IH[OF this] True c Cons.prems(1) show ?thesis
      by (simp add: is_sql_def createMigrationFile_def os_ReadFile_def call_no_fault)
  qed
qed

lemma GetMigrationFiles_no_fault:
  assumes "faults w = []" and "dirs w (v_migrationsPath v) = Some names"
    and "\<forall>file\<in>set names. is_sql file \<longrightarrow> files w (v_migrationsPath v) file \<noteq> None"
  shows "\<exists>ms w1. GetMigrationFiles v w = (Inr ms, w1) \<and> faults w1 = []"
proof -
  from os_ReadDir_no_fault[OF assms(1,2)] obtain w1 where
    d: "os_ReadDir (v_migrationsPath v) w = (Inr (sort names), w1)" and f1: "faults w1 = []"
    by blast
  from os_ReadDir_result[OF d] assms(3)
  have "\<forall>file\<in>set (sort names). is_sql file \<longrightarrow> files w1 (v_migrationsPath v) file \<noteq> None"
    by simp
  from load_entries_no_fault[OF f1 this] d show ?thesis by (simp add: GetMigrationFiles_def)
qed

lemma find_new_no_fault:
  assumes "faults w = []" and "table_of w (tracker_db t) = Some rows"
    and "\<forall>m\<in>set ms. mf_tracker m = t"
  shows "\<exists>new w1. find_new ms acc w = (Inr new, w1) \<and> faults w1 = []"
  using assms
proof (induction ms arbitrary: acc w)
  case Nil
  then show ?case by simp
next
  case (Cons m ms)
  from Cons.prems(3) have mt: "mf_tracker m = t" by simp
  from IsApplied_no_fault[OF Cons.prems(1,2), of "Name m"] obtain w1 where
    a: "IsApplied t (Name m) w = (Inr (Name m \<in> set rows), w1)" and f1: "faults w1 = []"
    and t1: "table_of w1 (tracker_db t) = Some rows"
    by blast
  from Cons.prems(3) have rest: "\<forall>m\<in>set ms. mf_tracker m = t" by simp
  from Cons.IH[OF f1 t1 rest] a mt show ?case
    by (simp add: MigrationFile_IsApplied_def)
qed

lemma apply_each_no_fault:
  assumes "faults w = []" and "table_of w (tracker_db t) = Some rows"
    and "\<forall>m\<in>set ms. mf_tracker m = t \<and> Name m \<in> set rows"
  shows "\<exists>k' w1. apply_each mg ms k w = (Inr k', w1) \<and> faults w1 = []"
  using assms
proof (induction ms arbitrary: w)
  case Nil
  then show ?case by simp
next
  case (Cons m ms)
  from Cons.prems(3) have mt: "mf_tracker m = t" "Name m \<in> set rows" by simp_all
  from IsApplied_no_fault[OF Cons.prems(1,2), of "Name m"] mt obtain w1 where
    a: "IsApplied t (Name m) w = (Inr True, w1)" and f1: "faults w1 = []"
    and t1: "table_of w1 (tracker_db t) = Some rows"
    by auto
  from Cons.prems(3) have rest: "\<forall>m\<in>set ms. mf_tracker m = t \<and> Name m \<in> set rows" by simp
  from Cons.IH[OF f1 t1 rest] a mt show ?case
    by (simp add: MigrationFile_IsApplied_def)
qed

text \<open>
  A run of Migrate without error has read the directory and every \<^verbatim>\<open>.sql\<close> entry of it.
\<close>

lemma Migrate_readable:
  assumes run: "Migrate mg w = (None, mg', w')"
  shows "\<exists>names. dirs w (v_migrationsPath (m_validator mg)) = Some names \<and>
           (\<forall>file\<in>set names. is_sql file \<longrightarrow>
              files w (v_migrationsPath (m_validator mg)) file \<noteq> None)"
proof -
  let ?v = "m_validator mg"
  obtain r1 w1 where s1: "EnsureMigrationsTable (m_tracker mg) w = (r1, w1)"
    by (cases "EnsureMigrationsTable (m_tracker mg) w")
  obtain r2 w2 where s2: "ValidateExistingMigrations ?v w1 = (r2, w2)"
    by (cases "ValidateExistingMigrations ?v w1")
  obtain r3 w3 where s3: "GetMigrationFiles ?v w2 = (r3, w3)"
    by (cases "GetMigrationFiles ?v w2")
  from run s1 have r1: "r1 = None" by (cases r1) (simp_all add: Migrate_def)
  from run s1 r1 s2 have r2: "r2 = None" by (cases r2) (simp_all add: Migrate_def)
  from run s1 r1 s2 r2 s3 obtain ms where r3: "r3 = Inr ms"
    by (cases r3) (simp_all add: Migrate_def)
  from EnsureMigrationsTable_params[OF s1] ValidateExistingMigrations_params[OF s2]
  have "dirs w2 = dirs w" "files w2 = files w" by (simp_all add: same_params_def)
  with GetMigrationFiles_loaded[OF s3[unfolded r3]] show ?thesis by simp
qed

text \<open>
  A run of Migrate in which no call fails, on a database whose table holds exactly the
  readable \<^verbatim>\<open>.sql\<close> entries of the directory, ends without error.
\<close>

lemma Migrate_settled_succeeds:
  assumes inv: "mig_inv mg" and nf: "faults w = []"
    and tbl: "table_of w (m_db mg) = Some rows"
    and dir: "dirs w (v_migrationsPath (m_validator mg)) = Some names"
    and rdbl: "\<forall>file\<in>set names. is_sql file \<longrightarrow>
                 files w (v_migrationsPath (m_validator mg)) file \<noteq> None"
    and rows: "set rows = set (sql_entries w (v_migrationsPath (m_validator mg)))"
  shows "\<exists>mg' w'. Migrate mg w = (None, mg', w')"
proof -
  let ?p = "m_db mg" and ?v = "m_validator mg"
  let ?path = "v_migrationsPath ?v"
  let ?t = "tracker_New ?p"
  from inv have t: "m_tracker mg = ?t" and vt: "v_tracker ?v = ?t"
    by (simp_all add: mig_inv_def)
  have tp: "tracker_db ?t = ?p" by (simp add: tracker_New_def)
  obtain r1 w1 where s1: "EnsureMigrationsTable (m_tracker mg) w = (r1, w1)"
    by (cases "EnsureMigrationsTable (m_tracker mg) w")
  from tbl have "dbs w ?p \<noteq> None" by (auto simp: table_of_def split: option.splits)
  with EnsureMigrationsTable_result[OF s1] nf t tp have r1: "r1 = None" and f1: "faults w1 = []"
    by simp_all
  from tbl t tp have "table_of w (tracker_db (m_tracker mg)) \<noteq> None" by simp
  from EnsureMigrationsTable_quiet[OF s1 this, of ?p] have q1: "quiet ?p w w1" .
  from EnsureMigrationsTable_params[OF s1] have p1: "same_params w w1" .
  from quiet_table[OF q1] tbl vt tp have tbl1: "table_of w1 (tracker_db (v_tracker ?v)) = Some rows"
    by simp
  from p1 dir have dir1: "dirs w1 ?path = Some names" by (simp add: same_params_def)
  from rows dir have valid: "\<forall>a\<in>set rows. is_sql a \<and> a \<in> set names"
    by (auto simp: sql_entries_def)
  from ValidateExistingMigrations_no_fault[OF f1 tbl1 dir1 valid] obtain w2 where
    s2: "ValidateExistingMigrations ?v w1 = (None, w2)" and f2: "faults w2 = []"
    by blast
  from ValidateExistingMigrations_params[OF s2] p1 have p2: "same_params w w2"
    by (simp add: same_params_def)
  from ValidateExistingMigrations_quiet[OF s2, of ?p] q1 have q2: "quiet ?p w w2"
    by (blast intro: quiet_trans)
  from p2 dir rdbl have dir2: "dirs w2 ?path = Some names"
    and rdbl2: "\<forall>file\<in>set names. is_sql file \<longrightarrow> files w2 ?path file \<noteq> None"
    by (simp_all add: same_params_def)
  from GetMigrationFiles_no_fault[OF f2 dir2 rdbl2] obtain ms w3 where
    s3: "GetMigrationFiles ?v w2 = (Inr ms, w3)" and f3: "faults w3 = []"
    by blast
  from GetMigrationFiles_quiet[OF s3, of ?p] q2 have q3: "quiet ?p w w3"
    by (blast intro: quiet_trans)
  from GetMigrationFiles_loaded[OF s3] same_params_entries[OF p2, of ?path] vt
  have names: "map Name ms = sql_entries w ?path" and trk: "\<forall>m\<in>set ms. mf_tracker m = ?t"
    by simp_all
  from names have "Name ` set ms = set (sql_entries w ?path)" by (metis set_map)
  with rows trk have applied: "\<forall>m\<in>set ms. mf_tracker m = ?t \<and> Name m \<in> set rows" by blast
  from quiet_table[OF q3] tbl tp have tbl3: "table_of w3 (tracker_db ?t) = Some rows" by simp
  from find_new_no_fault[OF f3 tbl3 trk, of "[]"] obtain new w4 where
    s4: "find_new ms [] w3 = (Inr new, w4)" and f4: "faults w4 = []"
    by blast
  from find_new_all_applied[OF s4 applied tbl3] have nil: "new = []" .
  from find_new_quiet[OF s4, of ?p] have "quiet ?p w3 w4" .
  from quiet_table[OF this] tbl3 tp have tbl4: "table_of w4 (tracker_db ?t) = Some rows" by simp
  from apply_each_no_fault[OF f4 tbl4 applied, of mg 0] obtain k w6 where
    s6: "apply_each mg ms 0 w4 = (Inr k, w6)"
    by blast
  obtain m7 w7 where s7: "Migrate_cleanup mg w6 = (m7, w7)" by (cases "Migrate_cleanup mg w6")
  from s1 r1 s2 s3 s4 nil s6 s7 have "Migrate mg w = (None, m7, w7)"
    by (simp add: Migrate_def FindNewMigrations_def Migrate_shadow_def applyPendingMigrations_def)
  then show ?thesis by blast
qed

lemma distinct_count_list: "distinct xs \<Longrightarrow> x \<in> set xs \<Longrightarrow> count_list xs x = 1"
  by (induction xs) auto

lemma with_faults_fields [simp]:
  "dbs (with_faults fs w) = dbs w" "trace (with_faults fs w) = trace w"
  "dirs (with_faults fs w) = dirs w" "files (with_faults fs w) = files w"
  "faults (with_faults fs w) = fs"
  by (simp_all add: with_faults_def)

text \<open>
  C4. Migrate is idempotent. Take the migrator that NewWithOptions builds for database
  \<open>db\<close>, whose table holds no name twice, and let a first run of Migrate end without
  error. Then run Migrate again on the world the first run left, the directory
  unchanged, with any failures \<open>fs\<close> of the calls of this second run. The second run
  leaves database \<open>db\<close>, and with it the table of applied names, exactly as the first
  run left it; it begins no transaction, executes no script and records no name; every
  \<^verbatim>\<open>.sql\<close> entry of the directory is in the table exactly once; and when no call of the
  second run fails, the second run ends without error.
\<close>

theorem Migrate_idempotent:
  assumes mk: "NewWithOptions db opts wa = (m0, w0)"
    and uniq: "distinct (tab w0 db)"
    and first: "Migrate m0 w0 = (None, m1, w1)"
    and second: "Migrate m1 (with_faults fs w1) = (r2, m2, w2)"
  shows "dbs w2 db = dbs w1 db \<and>
         (\<exists>evs. trace w2 = trace w1 @ evs \<and> list_all (\<lambda>ev. \<not> is_apply ev) evs) \<and>
         (\<forall>n\<in>set (sql_entries w0 (migrationsPath m0)). count_list (tab w2 db) n = 1) \<and>
         (fs = [] \<longrightarrow> r2 = None)"
proof -
  let ?path = "v_migrationsPath (m_validator m0)"
  let ?wf = "with_faults fs w1"
  from mk have path: "migrationsPath m0 = ?path"
    by (auto simp: NewWithOptions_def validator_New_def split: prod.splits)
  from NewWithOptions_inv[OF mk] have inv0: "mig_inv m0" and db0: "m_db m0 = db" by simp_all
  from Migrate_run[OF first inv0] db0
  have g: "grows (set (tab w0 db) \<union> set (sql_entries w0 ?path)) db w0 w1"
    and inv1: "mig_inv m1" and db1: "m_db m1 = db" and v1: "m_validator m1 = m_validator m0"
    and tbl1: "table_of w1 db \<noteq> None"
    and all1: "set (sql_entries w0 ?path) \<subseteq> set (tab w1 db)"
    and valid0: "set (tab w0 db) \<subseteq> set (sql_entries w0 ?path)"
    by simp_all
  from Migrate_params[OF first] have par: "dirs w1 = dirs w0" "files w1 = files w0"
    by (simp_all add: same_params_def)
  then have e1: "sql_entries ?wf ?path = sql_entries w0 ?path"
    by (simp add: sql_entries_def)
  from tbl1 obtain rows where rows: "table_of ?wf db = Some rows"
    by (auto simp: table_of_def)
  then have tab1: "tab w1 db = rows" by (simp add: tab_def table_of_def)
  from all1 tab1 e1 have all: "set (sql_entries ?wf ?path) \<subseteq> set rows" by simp
  from Migrate_settled[OF second inv1] rows all db1 v1 have q: "quiet db ?wf w2" by simp
  from quiet_dbs[OF q] have A: "dbs w2 db = dbs w1 db" by simp
  from q have B: "\<exists>evs. trace w2 = trace w1 @ evs \<and> list_all (\<lambda>ev. \<not> is_apply ev) evs"
    by (simp add: quiet_def)
  from quiet_tab[OF q] tab1 have tab2: "tab w2 db = rows" by (simp add: tab_def table_of_def)
  from grows_distinct[OF g uniq] tab1 have "distinct rows" by simp
  with all1 tab1 tab2 path
  have C: "\<forall>n\<in>set (sql_entries w0 (migrationsPath m0)). count_list (tab w2 db) n = 1"
    by (auto simp: distinct_count_list)
  have D: "r2 = None" if nf: "fs = []"
  proof -
    from grows_subset[OF g] valid0 all1 tab1 e1
    have eq: "set rows = set (sql_entries ?wf ?path)" by auto
    from Migrate_readable[OF first] par obtain names where
      "dirs ?wf ?path = Some names"
      "\<forall>file\<in>set names. is_sql file \<longrightarrow> files ?wf ?path file \<noteq> None"
      by auto
    with Migrate_settled_succeeds[OF inv1, of ?wf rows names] nf rows eq db1 v1
    obtain mg' w' where "Migrate m1 ?wf = (None, mg', w')" by auto
    with second show ?thesis by simp
  qed
  from A B C D show ?thesis by blast
qed

lemmas run_eval =
  migrate_with_def sample_defs shadow_eval tracker_eval migrate_eval Let_def

theorem Migrate_idempotent_witness:
  "fst sample_first_run = None \<and> fst sample_second_run = None \<and>
   dbs (snd (snd sample_second_run)) ''prod'' = dbs (snd (snd sample_first_run)) ''prod'' \<and>
   count_list (tab (snd (snd sample_second_run)) ''prod'') ''001_a.sql'' = 1 \<and>
   count_list (tab (snd (snd sample_second_run)) ''prod'') ''002_b.sql'' = 1"
proof -
  let ?w = "sample_fs (sample_world (tracked_db [] []))"
  let ?opts = "sample_options ''postgres://u:p@h/prod''"
  let ?mi = "fst (NewWithOptions ''prod'' ?opts ?w)"
  let ?wi = "snd (NewWithOptions ''prod'' ?opts ?w)"
  let ?mj = "fst (snd (Migrate ?mi ?wi))"
  let ?wj = "snd (snd (Migrate ?mi ?wi))"
  let ?again = "Migrate ?mj (with_faults [] ?wj)"
  have mk: "NewWithOptions ''prod'' ?opts ?w = (?mi, ?wi)" by simp
  have wi: "?wi = ?w" and pth: "migrationsPath ?mi = ''/m''"
    by (simp_all add: NewWithOptions_def sample_options_def)
  have uniq: "distinct (tab ?wi ''prod'')"
    unfolding wi by (simp add: tab_def table_of_def sample_defs)
  have r1: "fst (Migrate ?mi ?wi) = None"
    by (simp add: run_eval)
  then have first: "Migrate ?mi ?wi = (None, ?mj, ?wj)"
    by (metis prod.collapse)
  have second: "?again = (fst ?again, fst (snd ?again), snd (snd ?again))" by simp
  note T = Migrate_idempotent[OF mk uniq first second]
  have ents: "sql_entries ?wi (migrationsPath ?mi) = [''001_a.sql'', ''002_b.sql'']"
    unfolding wi pth by (simp add: sql_entries_def sample_fs_def is_sql_def HasSuffix_def)
  have fr: "sample_first_run = Migrate ?mi ?wi"
    by (simp add: sample_first_run_def migrate_with_def case_prod_beta)
  have sr: "sample_second_run = ?again"
    by (simp add: sample_second_run_def fr case_prod_beta)
  from T ents r1 show ?thesis unfolding fr sr by simp
qed

section \<open>The shadow pass: what it leaves of production, and its last act\<close>

text \<open>The events of the cleanup closure: it ends with the drop and the closing.\<close>

lemma cleanup_drops:
  "\<exists>evs. trace (cleanup m shadowDB postgresDB w) = trace w @ evs \<and>
         EvDropDatabase postgresDB (shadowDBName m) \<in> set evs"
proof -
  let ?n = "shadowDBName m"
  let ?w1 = "db_Close shadowDB w"
  obtain rd w2 where d: "dropDatabaseIfExists postgresDB ?n ?w1 = (rd, w2)"
    by (cases "dropDatabaseIfExists postgresDB ?n ?w1")
  from dropDatabaseIfExists_result[OF d] obtain ws where
    t2: "trace w2 = trace ?w1 @ [EvTerminate postgresDB ?n] @ ws @ [EvDropDatabase postgresDB ?n]"
    by blast
  show ?thesis
  proof (cases rd)
    case None
    let ?evs = "[EvClose shadowDB, EvTerminate postgresDB ?n] @ ws @
          [EvDropDatabase postgresDB ?n, EvClose postgresDB]"
    from None d t2 have "trace (cleanup m shadowDB postgresDB w) = trace w @ ?evs"
      by (simp add: cleanup_def db_Close_def)
    moreover have "EvDropDatabase postgresDB ?n \<in> set ?evs" by simp
    ultimately show ?thesis by blast
  next
    case (Some e)
    let ?evs = "[EvClose shadowDB, EvTerminate postgresDB ?n] @ ws @
          [EvDropDatabase postgresDB ?n,
           EvWarning (''Failed to clean up shadow database '' @ ?n) (Some e),
           EvClose postgresDB]"
    from Some d t2 have "trace (cleanup m shadowDB postgresDB w) = trace w @ ?evs"
      by (simp add: cleanup_def db_Close_def)
    moreover have "EvDropDatabase postgresDB ?n \<in> set ?evs" by simp
    ultimately show ?thesis by blast
  qed
qed

text \<open>
  Once setupShadowDatabase has returned the two connections, TestNewMigrations returns
  what the part under \<^verbatim>\<open>defer cleanup()\<close> returns, whatever that is, and the drop of the
  shadow database on the administrative connection is among the calls made after that part.
\<close>

lemma TestNewMigrations_drops_after_setup:
  assumes "ms \<noteq> []"
    and "getCurrentDatabaseName (mainDB m) w = (Inr name, w1)"
    and "setupShadowDatabase (set_names m name) w1 = (Inr (shadowDB, postgresDB), w2)"
    and "TestNewMigrations_body (set_names m name) t shadowDB ms w2 = (r, w3)"
  shows "fst (TestNewMigrations m t ms w) = r \<and>
         (\<exists>evs. trace (snd (snd (TestNewMigrations m t ms w))) = trace w3 @ evs \<and>
                EvDropDatabase postgresDB (name @ shadow_suffix) \<in> set evs)"
proof -
  from assms
  have "TestNewMigrations m t ms w =
          (r, set_names m name, cleanup (set_names m name) shadowDB postgresDB w3)"
    by (simp add: TestNewMigrations_def)
  moreover have "shadowDBName (set_names m name) = name @ shadow_suffix"
    by (simp add: set_names_def shadow_suffix_def)
  ultimately show ?thesis
    using cleanup_drops[of "set_names m name" shadowDB postgresDB w3] by simp
qed

subsection \<open>The shadow pass on a connection that is not production's\<close>

lemma ApplyMigration_frame:
  assumes "ApplyMigration t name content w = (r, w1)" and "p \<noteq> tracker_db t"
  shows "dbs w1 p = dbs w p"
  using ApplyMigration_outcome[OF assms(1)] assms(2) by auto

lemma replay_applied_frame:
  "replay_applied t path names w = (r, w1) \<Longrightarrow> p \<noteq> tracker_db t \<Longrightarrow> dbs w1 p = dbs w p"
proof (induction names arbitrary: w)
  case Nil
  then show ?case by simp
next
  case (Cons name rest)
  obtain rf w2 where f: "os_ReadFile path name w = (rf, w2)" by (cases "os_ReadFile path name w")
  from quiet_dbs[OF os_ReadFile_quiet[OF f]] have d2: "dbs w2 p = dbs w p" .
  show ?case
  proof (cases rf)
    case (Inl e)
    with Cons.prems f d2 show ?thesis by auto
  next
    case (Inr content)
    obtain ra w3 where a: "ApplyMigration t name content w2 = (ra, w3)"
      by (cases "ApplyMigration t name content w2")
    from ApplyMigration_frame[OF a Cons.prems(2)] d2 have d3: "dbs w3 p = dbs w p" by simp
    show ?thesis
    proof (cases ra)
      case (Some e)
      with Cons.prems f Inr a d3 show ?thesis by auto
    next
      case None
      with Cons.prems f Inr a have "replay_applied t path rest w3 = (r, w1)" by simp
      from Cons.IH[OF this Cons.prems(2)] d3 show ?thesis by simp
    qed
  qed
qed

lemma test_each_frame:
  "test_each t ms w = (r, w1) \<Longrightarrow> p \<noteq> tracker_db t \<Longrightarrow> dbs w1 p = dbs w p"
proof (induction ms arbitrary: w)
  case Nil
  then show ?case by simp
next
  case (Cons m ms)
  obtain ra w2 where a: "ApplyMigration t (Name m) (Content m) w = (ra, w2)"
    by (cases "ApplyMigration t (Name m) (Content m) w")
  from ApplyMigration_frame[OF a Cons.prems(2)] have d2: "dbs w2 p = dbs w p" .
  show ?case
  proof (cases ra)
    case (Some e)
    with Cons.prems a d2 show ?thesis by auto
  next
    case None
    with Cons.prems a have "test_each t ms w2 = (r, w1)" by simp
    from Cons.IH[OF this Cons.prems(2)] d2 show ?thesis by simp
  qed
qed

lemma TestNewMigrations_body_frame:
  assumes run: "TestNewMigrations_body m mainTracker shadowDB ms w = (r, w1)"
    and sep: "p \<noteq> shadowDB"
  shows "dbs w1 p = dbs w p"
proof -
  let ?t = "tracker_New shadowDB"
  from sep have pt: "p \<noteq> tracker_db ?t" by (simp add: tracker_New_def)
  obtain re w2 where e: "EnsureMigrationsTable ?t w = (re, w2)"
    by (cases "EnsureMigrationsTable ?t w")
  from EnsureMigrationsTable_result[OF e] pt have d2: "dbs w2 p = dbs w p" by simp
  show ?thesis
  proof (cases re)
    case (Some err)
    with run e d2 show ?thesis by (auto simp: TestNewMigrations_body_def)
  next
    case None
    obtain ra w3 where a: "GetAppliedMigrations mainTracker w2 = (ra, w3)"
      by (cases "GetAppliedMigrations mainTracker w2")
    from quiet_dbs[OF GetAppliedMigrations_quiet[OF a]] d2 have d3: "dbs w3 p = dbs w p" by simp
    show ?thesis
    proof (cases ra)
      case (Inl err)
      with run e None a d3 show ?thesis
        by (auto simp: TestNewMigrations_body_def applyExistingMigrationsToShadow_def)
    next
      case (Inr applied)
      let ?w4 = "emit (EvGetenv ''MIGRATIONS_PATH'') w3"
      let ?path = "if env w3 ''MIGRATIONS_PATH'' = [] then ''./migrations''
                   else env w3 ''MIGRATIONS_PATH''"
      obtain rr w5 where rp: "replay_applied ?t ?path applied ?w4 = (rr, w5)"
        by (cases "replay_applied ?t ?path applied ?w4")
      from replay_applied_frame[OF rp pt] d3 have d5: "dbs w5 p = dbs w p" by simp
      from a Inr rp have ae: "applyExistingMigrationsToShadow m mainTracker ?t w2 = (rr, w5)"
        by (simp add: applyExistingMigrationsToShadow_def os_Getenv_def)
      show ?thesis
      proof (cases rr)
        case (Some err)
        with run e None ae d5 show ?thesis by (auto simp: TestNewMigrations_body_def)
      next
        case r_ok: None
        obtain rt w6 where t: "test_each ?t ms w5 = (rt, w6)" by (cases "test_each ?t ms w5")
        from test_each_frame[OF t pt] d5 have "dbs w6 p = dbs w p" by simp
        with run e None ae r_ok t show ?thesis
          by (auto simp: TestNewMigrations_body_def testMigrationsOnShadow_def
                split: option.splits)
      qed
    qed
  qed
qed

lemma setupShadowDatabase_conn:
  assumes "setupShadowDatabase m w = (Inr (shadowDB, postgresDB), w1)"
  shows "driver w (shadow_dsn m (shadowDBName m)) = Some shadowDB"
proof -
  obtain rp w2 where p: "connectToPostgresDatabase m w = (rp, w2)"
    by (cases "connectToPostgresDatabase m w")
  with assms obtain pg where rp: "rp = Inr pg" by (cases rp) (auto simp: setupShadowDatabase_def)
  obtain rd w3 where d: "dropDatabaseIfExists pg (shadowDBName m) w2 = (rd, w3)"
    by (cases "dropDatabaseIfExists pg (shadowDBName m) w2")
  with assms p rp have rd: "rd = None" by (cases rd) (auto simp: setupShadowDatabase_def)
  obtain rc w4 where c: "createDatabase pg (shadowDBName m) w3 = (rc, w4)"
    by (cases "createDatabase pg (shadowDBName m) w3")
  with assms p rp d rd have rc: "rc = None" by (cases rc) (auto simp: setupShadowDatabase_def)
  from connectToPostgresDatabase_params[OF p] dropDatabaseIfExists_params[OF d]
    createDatabase_params[OF c]
  have "driver w4 = driver w" by (simp add: same_params_def)
  with assms p rp d rd c rc show ?thesis
    by (auto simp: setupShadowDatabase_def connectToDatabase_def shadow_dsn_def sql_Open_def
          Let_def split: option.splits sum.splits)
qed

text \<open>
  When the connection string built for the shadow database does not connect to production,
  TestNewMigrations leaves the production database as it is, whatever it returns.
\<close>

lemma TestNewMigrations_frame:
  assumes run: "TestNewMigrations mgr t ms w = (r, mgr', w')"
    and main: "mainDB mgr = p"
    and sep: "driver w (shadow_dsn mgr (p @ shadow_suffix)) \<noteq> Some p"
  shows "dbs w' p = dbs w p"
proof (cases "ms = []")
  case True
  with run show ?thesis by (simp add: TestNewMigrations_def)
next
  case False
  let ?n = "p @ shadow_suffix"
  have pn: "p \<noteq> ?n" by (rule shadow_name_differs)
  obtain rc w1 where c: "getCurrentDatabaseName p w = (rc, w1)"
    by (cases "getCurrentDatabaseName p w")
  from getCurrentDatabaseName_result[OF c, of ?n] pn have d1: "dbs w1 p = dbs w p"
    and name: "case rc of Inl e \<Rightarrow> True | Inr name \<Rightarrow> name = p"
    by (simp_all add: provisions_def)
  from c have drv1: "driver w1 = driver w"
    by (auto simp: getCurrentDatabaseName_def db_CurrentDatabase_def same_params_def
          split: prod.splits bool.splits option.splits dest!: call_params)
  show ?thesis
  proof (cases rc)
    case (Inl e)
    with run False main c d1 show ?thesis by (auto simp: TestNewMigrations_def)
  next
    case (Inr nm)
    with name have nm: "nm = p" by simp
    let ?m = "set_names mgr p"
    have sn: "shadowDBName ?m = ?n" "databaseURL ?m = databaseURL mgr"
      by (simp_all add: set_names_def shadow_suffix_def)
    then have dsn: "shadow_dsn ?m ?n = shadow_dsn mgr ?n" by (simp add: shadow_dsn_def)
    obtain rs w2 where s: "setupShadowDatabase ?m w1 = (rs, w2)"
      by (cases "setupShadowDatabase ?m w1")
    from setupShadowDatabase_result[OF s] sn pn have d2: "dbs w2 p = dbs w1 p"
      by (simp add: provisions_def)
    show ?thesis
    proof (cases rs)
      case (Inl e)
      with run False main c Inr nm s d1 d2 show ?thesis by (auto simp: TestNewMigrations_def)
    next
      case conns: (Inr cs)
      obtain shadowDB postgresDB where cs: "cs = (shadowDB, postgresDB)" by (cases cs)
      from setupShadowDatabase_conn[OF s[unfolded conns cs]] sn dsn drv1 sep
      have ne: "p \<noteq> shadowDB" by auto
      obtain rb w3 where b: "TestNewMigrations_body ?m t shadowDB ms w2 = (rb, w3)"
        by (cases "TestNewMigrations_body ?m t shadowDB ms w2")
      from TestNewMigrations_body_frame[OF b ne] have d3: "dbs w3 p = dbs w2 p" .
      from cleanup_provisions[of ?m w3 shadowDB postgresDB] sn pn
      have "dbs (cleanup ?m shadowDB postgresDB w3) p = dbs w3 p"
        by (simp add: provisions_def)
      with run False main c Inr nm s conns cs b d1 d2 d3 show ?thesis
        by (auto simp: TestNewMigrations_def)
    qed
  qed
qed

subsection \<open>A failed shadow test stops Migrate before production\<close>

lemma keeps_same: "dbs w' p = dbs w p \<Longrightarrow> keeps p w w'"
  by (simp add: keeps_def tab_def table_of_def)

lemma keeps_trans: "keeps p wa wb \<Longrightarrow> keeps p wb wc \<Longrightarrow> keeps p wa wc"
  by (simp add: keeps_def)

lemma EnsureMigrationsTable_keeps:
  assumes "EnsureMigrationsTable t w = (r, w1)"
  shows "keeps p w w1"
proof (cases "p = tracker_db t")
  case False
  with EnsureMigrationsTable_result[OF assms] show ?thesis by (simp add: keeps_same)
next
  case True
  with EnsureMigrationsTable_result[OF assms] show ?thesis
    by (auto simp: keeps_def tab_def table_of_def split: option.splits)
qed

text \<open>
  The migrator has a shadow manager, and the connection string the manager
  builds for the shadow database does not connect to production. When Migrate returns the
  error of a failed shadow test, production has gained no applied name and no object.
\<close>

lemma Migrate_shadow_failure_keeps_production:
  assumes run: "Migrate mg w = (Some (Errorf ''shadow database test failed'' e), mg', w')"
    and inv: "mig_inv mg" and mgr: "shadowManager mg = Some mgr"
    and sep: "driver w (shadow_dsn mgr (m_db mg @ shadow_suffix)) \<noteq> Some (m_db mg)"
  shows "keeps (m_db mg) w w'"
proof -
  let ?p = "m_db mg" and ?v = "m_validator mg"
  from inv mgr have main: "mainDB mgr = ?p" by (simp add: mig_inv_def mgr_inv_def)
  obtain r1 w1 where s1: "EnsureMigrationsTable (m_tracker mg) w = (r1, w1)"
    by (cases "EnsureMigrationsTable (m_tracker mg) w")
  from run s1 have r1: "r1 = None" by (cases r1) (simp_all add: Migrate_def)
  from EnsureMigrationsTable_keeps[OF s1] have k1: "keeps ?p w w1" .
  obtain r2 w2 where s2: "ValidateExistingMigrations ?v w1 = (r2, w2)"
    by (cases "ValidateExistingMigrations ?v w1")
  from run s1 r1 s2 have r2: "r2 = None" by (cases r2) (simp_all add: Migrate_def)
  obtain r3 w3 where s3: "GetMigrationFiles ?v w2 = (r3, w3)"
    by (cases "GetMigrationFiles ?v w2")
  from run s1 r1 s2 r2 s3 obtain ms where r3: "r3 = Inr ms"
    by (cases r3) (simp_all add: Migrate_def)
  obtain r4 w4 where s4: "FindNewMigrations ms w3 = (r4, w4)"
    by (cases "FindNewMigrations ms w3")
  from run s1 r1 s2 r2 s3 r3 s4 obtain new where r4: "r4 = Inr new"
    by (cases r4) (simp_all add: Migrate_def)
  from quiet_dbs[OF ValidateExistingMigrations_quiet[OF s2], of ?p]
    quiet_dbs[OF GetMigrationFiles_quiet[OF s3], of ?p]
    quiet_dbs[OF FindNewMigrations_quiet[OF s4], of ?p]
  have "dbs w4 ?p = dbs w1 ?p" by simp
  with k1 have k4: "keeps ?p w w4" by (simp add: keeps_def tab_def table_of_def)
  from EnsureMigrationsTable_params[OF s1] ValidateExistingMigrations_params[OF s2]
    GetMigrationFiles_params[OF s3] FindNewMigrations_params[OF s4]
  have "driver w4 = driver w" by (simp add: same_params_def)
  with sep have sep4: "driver w4 (shadow_dsn mgr (?p @ shadow_suffix)) \<noteq> Some ?p" by simp
  obtain rt mgr' w5 where t: "TestNewMigrations mgr (m_tracker mg) new w4 = (rt, mgr', w5)"
    by (cases "TestNewMigrations mgr (m_tracker mg) new w4")
  from TestNewMigrations_frame[OF t main sep4] have "dbs w5 ?p = dbs w4 ?p" .
  with k4 have k5: "keeps ?p w w5" by (simp add: keeps_def tab_def table_of_def)
  have w': "w' = w5"
  proof (cases rt)
    case (Some err)
    with run s1 r1 s2 r2 s3 r3 s4 r4 mgr t show ?thesis
      by (auto simp: Migrate_def Migrate_shadow_def Migrate_lazy_manager_def
            TestNewMigrations_def split: if_splits)
  next
    case None
    with run s1 r1 s2 r2 s3 r3 s4 r4 mgr t show ?thesis
      by (auto simp: Migrate_def Migrate_shadow_def Migrate_lazy_manager_def
            TestNewMigrations_def split: if_splits option.splits prod.splits)
  qed
  with k5 show ?thesis by simp
qed

text \<open>
  A sample: the connection string is a URL that ends in the database name, the
  second script fails on the shadow database, and production keeps its empty table and
  its objects.
\<close>

lemma Migrate_shadow_failure_sample:
  "fst (migrate_with ''prod'' (sample_options ''postgres://u:p@h/prod'')
          (broken_fs (sample_world (tracked_db [] []))))
     = Some (Errorf ''shadow database test failed''
          (Errorf ''failed to test migrations on shadow''
             (Errorf ''migration 002_b.sql failed on shadow database''
                (Errorf ''failed to execute migration'' (Driver ScriptFailed)))))
   \<and> keeps ''prod'' (broken_fs (sample_world (tracked_db [] [])))
        (snd (snd (migrate_with ''prod'' (sample_options ''postgres://u:p@h/prod'')
          (broken_fs (sample_world (tracked_db [] []))))))"
proof -
  let ?w = "broken_fs (sample_world (tracked_db [] []))"
  let ?opts = "sample_options ''postgres://u:p@h/prod''"
  let ?mg = "fst (NewWithOptions ''prod'' ?opts ?w)"
  let ?mgr = "\<lparr>mainDB = ''prod'', currentDBName = [], shadowDBName = [],
               databaseURL = ''postgres://u:p@h/prod''\<rparr>"
  let ?e = "Errorf ''failed to test migrations on shadow''
             (Errorf ''migration 002_b.sql failed on shadow database''
                (Errorf ''failed to execute migration'' (Driver ScriptFailed)))"
  have mk: "NewWithOptions ''prod'' ?opts ?w = (?mg, ?w)"
    by (simp add: NewWithOptions_def sample_options_def)
  have same: "snd (NewWithOptions ''prod'' ?opts ?w) = ?w"
    by (simp add: NewWithOptions_def sample_options_def)
  have run: "migrate_with ''prod'' ?opts ?w = Migrate ?mg ?w"
    by (simp add: migrate_with_def case_prod_beta same)
  have r: "fst (Migrate ?mg ?w) = Some (Errorf ''shadow database test failed'' ?e)"
    by (simp add: broken_fs_def sample_defs shadow_eval tracker_eval migrate_eval Let_def)
  then have full: "Migrate ?mg ?w = (Some (Errorf ''shadow database test failed'' ?e),
      fst (snd (Migrate ?mg ?w)), snd (snd (Migrate ?mg ?w)))"
    by (metis prod.collapse)
  from NewWithOptions_inv[OF mk] have inv: "mig_inv ?mg" and db: "m_db ?mg = ''prod''"
    by simp_all
  have mgr: "shadowManager ?mg = Some ?mgr"
    by (simp add: NewWithOptions_def sample_options_def NewWithURL_def)
  have sep: "driver ?w (shadow_dsn ?mgr (m_db ?mg @ shadow_suffix)) \<noteq> Some (m_db ?mg)"
    unfolding db
    by (simp add: shadow_dsn_def extractDBNameFromDSN_def shadow_suffix_def broken_fs_def
          sample_world_def HasPrefix_def Let_def)
  from Migrate_shadow_failure_keeps_production[OF full inv mgr sep] db r show ?thesis
    unfolding run by simp
qed

subsection \<open>The drop at the end of the shadow pass\<close>

lemma cleanup_trace:
  "\<exists>ws ws'. list_all is_warning ws \<and> list_all is_warning ws' \<and>
     trace (cleanup m shadowDB postgresDB w) =
       trace w @ [EvClose shadowDB, EvTerminate postgresDB (shadowDBName m)] @ ws @
         [EvDropDatabase postgresDB (shadowDBName m)] @ ws' @ [EvClose postgresDB]"
proof -
  let ?n = "shadowDBName m"
  let ?w1 = "db_Close shadowDB w"
  obtain rd w2 where d: "dropDatabaseIfExists postgresDB ?n ?w1 = (rd, w2)"
    by (cases "dropDatabaseIfExists postgresDB ?n ?w1")
  from dropDatabaseIfExists_result[OF d] obtain ws where ws: "list_all is_warning ws"
    and t2: "trace w2 = trace ?w1 @ [EvTerminate postgresDB ?n] @ ws @ [EvDropDatabase postgresDB ?n]"
    by blast
  show ?thesis
  proof (cases rd)
    case None
    from None d t2 have "trace (cleanup m shadowDB postgresDB w) =
        trace w @ [EvClose shadowDB, EvTerminate postgresDB ?n] @ ws @
          [EvDropDatabase postgresDB ?n] @ [] @ [EvClose postgresDB]"
      by (simp add: cleanup_def db_Close_def)
    moreover have "list_all is_warning ([] :: event list)" by simp
    ultimately show ?thesis using ws by blast
  next
    case (Some e)
    let ?ws' = "[EvWarning (''Failed to clean up shadow database '' @ ?n) (Some e)]"
    from Some d t2 have "trace (cleanup m shadowDB postgresDB w) =
        trace w @ [EvClose shadowDB, EvTerminate postgresDB ?n] @ ws @
          [EvDropDatabase postgresDB ?n] @ ?ws' @ [EvClose postgresDB]"
      by (simp add: cleanup_def db_Close_def)
    moreover have "list_all is_warning ?ws'" by simp
    ultimately show ?thesis using ws by blast
  qed
qed

lemma replay_applied_extends:
  "replay_applied t path names w = (r, w1) \<Longrightarrow> \<exists>evs. trace w1 = trace w @ evs"
proof (induction names arbitrary: w)
  case Nil
  then show ?case by simp
next
  case (Cons name rest)
  obtain rf w2 where f: "os_ReadFile path name w = (rf, w2)" by (cases "os_ReadFile path name w")
  from os_ReadFile_quiet[OF f, of path] obtain e1 where e1: "trace w2 = trace w @ e1"
    unfolding quiet_def by blast
  show ?case
  proof (cases rf)
    case (Inl e)
    with Cons.prems f e1 show ?thesis by auto
  next
    case (Inr content)
    obtain ra w3 where a: "ApplyMigration t name content w2 = (ra, w3)"
      by (cases "ApplyMigration t name content w2")
    from ApplyMigration_events[OF a] e1 obtain e2 where e2: "trace w3 = trace w @ e2" by auto
    show ?thesis
    proof (cases ra)
      case (Some e)
      with Cons.prems f Inr a e2 show ?thesis by auto
    next
      case None
      with Cons.prems f Inr a have "replay_applied t path rest w3 = (r, w1)" by simp
      from Cons.IH[OF this] e2 show ?thesis by auto
    qed
  qed
qed

lemma test_each_extends:
  "test_each t ms w = (r, w1) \<Longrightarrow> \<exists>evs. trace w1 = trace w @ evs"
proof (induction ms arbitrary: w)
  case Nil
  then show ?case by simp
next
  case (Cons m ms)
  obtain ra w2 where a: "ApplyMigration t (Name m) (Content m) w = (ra, w2)"
    by (cases "ApplyMigration t (Name m) (Content m) w")
  from ApplyMigration_events[OF a] obtain e2 where e2: "trace w2 = trace w @ e2" by auto
  show ?case
  proof (cases ra)
    case (Some e)
    with Cons.prems a e2 show ?thesis by auto
  next
    case None
    with Cons.prems a have "test_each t ms w2 = (r, w1)" by simp
    from Cons.IH[OF this] e2 show ?thesis by auto
  qed
qed

lemma TestNewMigrations_body_extends:
  assumes run: "TestNewMigrations_body m mainTracker shadowDB ms w = (r, w1)"
  shows "\<exists>evs. trace w1 = trace w @ evs"
proof -
  let ?t = "tracker_New shadowDB"
  obtain re w2 where e: "EnsureMigrationsTable ?t w = (re, w2)"
    by (cases "EnsureMigrationsTable ?t w")
  from EnsureMigrationsTable_result[OF e] obtain e2 where e2: "trace w2 = trace w @ e2" by auto
  show ?thesis
  proof (cases re)
    case (Some err)
    with run e e2 show ?thesis by (auto simp: TestNewMigrations_body_def)
  next
    case None
    obtain ra w3 where a: "GetAppliedMigrations mainTracker w2 = (ra, w3)"
      by (cases "GetAppliedMigrations mainTracker w2")
    from GetAppliedMigrations_quiet[OF a, of shadowDB] e2 obtain e3 where
      e3: "trace w3 = trace w @ e3"
      unfolding quiet_def by auto
    show ?thesis
    proof (cases ra)
      case (Inl err)
      with run e None a e3 show ?thesis
        by (auto simp: TestNewMigrations_body_def applyExistingMigrationsToShadow_def)
    next
      case (Inr applied)
      let ?w4 = "emit (EvGetenv ''MIGRATIONS_PATH'') w3"
      let ?path = "if env w3 ''MIGRATIONS_PATH'' = [] then ''./migrations''
                   else env w3 ''MIGRATIONS_PATH''"
      obtain rr w5 where rp: "replay_applied ?t ?path applied ?w4 = (rr, w5)"
        by (cases "replay_applied ?t ?path applied ?w4")
      from replay_applied_extends[OF rp] e3 obtain e5 where e5: "trace w5 = trace w @ e5"
        by auto
      from a Inr rp have ae: "applyExistingMigrationsToShadow m mainTracker ?t w2 = (rr, w5)"
        by (simp add: applyExistingMigrationsToShadow_def os_Getenv_def)
      show ?thesis
      proof (cases rr)
        case (Some err)
        with run e None ae e5 show ?thesis by (auto simp: TestNewMigrations_body_def)
      next
        case r_ok: None
        obtain rt w6 where t: "test_each ?t ms w5 = (rt, w6)" by (cases "test_each ?t ms w5")
        from test_each_extends[OF t] e5 obtain e6 where "trace w6 = trace w @ e6" by auto
        with run e None ae r_ok t show ?thesis
          by (auto simp: TestNewMigrations_body_def testMigrationsOnShadow_def
                split: option.splits)
      qed
    qed
  qed
qed

text \<open>
  C7. Take an invocation of the shadow tester in which the shadow database is created:
  there are new migrations, the current database name is read, the administrative
  connection is opened, the stale shadow database is dropped and the new one is created.
  \<^verbatim>\<open>sql.Open\<close> does not fail (it opens no connection, and the driver accepts every
  connection string). Then the part of TestNewMigrations under \<^verbatim>\<open>defer cleanup()\<close> runs
  on the shadow connection, TestNewMigrations returns what that part returns, whatever
  it is (success, or the failure of the tracking table's creation, of the replay or of
  the test of a new migration), and the calls made after that part and before the return
  are the closing of the shadow connection, the termination of the connections to the
  shadow database, its drop on the administrative connection, and the closing of the
  administrative connection, with nothing but warnings in between. The drop follows the
  creation.
\<close>

theorem shadow_database_dropped_on_every_path:
  assumes run: "TestNewMigrations m t ms w = (r, m', w')" and ne: "ms \<noteq> []"
    and cur: "getCurrentDatabaseName (mainDB m) w = (Inr name, w1)"
    and pgc: "connectToPostgresDatabase (set_names m name) w1 = (Inr pg, wa)"
    and drp: "dropDatabaseIfExists pg (name @ shadow_suffix) wa = (None, wb)"
    and crt: "createDatabase pg (name @ shadow_suffix) wb = (None, wc)"
    and opn: "\<forall>dsn. driver w dsn \<noteq> None"
  shows "\<exists>shadowDB wd w3 evs ws ws'.
           connectToDatabase (set_names m name) (name @ shadow_suffix) wc = (Inr shadowDB, wd) \<and>
           TestNewMigrations_body (set_names m name) t shadowDB ms wd = (r, w3) \<and>
           trace w3 = trace wc @ evs \<and>
           list_all is_warning ws \<and> list_all is_warning ws' \<and>
           trace w' = trace w3 @ [EvClose shadowDB, EvTerminate pg (name @ shadow_suffix)] @ ws @
                        [EvDropDatabase pg (name @ shadow_suffix)] @ ws' @ [EvClose pg]"
proof -
  let ?m = "set_names m name"
  let ?n = "name @ shadow_suffix"
  have sn: "shadowDBName ?m = ?n" by (simp add: set_names_def shadow_suffix_def)
  from cur have "driver w1 = driver w"
    by (auto simp: getCurrentDatabaseName_def db_CurrentDatabase_def
          split: prod.splits bool.splits option.splits dest!: call_result)
  with connectToPostgresDatabase_params[OF pgc] dropDatabaseIfExists_params[OF drp]
    createDatabase_params[OF crt]
  have "driver wc = driver w" by (simp add: same_params_def)
  with opn obtain shadowDB where
    s: "driver wc (shadow_dsn ?m ?n) = Some shadowDB"
    by (metis option.exhaust)
  let ?wd = "emit (EvOpen (shadow_dsn ?m ?n)) wc"
  from s have con: "connectToDatabase ?m ?n wc = (Inr shadowDB, ?wd)"
    by (simp add: connectToDatabase_def shadow_dsn_def sql_Open_def Let_def)
  from pgc drp crt con sn
  have stp: "setupShadowDatabase ?m w1 = (Inr (shadowDB, pg), ?wd)"
    by (simp add: setupShadowDatabase_def)
  obtain rb w3 where b: "TestNewMigrations_body ?m t shadowDB ms ?wd = (rb, w3)"
    by (cases "TestNewMigrations_body ?m t shadowDB ms ?wd")
  from run ne cur stp b have res: "r = rb" "w' = cleanup ?m shadowDB pg w3"
    by (auto simp: TestNewMigrations_def)
  from TestNewMigrations_body_extends[OF b] obtain e1 where "trace w3 = trace ?wd @ e1" by blast
  then have ext: "trace w3 = trace wc @ (EvOpen (shadow_dsn ?m ?n) # e1)" by simp
  from cleanup_trace[of ?m shadowDB pg w3] sn obtain ws ws' where
    "list_all is_warning ws" "list_all is_warning ws'"
    "trace (cleanup ?m shadowDB pg w3) =
       trace w3 @ [EvClose shadowDB, EvTerminate pg ?n] @ ws @
         [EvDropDatabase pg ?n] @ ws' @ [EvClose pg]"
    by auto
  with con b res ext show ?thesis by blast
qed

theorem shadow_database_dropped_on_every_path_witness:
  "fst (TestNewMigrations (sample_manager ''postgres://u:p@h/prod'') (tracker_New ''prod'')
          broken_files (with_driver total_driver (sample_world (tracked_db [] []))))
     = Some (Errorf ''failed to test migrations on shadow''
          (Errorf ''migration 002_b.sql failed on shadow database''
             (Errorf ''failed to execute migration'' (Driver ScriptFailed))))
   \<and> (\<exists>shadowDB before evs ws ws'.
         list_all is_warning ws \<and> list_all is_warning ws' \<and>
         trace (snd (snd (TestNewMigrations (sample_manager ''postgres://u:p@h/prod'')
           (tracker_New ''prod'') broken_files
           (with_driver total_driver (sample_world (tracked_db [] []))))))
         = before @ [EvCreateDatabase ''postgres'' ''prod_gi_mig_shadow_db''] @ evs @
             [EvClose shadowDB, EvTerminate ''postgres'' ''prod_gi_mig_shadow_db''] @ ws @
             [EvDropDatabase ''postgres'' ''prod_gi_mig_shadow_db''] @ ws' @
             [EvClose ''postgres''])"
proof -
  let ?m = "sample_manager ''postgres://u:p@h/prod''"
  let ?w = "with_driver total_driver (sample_world (tracked_db [] []))"
  let ?X = "TestNewMigrations ?m (tracker_New ''prod'') broken_files ?w"
  let ?sh = "''prod'' @ shadow_suffix"
  note ev = sample_manager_def with_driver_def total_driver_def broken_files_def sample_defs
    shadow_eval tracker_eval Let_def shadow_suffix_def
  have run: "?X = (fst ?X, fst (snd ?X), snd (snd ?X))" by simp
  have ne: "broken_files \<noteq> []" by (simp add: broken_files_def)
  let ?wi = "snd (getCurrentDatabaseName (mainDB ?m) ?w)"
  have cur: "getCurrentDatabaseName (mainDB ?m) ?w = (Inr ''prod'', ?wi)"
    by (simp add: ev)
  let ?mm = "set_names ?m ''prod''"
  let ?wa = "snd (connectToPostgresDatabase ?mm ?wi)"
  have c: "connectToPostgresDatabase ?mm ?wi = (Inr ''postgres'', ?wa)"
    by (simp add: ev)
  let ?wb = "snd (dropDatabaseIfExists ''postgres'' ?sh ?wa)"
  have d: "dropDatabaseIfExists ''postgres'' ?sh ?wa = (None, ?wb)"
    by (simp add: ev)
  let ?wc = "snd (createDatabase ''postgres'' ?sh ?wb)"
  have cr: "createDatabase ''postgres'' ?sh ?wb = (None, ?wc)"
    by (simp add: ev)
  have opn: "\<forall>dsn. driver ?w dsn \<noteq> None"
    by (simp add: with_driver_def total_driver_def)
  have r: "fst ?X = Some (Errorf ''failed to test migrations on shadow''
          (Errorf ''migration 002_b.sql failed on shadow database''
             (Errorf ''failed to execute migration'' (Driver ScriptFailed))))"
    by (simp add: ev)
  from createDatabase_result[OF cr] obtain before where
    tc: "trace ?wc = before @ [EvCreateDatabase ''postgres'' ?sh]"
    by auto
  note inst = shadow_database_dropped_on_every_path[OF run ne cur c d cr opn]
  obtain shadowDB wd w3 evs ws ws' where
    "connectToDatabase ?mm ?sh ?wc = (Inr shadowDB, wd)"
    "TestNewMigrations_body ?mm (tracker_New ''prod'') shadowDB broken_files wd = (fst ?X, w3)"
    and T: "trace w3 = trace ?wc @ evs" "list_all is_warning ws" "list_all is_warning ws'"
      "trace (snd (snd ?X)) = trace w3 @ [EvClose shadowDB, EvTerminate ''postgres'' ?sh] @ ws @
          [EvDropDatabase ''postgres'' ?sh] @ ws' @ [EvClose ''postgres'']"
  proof -
    from inst show ?thesis by (elim exE conjE) (rule that)
  qed
  from T(1,4) tc have tr: "trace (snd (snd ?X)) =
      before @ [EvCreateDatabase ''postgres'' ''prod_gi_mig_shadow_db''] @ evs @
        [EvClose shadowDB, EvTerminate ''postgres'' ''prod_gi_mig_shadow_db''] @ ws @
        [EvDropDatabase ''postgres'' ''prod_gi_mig_shadow_db''] @ ws' @ [EvClose ''postgres'']"
    by (simp add: shadow_suffix_def)
  have E: "\<exists>shadowDB before evs ws ws'.
         list_all is_warning ws \<and> list_all is_warning ws' \<and>
         trace (snd (snd ?X))
         = before @ [EvCreateDatabase ''postgres'' ''prod_gi_mig_shadow_db''] @ evs @
             [EvClose shadowDB, EvTerminate ''postgres'' ''prod_gi_mig_shadow_db''] @ ws @
             [EvDropDatabase ''postgres'' ''prod_gi_mig_shadow_db''] @ ws' @
             [EvClose ''postgres'']"
    apply (rule exI[of _ shadowDB], rule exI[of _ before], rule exI[of _ evs],
        rule exI[of _ ws], rule exI[of _ ws'])
    using T(2,3) tr by (intro conjI)
  from r E show ?thesis by (rule conjI)
qed

text \<open>
  The hypothesis on \<^verbatim>\<open>sql.Open\<close> is needed in the model. Were the connection string of
  the shadow database rejected after the administrative one was accepted,
  setupShadowDatabase would close the administrative connection and return the error, with
  the shadow database created and no drop after the creation. \<^verbatim>\<open>sql.Open\<close> of
  \<^verbatim>\<open>database/sql\<close> opens no connection, and the \<^verbatim>\<open>postgres\<close> driver rejects no
  string there, so the program does not take this branch.
\<close>

lemma rejected_shadow_string_skips_the_drop:
  "fst (TestNewMigrations (sample_manager ''postgres://u:p@h/prod'') (tracker_New ''prod'')
          sample_files
          (with_driver [''postgres://u:p@h/prod'' \<mapsto> ''prod'',
                        ''postgres://u:p@h/postgres'' \<mapsto> ''postgres'']
             (sample_fs (sample_world (tracked_db [] [])))))
     = Some (Errorf ''failed to setup shadow database''
          (Errorf ''failed to connect to shadow database'' (Driver BadDSN)))
   \<and> trace (snd (snd (TestNewMigrations (sample_manager ''postgres://u:p@h/prod'')
          (tracker_New ''prod'') sample_files
          (with_driver [''postgres://u:p@h/prod'' \<mapsto> ''prod'',
                        ''postgres://u:p@h/postgres'' \<mapsto> ''postgres'']
             (sample_fs (sample_world (tracked_db [] [])))))))
     = [EvCurrentDatabase ''prod'',
        EvOpen ''postgres://u:p@h/postgres'',
        EvTerminate ''postgres'' ''prod_gi_mig_shadow_db'',
        EvDropDatabase ''postgres'' ''prod_gi_mig_shadow_db'',
        EvCreateDatabase ''postgres'' ''prod_gi_mig_shadow_db'',
        EvOpen ''postgres://u:p@h/prod_gi_mig_shadow_db'',
        EvClose ''postgres'']
   \<and> dbs (snd (snd (TestNewMigrations (sample_manager ''postgres://u:p@h/prod'')
          (tracker_New ''prod'') sample_files
          (with_driver [''postgres://u:p@h/prod'' \<mapsto> ''prod'',
                        ''postgres://u:p@h/postgres'' \<mapsto> ''postgres'']
             (sample_fs (sample_world (tracked_db [] []))))))) ''prod_gi_mig_shadow_db''
     = Some empty_db"
  by (simp add: sample_manager_def with_driver_def sample_defs shadow_eval tracker_eval Let_def)

end
